(* ===== verification/Prelude.thy ===== *)
theory Prelude
  imports Main "HOL-Library.Word" "HOL-Library.AList" "HOL-Library.Char_ord"
begin

text \<open>
  Shared vocabulary of the development: the Go integer, byte, string, time and
  duration types, the collections that carry the component proofs, generic lemmas on
  association lists, and one locale for the argument every state machine of the
  program uses (an invariant kept by each operation holds in each reachable state).

  Go's \<open>int\<close> and \<open>int64\<close> are \<^typ>\<open>int\<close> with the wrap-around written out by
  \<open>int64\<close>; \<open>uint64\<close> is a 64-bit word; a Go \<open>string\<close> is a list of bytes,
  here \<^typ>\<open>string\<close>; \<open>[]byte\<close> is a list of 8-bit words.
\<close>

section \<open>Types\<close>

type_synonym byte = "8 word"
type_synonym bytes = "byte list"
type_synonym u64 = "64 word"

text \<open>\<open>time.Duration\<close>: nanoseconds in an \<open>int64\<close>. \<open>time.Time\<close>: nanoseconds since 1970.\<close>

type_synonym duration = int
type_synonym time = int

section \<open>Collections\<close>

named_theorems go_simps \<open>unfolding equations of the Go standard-library functions modelled here\<close>
named_theorems frame_simps \<open>what an operation leaves unchanged\<close>
named_theorems inv_intros \<open>each operation keeps the invariant of its component\<close>

section \<open>64-bit signed integers\<close>

definition int64 :: "int \<Rightarrow> int" where
  "int64 x = (x + 2 ^ 63) mod 2 ^ 64 - 2 ^ 63"

definition in_int64 :: "int \<Rightarrow> bool" where
  "in_int64 x \<longleftrightarrow> - (2 ^ 63) \<le> x \<and> x < 2 ^ 63"

lemma int64_id [simp]: "in_int64 x \<Longrightarrow> int64 x = x"
  by (simp add: in_int64_def int64_def)

lemma in_int64_int64 [simp, intro]: "in_int64 (int64 x)"
proof -
  have "0 \<le> (x + 2 ^ 63) mod (2 ^ 64 :: int)" and "(x + 2 ^ 63) mod (2 ^ 64 :: int) < 2 ^ 64"
    by simp_all
  then show ?thesis
    by (simp add: in_int64_def int64_def)
qed

section \<open>Time\<close>

definition zero_time :: time where
  "zero_time = - 62135596800 * 1000000000"

text \<open>\<open>time.Since\<close> saturates at the ends of the \<open>int64\<close> range.\<close>

definition since :: "time \<Rightarrow> time \<Rightarrow> duration" where
  "since now t = max (- (2 ^ 63)) (min (2 ^ 63 - 1) (now - t))"

definition millisecond :: duration where "millisecond = 1000000"
definition second :: duration where "second = 1000000000"

lemma since_self [simp]: "since t t = 0"
  by (simp add: since_def)

lemma since_less_iff:
  "0 \<le> w \<Longrightarrow> w < 2 ^ 63 \<Longrightarrow> since now t < w \<longleftrightarrow> now - t < w"
  by (auto simp: since_def min_def max_def)

section \<open>Bytes of a string\<close>

definition byte_of_char :: "char \<Rightarrow> byte" where
  "byte_of_char c = word_of_nat (of_char c)"

definition char_of_byte :: "byte \<Rightarrow> char" where
  "char_of_byte b = char_of (unat b)"

abbreviation bytes_of :: "string \<Rightarrow> bytes" where
  "bytes_of s \<equiv> map byte_of_char s"

abbreviation string_of :: "bytes \<Rightarrow> string" where
  "string_of bs \<equiv> map char_of_byte bs"

lemma byte_of_char_of_byte [simp]: "byte_of_char (char_of_byte b) = b"
proof -
  have "unat b < 256"
    using unsigned_less [of b, where 'a = nat] by simp
  then show ?thesis
    by (simp add: byte_of_char_def char_of_byte_def)
qed

lemma char_of_byte_of_char [simp]: "char_of_byte (byte_of_char c) = c"
  by (simp add: byte_of_char_def char_of_byte_def unat_of_nat)

lemma byte_of_char_eq_iff [simp]: "byte_of_char c = byte_of_char d \<longleftrightarrow> c = d"
  by (metis char_of_byte_of_char)

lemma bytes_of_string_of [simp]: "bytes_of (string_of bs) = bs"
  by (induction bs) simp_all

lemma string_of_bytes_of [simp]: "string_of (bytes_of s) = s"
  by (induction s) simp_all

lemma bytes_of_eq_iff [simp]: "bytes_of s = bytes_of t \<longleftrightarrow> s = t"
  by (metis string_of_bytes_of)

section \<open>Association lists\<close>

text \<open>
  A Go map that the code iterates over is an association list with distinct keys; the
  order of the list is one of the orders the iteration may take.
\<close>

abbreviation keys :: "('k \<times> 'v) list \<Rightarrow> 'k list" where
  "keys m \<equiv> map fst m"

abbreviation vals :: "('k \<times> 'v) list \<Rightarrow> 'v list" where
  "vals m \<equiv> map snd m"

text \<open>Assigning to an existing key, and to a key that need not exist.\<close>

definition alist_put :: "'k \<Rightarrow> 'v \<Rightarrow> ('k \<times> 'v) list \<Rightarrow> ('k \<times> 'v) list" where
  "alist_put k v m = AList.update k v m"

definition alist_adjust :: "'k \<Rightarrow> ('v \<Rightarrow> 'v) \<Rightarrow> ('k \<times> 'v) list \<Rightarrow> ('k \<times> 'v) list" where
  "alist_adjust k f m = map (\<lambda>(k', v). (k', if k' = k then f v else v)) m"

definition alist_del :: "'k \<Rightarrow> ('k \<times> 'v) list \<Rightarrow> ('k \<times> 'v) list" where
  "alist_del k m = filter (\<lambda>(k', v). k' \<noteq> k) m"

lemma keys_adjust [simp]: "keys (alist_adjust k f m) = keys m"
  by (induction m) (auto simp: alist_adjust_def)

lemma map_of_adjust [simp]:
  "map_of (alist_adjust k f m) k' = (if k' = k then map_option f (map_of m k') else map_of m k')"
  by (induction m) (auto simp: alist_adjust_def)

lemma map_of_put [simp]: "map_of (alist_put k v m) = (map_of m)(k \<mapsto> v)"
  by (simp add: alist_put_def update_conv')

lemma distinct_keys_put [simp]: "distinct (keys m) \<Longrightarrow> distinct (keys (alist_put k v m))"
  by (simp add: alist_put_def distinct_update)

lemma set_keys_put [simp]: "set (keys (alist_put k v m)) = insert k (set (keys m))"
  by (auto simp: alist_put_def update_keys)

lemma put_new: "k \<notin> set (keys m) \<Longrightarrow> alist_put k v m = m @ [(k, v)]"
  by (induction m) (auto simp: alist_put_def)

lemma distinct_keys_del [simp]: "distinct (keys m) \<Longrightarrow> distinct (keys (alist_del k m))"
  by (induction m) (auto simp: alist_del_def)

lemma map_of_del [simp]: "map_of (alist_del k m) k' = (if k' = k then None else map_of m k')"
  by (induction m) (auto simp: alist_del_def)

lemma set_keys_del [simp]: "set (keys (alist_del k m)) = set (keys m) - {k}"
  by (induction m) (auto simp: alist_del_def)

lemma set_del_subset: "set (alist_del k m) \<subseteq> set m"
  by (auto simp: alist_del_def)

lemma length_del_le: "length (alist_del k m) \<le> length m"
  by (simp add: alist_del_def)

lemma set_adjustE:
  assumes "(k', v') \<in> set (alist_adjust k f m)"
  obtains "k' \<noteq> k" "(k', v') \<in> set m" | v where "k' = k" "(k, v) \<in> set m" "v' = f v"
  using assms by (auto simp: alist_adjust_def split: if_splits)

lemma length_adjust [simp]: "length (alist_adjust k f m) = length m"
  by (simp add: alist_adjust_def)

lemma map_of_distinct_mem [simp]:
  "distinct (keys m) \<Longrightarrow> (k, v) \<in> set m \<Longrightarrow> map_of m k = Some v"
  by (rule map_of_is_SomeI)

section \<open>Invariants of state machines\<close>

text \<open>
  A component is a set of initial states and a step function on operations. The locale
  states the contract every component proves of its invariant; its lemmas are what the
  properties use.
\<close>

locale machine =
  fixes initial :: "'s \<Rightarrow> bool"
    and step :: "'e \<Rightarrow> 's \<Rightarrow> 's"
    and inv :: "'s \<Rightarrow> bool"
  assumes inv_initial: "initial s \<Longrightarrow> inv s"
    and inv_step: "inv s \<Longrightarrow> inv (step e s)"
begin

lemma inv_run: "inv s \<Longrightarrow> inv (fold step es s)"
  by (induction es arbitrary: s) (auto intro: inv_step)

lemma inv_reachable: "initial s \<Longrightarrow> inv (fold step es s)"
  by (intro inv_run inv_initial)

end

section \<open>Blocks of a number\<close>

text \<open>A number written as \<open>j * m + k\<close>, as codings by digits have it.\<close>

lemma div_block [simp]: "k < m \<Longrightarrow> (j * m + k) div m = (j::nat)"
  by simp

lemma mod_block [simp]: "k < m \<Longrightarrow> (j * m + k) mod m = (k::nat)"
  by simp

end
