(* ===== verification/Fnv.thy ===== *)
theory Fnv
  imports Prelude
begin

text \<open>
  Go's \<open>hash/fnv\<close>, as far as the program uses it: the 64-bit FNV-1a hash that
  \<open>hashContent\<close> (\<open>clip/watch.go\<close>) and \<open>ContentKey\<close> (\<open>protocol/codec.go\<close>) feed
  with the bytes of a clipboard content. The lemmas say what the hash guarantees: a step
  is a bijection of the state, so two inputs that differ in one byte never collide.
\<close>

unbundle bit_operations_syntax

definition fnv_offset64 :: u64 where
  "fnv_offset64 = 14695981039346656037"

definition fnv_prime64 :: u64 where
  "fnv_prime64 = 1099511628211"

definition fnv1a_byte :: "u64 \<Rightarrow> byte \<Rightarrow> u64" where
  "fnv1a_byte h b = (h XOR ucast b) * fnv_prime64"

text \<open>\<open>h.Write(bs)\<close> on the hash state.\<close>

definition fnv_write :: "u64 \<Rightarrow> bytes \<Rightarrow> u64" where
  "fnv_write h bs = foldl fnv1a_byte h bs"

definition New64a :: u64 where
  "New64a = fnv_offset64"

lemma fnv_write_Nil [simp]: "fnv_write h [] = h"
  by (simp add: fnv_write_def)

lemma fnv_write_append: "fnv_write h (xs @ ys) = fnv_write (fnv_write h xs) ys"
  by (simp add: fnv_write_def)

lemma fnv_write_Cons: "fnv_write h (b # bs) = fnv_write (fnv1a_byte h b) bs"
  by (simp add: fnv_write_def)

lemma fnv_prime64_inverse: "fnv_prime64 * 14886173955864302971 = 1"
  by (simp add: fnv_prime64_def)

lemma mult_prime_cancel [simp]: "x * fnv_prime64 = y * fnv_prime64 \<longleftrightarrow> x = y"
proof
  assume "x * fnv_prime64 = y * fnv_prime64"
  then have "x * fnv_prime64 * 14886173955864302971 = y * fnv_prime64 * 14886173955864302971"
    by simp
  then show "x = y"
    by (simp only: mult.assoc fnv_prime64_inverse mult_1_right)
qed simp

lemma xor_left_cancel [simp]: "(a::u64) XOR b = a XOR c \<longleftrightarrow> b = c"
proof
  assume "a XOR b = a XOR c"
  then have "a XOR (a XOR b) = a XOR (a XOR c)" by (rule arg_cong)
  then show "b = c" by (simp flip: xor.assoc)
qed simp

lemma xor_right_cancel [simp]: "(a::u64) XOR c = b XOR c \<longleftrightarrow> a = b"
  using xor_left_cancel [of c a b] by (simp only: xor.commute [of c])

lemma ucast_byte_back: "ucast (ucast (a::byte) :: u64) = a"
  by transfer simp

lemma ucast_byte_eq [simp]: "(ucast (a::byte) :: u64) = ucast b \<longleftrightarrow> a = b"
  by (metis ucast_byte_back)

lemma fnv1a_byte_state [simp]: "fnv1a_byte h b = fnv1a_byte k b \<longleftrightarrow> h = k"
  by (simp add: fnv1a_byte_def)

lemma fnv1a_byte_byte [simp]: "fnv1a_byte h b = fnv1a_byte h c \<longleftrightarrow> b = c"
  by (simp add: fnv1a_byte_def)

lemma fnv_write_state [simp]: "fnv_write h bs = fnv_write k bs \<longleftrightarrow> h = k"
  by (induction bs arbitrary: h k) (simp_all add: fnv_write_Cons)

lemma fnv_write_same_prefix [simp]:
  "fnv_write h (xs @ b # ys) = fnv_write h (xs @ c # ys) \<longleftrightarrow> b = c"
  by (simp add: fnv_write_append fnv_write_Cons)

end
