(* ===== verification/Clip.thy ===== *)
theory Clip
  imports Fnv
begin

text \<open>
  \<open>internal/clip/clip.go\<close>: the clipboard payload, and \<open>hashContent\<close> of
  \<open>internal/clip/watch.go\<close>, the 64-bit key by which the watcher recognises a content.
  The lemmas say when two contents share a key.
\<close>

section \<open>Content\<close>

datatype kind = KindText | KindImage

record content =
  Kind :: kind
  Text :: string
  Image :: bytes
  Mime :: string

text \<open>Go's zero values for the fields a literal leaves out.\<close>

definition zero_content :: content where
  "zero_content = \<lparr>Kind = KindText, Text = [], Image = [], Mime = []\<rparr>"

definition text_content :: "string \<Rightarrow> content" where
  "text_content t = zero_content\<lparr>Kind := KindText, Text := t\<rparr>"

definition image_content :: "bytes \<Rightarrow> string \<Rightarrow> content" where
  "image_content img m = zero_content\<lparr>Kind := KindImage, Image := img, Mime := m\<rparr>"

definition DefaultImageMime :: string where
  "DefaultImageMime = ''image/png''"

lemma content_sel [simp]:
  "Kind (text_content t) = KindText" "Text (text_content t) = t"
  "Image (text_content t) = []" "Mime (text_content t) = []"
  "Kind (image_content img m) = KindImage" "Image (image_content img m) = img"
  "Mime (image_content img m) = m" "Text (image_content img m) = []"
  by (simp_all add: text_content_def image_content_def zero_content_def)

section \<open>The key of a content\<close>

definition hashContent :: "content \<Rightarrow> u64" where
  "hashContent c =
     (let h = New64a in
      case Kind c of
        KindImage \<Rightarrow> fnv_write (fnv_write (fnv_write h [0]) (Image c)) (bytes_of (Mime c))
      | KindText \<Rightarrow> fnv_write (fnv_write h [1]) (bytes_of (Text c)))"

text \<open>The bytes that are hashed: a tag, then the payload with no separator.\<close>

definition hash_input :: "content \<Rightarrow> bytes" where
  "hash_input c =
     (case Kind c of
        KindImage \<Rightarrow> 0 # Image c @ bytes_of (Mime c)
      | KindText \<Rightarrow> 1 # bytes_of (Text c))"

lemma hashContent_input: "hashContent c = fnv_write New64a (hash_input c)"
  by (cases "Kind c")
    (simp_all add: hashContent_def hash_input_def fnv_write_append fnv_write_Cons)

lemma hashContent_cong: "hash_input c = hash_input d \<Longrightarrow> hashContent c = hashContent d"
  by (simp add: hashContent_input)

lemma hash_input_text [simp]: "hash_input (text_content t) = 1 # bytes_of t"
  by (simp add: hash_input_def)

lemma hash_input_image [simp]: "hash_input (image_content img m) = 0 # img @ bytes_of m"
  by (simp add: hash_input_def)

lemma hash_text_edit:
  "hashContent (text_content (xs @ a # ys)) = hashContent (text_content (xs @ b # ys)) \<longleftrightarrow> a = b"
  using fnv_write_same_prefix [of New64a "1 # bytes_of xs" "byte_of_char a" "bytes_of ys"
      "byte_of_char b"]
  by (simp add: hashContent_input)

lemma hash_image_edit:
  "hashContent (image_content (xs @ a # ys) m) = hashContent (image_content (xs @ b # ys) m)
     \<longleftrightarrow> a = b"
  using fnv_write_same_prefix [of New64a "0 # xs" a "ys @ bytes_of m" b]
  by (simp add: hashContent_input)

text \<open>The image and its MIME type are hashed back to back, so the border is not part of the key.\<close>

lemma hash_image_border:
  "hashContent (image_content (xs @ bytes_of a) b) = hashContent (image_content xs (a @ b))"
  by (rule hashContent_cong) simp

end
