(* ===== verification/Base64.thy ===== *)
theory Base64
  imports Prelude
begin

text \<open>
  Go's \<open>encoding/base64\<close> as the program uses it: \<open>StdEncoding\<close> (padded) encoding and
  decoding of image bytes (\<open>protocol/codec.go\<close>) and \<open>RawStdEncoding\<close> (unpadded)
  encoding of the QR payload (\<open>certs/qr.go\<close>). Decoding drops CR and LF first and, like
  Go's non-strict mode, ignores the trailing bits of a padded quantum. The lemmas: decoding
  undoes encoding, and the lengths of the encodings.
\<close>

definition b64_char :: "nat \<Rightarrow> char" where
  "b64_char d =
     char_of (if d < 26 then 65 + d
              else if d < 52 then 71 + d
              else if d < 62 then d - 4
              else if d = 62 then 43
              else 47)"

definition b64_val :: "char \<Rightarrow> nat option" where
  "b64_val c =
     (let n = of_char c :: nat in
      if 65 \<le> n \<and> n \<le> 90 then Some (n - 65)
      else if 97 \<le> n \<and> n \<le> 122 then Some (n - 71)
      else if 48 \<le> n \<and> n \<le> 57 then Some (n + 4)
      else if n = 43 then Some 62
      else if n = 47 then Some 63
      else None)"

definition pad_char :: char where
  "pad_char = CHR ''=''"

lemma b64_val_char [simp]: "d < 64 \<Longrightarrow> b64_val (b64_char d) = Some d"
  by (auto simp: b64_val_def b64_char_def Let_def)

lemma b64_val_pad [simp]: "b64_val pad_char = None"
  by (simp add: b64_val_def pad_char_def)

lemma b64_char_not_pad [simp]: "d < 64 \<Longrightarrow> b64_char d \<noteq> pad_char"
  using b64_val_char [of d] b64_val_pad by (metis option.distinct(1))

section \<open>Encoding\<close>

text \<open>The four 6-bit groups of up to three bytes.\<close>

definition sext1 :: "byte \<Rightarrow> nat" where "sext1 a = unat a div 4"
definition sext2 :: "byte \<Rightarrow> nat \<Rightarrow> nat" where "sext2 a b = unat a mod 4 * 16 + b div 16"
definition sext3 :: "byte \<Rightarrow> nat \<Rightarrow> nat" where "sext3 b c = unat b mod 16 * 4 + c div 64"
definition sext4 :: "byte \<Rightarrow> nat" where "sext4 c = unat c mod 64"

fun b64_encode :: "bytes \<Rightarrow> string" where
  "b64_encode [] = []"
| "b64_encode [a] = [b64_char (sext1 a), b64_char (sext2 a 0), pad_char, pad_char]"
| "b64_encode [a, b] =
     [b64_char (sext1 a), b64_char (sext2 a (unat b)), b64_char (sext3 b 0), pad_char]"
| "b64_encode (a # b # c # r) =
     b64_char (sext1 a) # b64_char (sext2 a (unat b)) # b64_char (sext3 b (unat c))
       # b64_char (sext4 c) # b64_encode r"

fun b64_encode_raw :: "bytes \<Rightarrow> string" where
  "b64_encode_raw [] = []"
| "b64_encode_raw [a] = [b64_char (sext1 a), b64_char (sext2 a 0)]"
| "b64_encode_raw [a, b] =
     [b64_char (sext1 a), b64_char (sext2 a (unat b)), b64_char (sext3 b 0)]"
| "b64_encode_raw (a # b # c # r) =
     b64_char (sext1 a) # b64_char (sext2 a (unat b)) # b64_char (sext3 b (unat c))
       # b64_char (sext4 c) # b64_encode_raw r"

section \<open>Decoding\<close>

definition oct1 :: "nat \<Rightarrow> nat \<Rightarrow> byte" where "oct1 p q = word_of_nat (p * 4 + q div 16)"
definition oct2 :: "nat \<Rightarrow> nat \<Rightarrow> byte" where "oct2 q r = word_of_nat (q mod 16 * 16 + r div 4)"
definition oct3 :: "nat \<Rightarrow> nat \<Rightarrow> byte" where "oct3 r s = word_of_nat (r mod 4 * 64 + s)"

fun b64_quanta :: "string \<Rightarrow> bytes option" where
  "b64_quanta [] = Some []"
| "b64_quanta (c0 # c1 # c2 # c3 # rest) =
     (case (b64_val c0, b64_val c1) of
        (Some p, Some q) \<Rightarrow>
          if c2 = pad_char then
            (if c3 = pad_char \<and> rest = [] then Some [oct1 p q] else None)
          else
            (case b64_val c2 of
               None \<Rightarrow> None
             | Some r \<Rightarrow>
                 if c3 = pad_char then
                   (if rest = [] then Some [oct1 p q, oct2 q r] else None)
                 else
                   (case b64_val c3 of
                      None \<Rightarrow> None
                    | Some s \<Rightarrow>
                        map_option (\<lambda>bs. oct1 p q # oct2 q r # oct3 r s # bs) (b64_quanta rest)))
      | _ \<Rightarrow> None)"
| "b64_quanta _ = None"

definition is_newline :: "char \<Rightarrow> bool" where
  "is_newline c \<longleftrightarrow> c = CHR 0x0A \<or> c = CHR 0x0D"

definition b64_decode :: "string \<Rightarrow> bytes option" where
  "b64_decode s = b64_quanta (filter (\<lambda>c. \<not> is_newline c) s)"

section \<open>Round trip\<close>

lemma unat_byte_less [simp]: "unat (b::byte) < 256"
  using unsigned_less [of b, where 'a = nat] by simp

lemma div_less_256: "n < 256 \<Longrightarrow> n div 4 < (64::nat)" "n < 256 \<Longrightarrow> n div 16 < (16::nat)"
    "n < 256 \<Longrightarrow> n div 64 < (4::nat)"
  by (simp_all add: less_mult_imp_div_less)

lemma block_less: "j < p \<Longrightarrow> k < m \<Longrightarrow> j * m + k < p * (m::nat)"
proof -
  assume "j < p" and "k < m"
  then have "j * m + k < Suc j * m" by simp
  also have "\<dots> \<le> p * m" using \<open>j < p\<close> by (intro mult_le_mono1) simp
  finally show ?thesis .
qed

lemma sext1_less [simp]: "sext1 a < 64"
  by (simp add: sext1_def div_less_256)

lemma sext2_less [simp]: "b < 256 \<Longrightarrow> sext2 a b < 64"
  using block_less [of "unat a mod 4" 4 "b div 16" 16]
  by (simp add: sext2_def div_less_256)

lemma sext3_less [simp]: "c < 256 \<Longrightarrow> sext3 b c < 64"
  using block_less [of "unat b mod 16" 16 "c div 64" 4]
  by (simp add: sext3_def div_less_256)

lemma sext4_less [simp]: "sext4 c < 64"
  by (simp add: sext4_def)

lemma oct1_sext [simp]: "b < 256 \<Longrightarrow> oct1 (sext1 a) (sext2 a b) = a"
  by (simp add: oct1_def sext1_def sext2_def div_less_256)

lemma oct2_sext [simp]: "c < 256 \<Longrightarrow> oct2 (sext2 a (unat b)) (sext3 b c) = b"
  by (simp add: oct2_def sext2_def sext3_def div_less_256)

lemma oct3_sext [simp]: "oct3 (sext3 b (unat c)) (sext4 c) = c"
  by (simp add: oct3_def sext3_def sext4_def div_less_256)

lemma b64_quanta_encode: "b64_quanta (b64_encode bs) = Some bs"
  by (induction bs rule: b64_encode.induct) simp_all

lemma b64_char_not_newline [simp]: "d < 64 \<Longrightarrow> \<not> is_newline (b64_char d)"
  using b64_val_char [of d] by (auto simp: is_newline_def b64_val_def)

lemma b64_encode_no_newline: "filter (\<lambda>c. \<not> is_newline c) (b64_encode bs) = b64_encode bs"
  by (induction bs rule: b64_encode.induct) (simp_all add: pad_char_def is_newline_def [of "CHR ''=''"])

lemma b64_decode_encode [simp]: "b64_decode (b64_encode bs) = Some bs"
  by (simp add: b64_decode_def b64_encode_no_newline b64_quanta_encode)

lemma b64_encode_eq_Nil [simp]: "b64_encode bs = [] \<longleftrightarrow> bs = []"
  by (cases bs rule: b64_encode.cases) simp_all

lemma b64_encode_inject [simp]: "b64_encode a = b64_encode b \<longleftrightarrow> a = b"
  by (metis b64_decode_encode option.inject)

lemma length_b64_encode: "length (b64_encode bs) = 4 * ((length bs + 2) div 3)"
proof (induction bs rule: b64_encode.induct)
  case (4 a b c r)
  have "(length r + 5) div 3 = Suc ((length r + 2) div 3)"
    by presburger
  with 4 show ?case by (simp add: add.commute)
qed simp_all

lemma length_b64_encode_raw: "length (b64_encode_raw bs) = (8 * length bs + 5) div 6"
proof (induction bs rule: b64_encode_raw.induct)
  case (4 a b c r)
  have "(8 * (length r + 3) + 5) div 6 = (8 * length r + 5) div 6 + 4"
    by presburger
  with 4 show ?case by (simp add: add.commute)
qed simp_all

lemma b64_encode_raw_pad:
  "b64_encode bs = b64_encode_raw bs @ replicate ((3 - length bs mod 3) mod 3) pad_char"
proof (induction bs rule: b64_encode.induct)
  case (4 a b c r)
  have "(length r + 3) mod 3 = length r mod 3"
    by simp
  with 4 show ?case by (simp add: add.commute)
qed (simp_all add: numeral_2_eq_2)

end
