(* ===== verification/GoStrings.thy ===== *)
theory GoStrings
  imports Prelude "HOL-Library.Sublist"
begin

text \<open>
  What the program uses of Go's \<open>strconv\<close>, \<open>strings\<close> and \<open>unicode/utf8\<close>: digits
  in a base and back, \<open>Itoa\<close> and \<open>ParseInt\<close>, splitting and trimming, and the
  validity of UTF-8 with the replacement of invalid bytes. Strings are byte strings, as
  Go's are.
\<close>

section \<open>Digits\<close>

text \<open>The digits \<open>0\<close> to \<open>9\<close>, then \<open>a\<close> to \<open>z\<close>.\<close>

definition digit_char :: "nat \<Rightarrow> char" where
  "digit_char d = char_of (if d < 10 then 48 + d else 87 + d)"

definition digit_val :: "char \<Rightarrow> nat" where
  "digit_val c =
     (let n = of_char c :: nat in
      if 48 \<le> n \<and> n \<le> 57 then n - 48
      else if 97 \<le> n \<and> n \<le> 122 then n - 87
      else 36)"

function format_base :: "nat \<Rightarrow> nat \<Rightarrow> string" where
  "format_base b n =
     (if n < b \<or> b < 2 then [digit_char n] else format_base b (n div b) @ [digit_char (n mod b)])"
  by pat_completeness auto
termination
  by (relation "measure snd") auto

declare format_base.simps [simp del]

definition value_base :: "nat \<Rightarrow> string \<Rightarrow> nat" where
  "value_base b s = foldl (\<lambda>a c. a * b + digit_val c) 0 s"

lemma digit_val_char [simp]: "d < 36 \<Longrightarrow> digit_val (digit_char d) = d"
  by (auto simp: digit_val_def digit_char_def Let_def)

lemma value_format_base [simp]:
  "2 \<le> b \<Longrightarrow> b \<le> 36 \<Longrightarrow> value_base b (format_base b n) = n"
proof (induction b n rule: format_base.induct)
  case (1 b n)
  show ?case
  proof (cases "n < b")
    case True
    with "1.prems" show ?thesis
      by (subst format_base.simps) (simp add: value_base_def)
  next
    case False
    have d: "digit_val (digit_char (n mod b)) = n mod b"
    proof (rule digit_val_char)
      have "n mod b < b" using "1.prems" by simp
      then show "n mod b < 36" using "1.prems" by linarith
    qed
    have ih: "value_base b (format_base b (n div b)) = n div b"
      using False "1.prems" by (intro "1.IH") auto
    have "value_base b (format_base b n) = value_base b (format_base b (n div b)) * b + n mod b"
      using False "1.prems" d by (subst format_base.simps) (simp add: value_base_def)
    then show ?thesis
      by (simp add: ih)
  qed
qed

lemma format_base_inject:
  "2 \<le> b \<Longrightarrow> b \<le> 36 \<Longrightarrow> format_base b m = format_base b n \<longleftrightarrow> m = n"
  by (metis value_format_base)

lemma format_base_nonempty [simp]: "format_base b n \<noteq> []"
  by (subst format_base.simps) simp

section \<open>Itoa and ParseInt\<close>

definition is_digit :: "char \<Rightarrow> bool" where
  "is_digit c \<longleftrightarrow> 48 \<le> (of_char c :: nat) \<and> (of_char c :: nat) \<le> 57"

definition Itoa :: "int \<Rightarrow> string" where
  "Itoa i = (if i < 0 then CHR ''-'' # format_base 10 (nat (- i)) else format_base 10 (nat i))"

definition parse_nat :: "string \<Rightarrow> nat option" where
  "parse_nat s = (if s \<noteq> [] \<and> list_all is_digit s then Some (value_base 10 s) else None)"

definition in_range64 :: "int \<Rightarrow> int option" where
  "in_range64 i = (if in_int64 i then Some i else None)"

text \<open>\<open>strconv.ParseInt(s, 10, 64)\<close>; \<open>None\<close> is its error, syntax or range.\<close>

definition ParseInt64 :: "string \<Rightarrow> int option" where
  "ParseInt64 s =
     (case s of
        [] \<Rightarrow> None
      | c # r \<Rightarrow>
          if c = CHR ''-'' then Option.bind (parse_nat r) (\<lambda>n. in_range64 (- int n))
          else if c = CHR ''+'' then Option.bind (parse_nat r) (\<lambda>n. in_range64 (int n))
          else Option.bind (parse_nat s) (\<lambda>n. in_range64 (int n)))"

lemma is_digit_digit_char [simp]: "d < 10 \<Longrightarrow> is_digit (digit_char d)"
  by (simp add: is_digit_def digit_char_def)

lemma format10_length: "n < 10 ^ k \<Longrightarrow> 0 < k \<Longrightarrow> length (format_base 10 n) \<le> k"
proof (induction k arbitrary: n)
  case (Suc k)
  show ?case
  proof (cases "n < 10")
    case True
    then show ?thesis by (subst format_base.simps) simp
  next
    case False
    then have "0 < k"
      using Suc.prems(1) by (cases k) simp_all
    moreover have "n div 10 < 10 ^ k"
      using Suc.prems(1) by (simp add: less_mult_imp_div_less mult.commute)
    ultimately show ?thesis
      using Suc.IH [of "n div 10"] False by (subst format_base.simps) simp
  qed
qed simp

lemma Itoa_length:
  assumes "in_int64 i"
  shows "length (Itoa i) \<le> 20"
proof -
  have "nat \<bar>i\<bar> < 10 ^ 19"
    using assms by (simp add: in_int64_def nat_less_iff abs_less_iff)
  then have "length (format_base 10 (nat \<bar>i\<bar>)) \<le> 19"
    by (rule format10_length) simp
  then show ?thesis
    by (auto simp: Itoa_def)
qed

lemma format10_digits [simp]: "list_all is_digit (format_base 10 n)"
proof (induction "10::nat" n rule: format_base.induct)
  case (1 n)
  then show ?case
    by (subst format_base.simps) simp
qed

lemma parse_nat_format [simp]: "parse_nat (format_base 10 n) = Some n"
  by (simp add: parse_nat_def)

lemma hd_format10: "is_digit (hd (format_base 10 n))"
  using format10_digits [of n] format_base_nonempty [of 10 n]
  by (cases "format_base 10 n") auto

lemma not_is_digit_sign [simp]: "\<not> is_digit CHR ''-''" "\<not> is_digit CHR ''+''"
  by (simp_all add: is_digit_def)

lemma ParseInt64_Itoa [simp]: "in_int64 i \<Longrightarrow> ParseInt64 (Itoa i) = Some i"
proof (cases "i < 0")
  case True
  moreover assume "in_int64 i"
  ultimately show ?thesis
    by (simp add: ParseInt64_def Itoa_def in_range64_def)
next
  case False
  moreover assume "in_int64 i"
  moreover obtain c r where cr: "format_base 10 (nat i) = c # r"
    using format_base_nonempty [of 10 "nat i"] by (cases "format_base 10 (nat i)") auto
  moreover have "is_digit c"
    using hd_format10 [of "nat i"] cr by simp
  then have "c \<noteq> CHR ''-''" "c \<noteq> CHR ''+''"
    by auto
  moreover have "parse_nat (c # r) = Some (nat i)"
    using parse_nat_format [of "nat i"] cr by simp
  ultimately show ?thesis
    by (simp add: ParseInt64_def Itoa_def in_range64_def)
qed

section \<open>Splitting, joining, trimming\<close>

definition HasPrefix :: "string \<Rightarrow> string \<Rightarrow> bool" where
  "HasPrefix s p \<longleftrightarrow> prefix p s"

definition HasSuffix :: "string \<Rightarrow> string \<Rightarrow> bool" where
  "HasSuffix s p \<longleftrightarrow> suffix p s"

definition ContainsChar :: "string \<Rightarrow> char \<Rightarrow> bool" where
  "ContainsChar s c \<longleftrightarrow> List.member s c"

text \<open>\<open>strings.Split\<close> with a separator of one byte.\<close>

fun Split :: "string \<Rightarrow> char \<Rightarrow> string list" where
  "Split [] c = [[]]"
| "Split (x # xs) c =
     (if x = c then [] # Split xs c
      else (case Split xs c of [] \<Rightarrow> [[x]] | w # ws \<Rightarrow> (x # w) # ws))"

fun Join :: "string list \<Rightarrow> string \<Rightarrow> string" where
  "Join [] sep = []"
| "Join [w] sep = w"
| "Join (w # ws) sep = w @ sep @ Join ws sep"

lemma Split_nonempty [simp]: "Split s c \<noteq> []"
  by (induction s) (auto split: list.splits)

lemma Join_Split: "Join (Split s c) [c] = s"
proof (induction s)
  case (Cons x xs)
  then show ?case
    by (cases "Split xs c") (auto split: list.splits, metis Join.simps(2) Join.simps(3) append_Cons neq_Nil_conv)
qed simp

lemma Split_no_sep: "w \<in> set (Split s c) \<Longrightarrow> c \<notin> set w"
  by (induction s arbitrary: w) (fastforce split: if_splits list.splits)+

lemma Split_single: "c \<notin> set s \<Longrightarrow> Split s c = [s]"
  by (induction s) auto

text \<open>\<open>strings.Trim(s, cutset)\<close> for an ASCII cutset.\<close>

definition Trim :: "string \<Rightarrow> string \<Rightarrow> string" where
  "Trim s cutset =
     rev (dropWhile (List.member cutset) (rev (dropWhile (List.member cutset) s)))"

text \<open>The UTF-8 encodings of the runes for which \<open>unicode.IsSpace\<close> holds.\<close>

definition space_runes :: "string list" where
  "space_runes =
     [[CHR 0x20], [CHR 0x09], [CHR 0x0A], [CHR 0x0B], [CHR 0x0C], [CHR 0x0D],
      [CHR 0xC2, CHR 0x85], [CHR 0xC2, CHR 0xA0], [CHR 0xE1, CHR 0x9A, CHR 0x80],
      [CHR 0xE2, CHR 0x80, CHR 0x80], [CHR 0xE2, CHR 0x80, CHR 0x81],
      [CHR 0xE2, CHR 0x80, CHR 0x82], [CHR 0xE2, CHR 0x80, CHR 0x83],
      [CHR 0xE2, CHR 0x80, CHR 0x84], [CHR 0xE2, CHR 0x80, CHR 0x85],
      [CHR 0xE2, CHR 0x80, CHR 0x86], [CHR 0xE2, CHR 0x80, CHR 0x87],
      [CHR 0xE2, CHR 0x80, CHR 0x88], [CHR 0xE2, CHR 0x80, CHR 0x89],
      [CHR 0xE2, CHR 0x80, CHR 0x8A], [CHR 0xE2, CHR 0x80, CHR 0xA8],
      [CHR 0xE2, CHR 0x80, CHR 0xA9], [CHR 0xE2, CHR 0x80, CHR 0xAF],
      [CHR 0xE2, CHR 0x81, CHR 0x9F], [CHR 0xE3, CHR 0x80, CHR 0x80]]"

text \<open>Drop leading runes that are in the list (the list holds no empty rune).\<close>

function strip_runes :: "string list \<Rightarrow> string \<Rightarrow> string" where
  "strip_runes rs s =
     (case find (\<lambda>r. prefix r s \<and> r \<noteq> []) rs of
        None \<Rightarrow> s
      | Some r \<Rightarrow> strip_runes rs (drop (length r) s))"
  by pat_completeness auto
termination
proof (relation "measure (\<lambda>(rs, s). length s)", goal_cases)
  case (2 rs s r)
  then have "prefix r s" and "r \<noteq> []"
    by (auto simp: find_Some_iff)
  then show ?case
    by (auto simp: prefix_def)
qed simp

declare strip_runes.simps [simp del]

definition TrimSpace :: "string \<Rightarrow> string" where
  "TrimSpace s = rev (strip_runes (map rev space_runes) (rev (strip_runes space_runes s)))"

lemma strip_runes_Nil [simp]: "strip_runes rs [] = []"
  by (subst strip_runes.simps) (auto split: option.splits simp: find_Some_iff)

lemma TrimSpace_Nil [simp]: "TrimSpace [] = []"
  by (simp add: TrimSpace_def)

end
