(* ===== verification/Utf8.thy ===== *)
theory Utf8
  imports GoStrings
begin

text \<open>
  \<open>unicode/utf8\<close>: the length of the first rune of a byte string, and the replacement
  of invalid bytes by U+FFFD that \<open>encoding/json\<close> applies to every string it writes.
  The lemmas: replacement gives valid UTF-8 and leaves valid UTF-8 alone.
\<close>

definition cont_byte :: "char \<Rightarrow> bool" where
  "cont_byte c \<longleftrightarrow> 0x80 \<le> (of_char c :: nat) \<and> (of_char c :: nat) \<le> 0xBF"

definition byte_in :: "nat \<Rightarrow> nat \<Rightarrow> char \<Rightarrow> bool" where
  "byte_in lo hi c \<longleftrightarrow> lo \<le> of_char c \<and> of_char c \<le> hi"

text \<open>
  The size \<open>DecodeRune\<close> reports for the first rune, and 0 where it reports
  \<open>RuneError\<close> with size 0 or 1. The ranges of the second byte exclude overlong forms,
  surrogates and code points past U+10FFFF.
\<close>

fun rune_size :: "string \<Rightarrow> nat" where
  "rune_size [] = 0"
| "rune_size (a # s) =
     (if byte_in 0 0x7F a then 1
      else if byte_in 0xC2 0xDF a then
        (case s of b # _ \<Rightarrow> if cont_byte b then 2 else 0 | _ \<Rightarrow> 0)
      else if byte_in 0xE0 0xEF a then
        (case s of b # c # _ \<Rightarrow>
           if byte_in (if a = CHR 0xE0 then 0xA0 else 0x80) (if a = CHR 0xED then 0x9F else 0xBF) b
              \<and> cont_byte c
           then 3 else 0
         | _ \<Rightarrow> 0)
      else if byte_in 0xF0 0xF4 a then
        (case s of b # c # d # _ \<Rightarrow>
           if byte_in (if a = CHR 0xF0 then 0x90 else 0x80) (if a = CHR 0xF4 then 0x8F else 0xBF) b
              \<and> cont_byte c \<and> cont_byte d
           then 4 else 0
         | _ \<Rightarrow> 0)
      else 0)"

lemma rune_size_le: "rune_size s \<le> length s"
  by (cases s) (auto split: list.splits)

text \<open>A rune is recognised by its own bytes only.\<close>

lemma rune_size_take_append:
  assumes "rune_size s = n" and "0 < n"
  shows "rune_size (take n s @ t) = n"
proof (cases s)
  case Nil
  with assms show ?thesis by simp
next
  case (Cons a r)
  show ?thesis
  proof (cases r)
    case Nil
    with assms Cons show ?thesis
      by (auto split: if_splits list.splits)
  next
    case r: (Cons b r')
    show ?thesis
    proof (cases r')
      case Nil
      with assms Cons r show ?thesis
        by (auto split: if_splits list.splits)
    next
      case (Cons c r'')
      with assms \<open>s = a # r\<close> r show ?thesis
        by (cases r'') (auto split: if_splits)
    qed
  qed
qed

definition replacement_char :: string where
  "replacement_char = [CHR 0xEF, CHR 0xBF, CHR 0xBD]"

lemma rune_size_replacement [simp]: "rune_size (replacement_char @ t) = 3"
  by (simp add: replacement_char_def byte_in_def cont_byte_def)

function valid_utf8 :: "string \<Rightarrow> bool" where
  "valid_utf8 s =
     (if s = [] then True
      else if rune_size s = 0 then False
      else valid_utf8 (drop (rune_size s) s))"
  by pat_completeness auto
termination
  by (relation "measure length") auto

function to_valid_utf8 :: "string \<Rightarrow> string" where
  "to_valid_utf8 s =
     (case s of
        [] \<Rightarrow> []
      | c # r \<Rightarrow>
          (if rune_size s = 0 then replacement_char @ to_valid_utf8 r
           else take (rune_size s) s @ to_valid_utf8 (drop (rune_size s) s)))"
  by pat_completeness auto
termination
  by (relation "measure length") (auto simp del: rune_size.simps)

declare valid_utf8.simps [simp del] to_valid_utf8.simps [simp del]

lemma valid_utf8_Nil [simp]: "valid_utf8 []"
  by (subst valid_utf8.simps) simp

lemma valid_utf8_rune:
  assumes "rune_size s = n" and "0 < n"
  shows "valid_utf8 (take n s @ t) \<longleftrightarrow> valid_utf8 t"
proof -
  have "rune_size (take n s @ t) = n"
    by (rule rune_size_take_append [OF assms])
  moreover have "length (take n s) = n"
    using rune_size_le [of s] assms by simp
  moreover have "s \<noteq> []"
    using assms by auto
  ultimately show ?thesis
    using assms by (subst valid_utf8.simps) simp
qed

lemma valid_utf8_replacement [simp]: "valid_utf8 (replacement_char @ t) \<longleftrightarrow> valid_utf8 t"
  using valid_utf8_rune [of "replacement_char @ t" 3 t] rune_size_replacement [of t]
  by (simp add: replacement_char_def)

lemma valid_to_valid_utf8 [simp]: "valid_utf8 (to_valid_utf8 s)"
proof (induction s rule: to_valid_utf8.induct)
  case (1 s)
  show ?case
  proof (cases s)
    case Nil
    then show ?thesis by (subst to_valid_utf8.simps) simp
  next
    case (Cons c r)
    with 1 show ?thesis
      by (subst to_valid_utf8.simps) (simp add: valid_utf8_rune del: rune_size.simps)
  qed
qed

lemma to_valid_utf8_id [simp]: "valid_utf8 s \<Longrightarrow> to_valid_utf8 s = s"
proof (induction s rule: valid_utf8.induct)
  case (1 s)
  show ?case
  proof (cases s)
    case Nil
    then show ?thesis by (subst to_valid_utf8.simps) simp
  next
    case (Cons c r)
    have "0 < rune_size s \<and> valid_utf8 (drop (rune_size s) s)"
      using "1.prems" Cons
      by (subst (asm) valid_utf8.simps) (auto simp del: rune_size.simps split: if_splits)
    with "1.IH" Cons show ?thesis
      by (subst to_valid_utf8.simps) (auto simp del: rune_size.simps)
  qed
qed

lemma to_valid_utf8_idem: "to_valid_utf8 (to_valid_utf8 s) = to_valid_utf8 s"
  by simp

lemma to_valid_utf8_Nil [simp]: "to_valid_utf8 [] = []"
  by (subst to_valid_utf8.simps) simp

lemma to_valid_utf8_eq_Nil [simp]: "to_valid_utf8 s = [] \<longleftrightarrow> s = []"
proof (cases s)
  case (Cons c r)
  then show ?thesis
    by (subst to_valid_utf8.simps) (simp add: replacement_char_def del: rune_size.simps)
qed simp

text \<open>Pure ASCII is valid.\<close>

definition is_ascii :: "string \<Rightarrow> bool" where
  "is_ascii s \<longleftrightarrow> list_all (byte_in 0 0x7F) s"

lemma valid_utf8_ascii: "is_ascii s \<Longrightarrow> valid_utf8 s"
proof (induction s)
  case (Cons a s)
  then show ?case
    by (subst valid_utf8.simps) (simp add: is_ascii_def)
qed simp

lemma is_ascii_simps [simp]:
  "is_ascii []" "is_ascii (c # s) \<longleftrightarrow> byte_in 0 0x7F c \<and> is_ascii s"
  "is_ascii (s @ t) \<longleftrightarrow> is_ascii s \<and> is_ascii t"
  by (simp_all add: is_ascii_def)

end
