(* ===== verification/Json.thy ===== *)
theory Json
  imports Utf8
begin

text \<open>
  \<open>encoding/json\<close> on values: a JSON value is what the scanner makes of a well-formed text,
  numbers kept as their literal. \<open>Unmarshal\<close> into a struct is given by the struct's
  fields: names match after Go's case folding, unknown keys are skipped, \<open>null\<close> leaves a
  field alone, a value of the wrong type is an error. \<open>Marshal\<close> replaces invalid UTF-8 in
  every string. \<open>None\<close> is an error.
\<close>

datatype json =
    JNull
  | JBool bool
  | JNum string
  | JStr string
  | JArr "json list"
  | JObj "(string \<times> json) list"

section \<open>Field names\<close>

definition fold_char :: "char \<Rightarrow> char" where
  "fold_char c =
     (let n = of_char c :: nat in if 97 \<le> n \<and> n \<le> 122 then char_of (n - 32) else c)"

text \<open>
  \<open>foldName\<close> on the names that can match an ASCII field: letters are raised to upper case,
  the long s (U+017F) folds to \<open>S\<close> and the Kelvin sign (U+212A) to \<open>K\<close>; no other
  non-ASCII rune folds to an ASCII letter.
\<close>

fun fold_name :: "string \<Rightarrow> string" where
  "fold_name [] = []"
| "fold_name (a # s) =
     (case s of
        b # c # t \<Rightarrow>
          if a = CHR 0xE2 \<and> b = CHR 0x84 \<and> c = CHR 0xAA then CHR ''K'' # fold_name t
          else if a = CHR 0xC5 \<and> b = CHR 0xBF then CHR ''S'' # fold_name (c # t)
          else fold_char a # fold_name s
      | [b] \<Rightarrow>
          if a = CHR 0xC5 \<and> b = CHR 0xBF then [CHR ''S'']
          else fold_char a # fold_name s
      | [] \<Rightarrow> [fold_char a])"

section \<open>Decoding into a struct\<close>

text \<open>
  A field is its name and what storing a value into it does. One record update per field;
  \<open>None\<close> is Go's \<open>UnmarshalTypeError\<close>.
\<close>

type_synonym 'r field = "string \<times> (json \<Rightarrow> 'r \<Rightarrow> 'r option)"

definition string_field :: "(string \<Rightarrow> 'r \<Rightarrow> 'r) \<Rightarrow> json \<Rightarrow> 'r \<Rightarrow> 'r option" where
  "string_field upd v r =
     (case v of JStr s \<Rightarrow> Some (upd s r) | JNull \<Rightarrow> Some r | _ \<Rightarrow> None)"

definition int64_field :: "(int \<Rightarrow> 'r \<Rightarrow> 'r) \<Rightarrow> json \<Rightarrow> 'r \<Rightarrow> 'r option" where
  "int64_field upd v r =
     (case v of
        JNum lit \<Rightarrow> map_option (\<lambda>i. upd i r) (ParseInt64 lit)
      | JNull \<Rightarrow> Some r
      | _ \<Rightarrow> None)"

definition bool_field :: "(bool \<Rightarrow> 'r \<Rightarrow> 'r) \<Rightarrow> json \<Rightarrow> 'r \<Rightarrow> 'r option" where
  "bool_field upd v r =
     (case v of JBool b \<Rightarrow> Some (upd b r) | JNull \<Rightarrow> Some r | _ \<Rightarrow> None)"

text \<open>\<open>json.RawMessage\<close> keeps whatever value is there, \<open>null\<close> included.\<close>

definition raw_field :: "(json option \<Rightarrow> 'r \<Rightarrow> 'r) \<Rightarrow> json \<Rightarrow> 'r \<Rightarrow> 'r option" where
  "raw_field upd v r = Some (upd (Some v) r)"

definition find_field :: "'r field list \<Rightarrow> string \<Rightarrow> (json \<Rightarrow> 'r \<Rightarrow> 'r option) option" where
  "find_field fs k = map_option snd (find (\<lambda>f. fold_name (fst f) = fold_name k) fs)"

definition store_member :: "'r field list \<Rightarrow> string \<times> json \<Rightarrow> 'r \<Rightarrow> 'r option" where
  "store_member fs m r =
     (case find_field fs (fst m) of None \<Rightarrow> Some r | Some store \<Rightarrow> store (snd m) r)"

fun store_members :: "'r field list \<Rightarrow> (string \<times> json) list \<Rightarrow> 'r \<Rightarrow> 'r option" where
  "store_members fs [] r = Some r"
| "store_members fs (m # ms) r = Option.bind (store_member fs m r) (store_members fs ms)"

text \<open>\<open>json.Unmarshal\<close> of a value into a struct that holds \<open>r\<close>.\<close>

definition unmarshal_struct :: "'r field list \<Rightarrow> 'r \<Rightarrow> json \<Rightarrow> 'r option" where
  "unmarshal_struct fs r v =
     (case v of JObj ms \<Rightarrow> store_members fs ms r | JNull \<Rightarrow> Some r | _ \<Rightarrow> None)"

text \<open>\<open>json.Unmarshal\<close> of a raw message: an absent one is empty input, an error.\<close>

definition unmarshal_raw :: "'r field list \<Rightarrow> 'r \<Rightarrow> json option \<Rightarrow> 'r option" where
  "unmarshal_raw fs r d = Option.bind d (unmarshal_struct fs r)"

section \<open>Encoding a struct\<close>

definition marshal_string :: "string \<Rightarrow> json" where
  "marshal_string s = JStr (to_valid_utf8 s)"

definition marshal_int :: "int \<Rightarrow> json" where
  "marshal_int i = JNum (Itoa i)"

text \<open>A member, and a member tagged \<open>omitempty\<close>.\<close>

definition member_of :: "string \<Rightarrow> json \<Rightarrow> (string \<times> json) list" where
  "member_of k v = [(k, v)]"

definition omit_empty :: "string \<Rightarrow> string \<Rightarrow> (string \<times> json) list" where
  "omit_empty k s = (if s = [] then [] else [(k, marshal_string s)])"

section \<open>Lemmas\<close>

lemma store_members_append:
  "store_members fs (xs @ ys) r = Option.bind (store_members fs xs r) (store_members fs ys)"
  by (induction xs arbitrary: r) (simp_all split: bind_splits)

lemma string_field_marshal [simp]:
  "string_field upd (marshal_string s) r = Some (upd (to_valid_utf8 s) r)"
  by (simp add: string_field_def marshal_string_def)

lemma int64_field_marshal [simp]:
  "in_int64 i \<Longrightarrow> int64_field upd (marshal_int i) r = Some (upd i r)"
  by (simp add: int64_field_def marshal_int_def)

lemma raw_field_eq [simp]: "raw_field upd v r = Some (upd (Some v) r)"
  by (simp add: raw_field_def)

lemma unmarshal_struct_obj [simp]: "unmarshal_struct fs r (JObj ms) = store_members fs ms r"
  by (simp add: unmarshal_struct_def)

lemma unmarshal_raw_simps [simp]:
  "unmarshal_raw fs r None = None"
  "unmarshal_raw fs r (Some v) = unmarshal_struct fs r v"
  by (simp_all add: unmarshal_raw_def)

text \<open>A string member that is left out when empty decodes as the field's value again.\<close>

lemma store_omit_empty:
  assumes "find_field fs k = Some (string_field upd)" and "upd [] r = r"
  shows "store_members fs (omit_empty k s) r = Some (upd (to_valid_utf8 s) r)"
  using assms by (simp add: omit_empty_def store_member_def)

lemma store_member_of:
  assumes "find_field fs k = Some store"
  shows "store_members fs (member_of k v) r = store v r"
  using assms by (cases "store v r") (simp_all add: member_of_def store_member_def)

lemma store_unknown:
  "find_field fs k = None \<Longrightarrow> store_members fs ((k, v) # ms) r = store_members fs ms r"
  by (simp add: store_member_def)

end
