(* ===== verification/Protocol.thy ===== *)
theory Protocol
  imports Clip Base64 Json
begin

text \<open>
  \<open>internal/protocol\<close>: the wire types of \<open>types.go\<close> with their JSON tags, and
  \<open>codec.go\<close>: contents to messages and back, and \<open>ContentKey\<close>. The lemmas: every
  message type survives marshalling, a content survives the wire, the two hash functions of
  the program agree, and what a malformed message decodes to.
\<close>

section \<open>Message and content types, error codes\<close>

definition MsgHello :: string where "MsgHello = ''hello''"
definition MsgClipboard :: string where "MsgClipboard = ''clipboard''"
definition MsgPing :: string where "MsgPing = ''ping''"
definition MsgPong :: string where "MsgPong = ''pong''"
definition MsgError :: string where "MsgError = ''error''"

definition ContentText :: string where "ContentText = ''text''"
definition ContentImage :: string where "ContentImage = ''image''"

definition PlatformDesktop :: string where "PlatformDesktop = ''desktop''"
definition PlatformAndroid :: string where "PlatformAndroid = ''android''"

definition ErrBadHello :: string where "ErrBadHello = ''bad_hello''"
definition ErrNotWhitelisted :: string where "ErrNotWhitelisted = ''not_whitelisted''"
definition ErrBadJSON :: string where "ErrBadJSON = ''bad_json''"
definition ErrBadClipboard :: string where "ErrBadClipboard = ''bad_clipboard''"
definition ErrUnknownType :: string where "ErrUnknownType = ''unknown_type''"

lemmas msg_type_defs = MsgHello_def MsgClipboard_def MsgPing_def MsgPong_def MsgError_def

section \<open>Wire types\<close>

record hello =
  h_Name :: string
  h_Platform :: string
  h_Version :: string

record clipboard_msg =
  cm_Type :: string
  cm_Text :: string
  cm_Data :: string
  cm_Mime :: string
  cm_Ts :: int
  cm_From :: string

record error_msg =
  e_Code :: string
  e_Msg :: string

text \<open>\<open>Data\<close> is a \<open>json.RawMessage\<close>; \<open>None\<close> is the nil message.\<close>

record envelope =
  env_Type :: string
  env_Data :: "json option"

record client_info =
  ci_ID :: string
  ci_Name :: string
  ci_Platform :: string
  ci_Version :: string
  ci_IP :: string

definition zero_hello :: hello where
  "zero_hello = \<lparr>h_Name = [], h_Platform = [], h_Version = []\<rparr>"

definition zero_clipboard_msg :: clipboard_msg where
  "zero_clipboard_msg =
     \<lparr>cm_Type = [], cm_Text = [], cm_Data = [], cm_Mime = [], cm_Ts = 0, cm_From = []\<rparr>"

definition zero_error_msg :: error_msg where
  "zero_error_msg = \<lparr>e_Code = [], e_Msg = []\<rparr>"

definition zero_envelope :: envelope where
  "zero_envelope = \<lparr>env_Type = [], env_Data = None\<rparr>"

definition zero_client_info :: client_info where
  "zero_client_info = \<lparr>ci_ID = [], ci_Name = [], ci_Platform = [], ci_Version = [], ci_IP = []\<rparr>"

lemmas zero_defs = zero_hello_def zero_clipboard_msg_def zero_error_msg_def zero_envelope_def
  zero_client_info_def

section \<open>JSON tags\<close>

definition hello_fields :: "hello field list" where
  "hello_fields =
     [(''name'', string_field (\<lambda>s. h_Name_update (\<lambda>_. s))),
      (''platform'', string_field (\<lambda>s. h_Platform_update (\<lambda>_. s))),
      (''version'', string_field (\<lambda>s. h_Version_update (\<lambda>_. s)))]"

definition clipboard_fields :: "clipboard_msg field list" where
  "clipboard_fields =
     [(''type'', string_field (\<lambda>s. cm_Type_update (\<lambda>_. s))),
      (''text'', string_field (\<lambda>s. cm_Text_update (\<lambda>_. s))),
      (''data'', string_field (\<lambda>s. cm_Data_update (\<lambda>_. s))),
      (''mime'', string_field (\<lambda>s. cm_Mime_update (\<lambda>_. s))),
      (''ts'', int64_field (\<lambda>i. cm_Ts_update (\<lambda>_. i))),
      (''from'', string_field (\<lambda>s. cm_From_update (\<lambda>_. s)))]"

definition error_fields :: "error_msg field list" where
  "error_fields =
     [(''code'', string_field (\<lambda>s. e_Code_update (\<lambda>_. s))),
      (''msg'', string_field (\<lambda>s. e_Msg_update (\<lambda>_. s)))]"

definition envelope_fields :: "envelope field list" where
  "envelope_fields =
     [(''type'', string_field (\<lambda>s. env_Type_update (\<lambda>_. s))),
      (''data'', raw_field (\<lambda>d. env_Data_update (\<lambda>_. d)))]"

definition client_info_fields :: "client_info field list" where
  "client_info_fields =
     [(''id'', string_field (\<lambda>s. ci_ID_update (\<lambda>_. s))),
      (''name'', string_field (\<lambda>s. ci_Name_update (\<lambda>_. s))),
      (''platform'', string_field (\<lambda>s. ci_Platform_update (\<lambda>_. s))),
      (''version'', string_field (\<lambda>s. ci_Version_update (\<lambda>_. s))),
      (''ip'', string_field (\<lambda>s. ci_IP_update (\<lambda>_. s)))]"

definition marshal_hello :: "hello \<Rightarrow> json" where
  "marshal_hello h =
     JObj (member_of ''name'' (marshal_string (h_Name h))
       @ member_of ''platform'' (marshal_string (h_Platform h))
       @ member_of ''version'' (marshal_string (h_Version h)))"

definition marshal_clipboard :: "clipboard_msg \<Rightarrow> json" where
  "marshal_clipboard m =
     JObj (omit_empty ''type'' (cm_Type m)
       @ omit_empty ''text'' (cm_Text m)
       @ omit_empty ''data'' (cm_Data m)
       @ omit_empty ''mime'' (cm_Mime m)
       @ member_of ''ts'' (marshal_int (cm_Ts m))
       @ member_of ''from'' (marshal_string (cm_From m)))"

definition marshal_error :: "error_msg \<Rightarrow> json" where
  "marshal_error e =
     JObj (member_of ''code'' (marshal_string (e_Code e))
       @ member_of ''msg'' (marshal_string (e_Msg e)))"

definition marshal_envelope :: "envelope \<Rightarrow> json" where
  "marshal_envelope e =
     JObj (member_of ''type'' (marshal_string (env_Type e))
       @ (case env_Data e of None \<Rightarrow> [] | Some d \<Rightarrow> member_of ''data'' d))"

definition marshal_client_info :: "client_info \<Rightarrow> json" where
  "marshal_client_info c =
     JObj (member_of ''id'' (marshal_string (ci_ID c))
       @ member_of ''name'' (marshal_string (ci_Name c))
       @ member_of ''platform'' (marshal_string (ci_Platform c))
       @ member_of ''version'' (marshal_string (ci_Version c))
       @ member_of ''ip'' (marshal_string (ci_IP c)))"

definition unmarshal_hello :: "json option \<Rightarrow> hello option" where
  "unmarshal_hello = unmarshal_raw hello_fields zero_hello"

definition unmarshal_clipboard :: "json option \<Rightarrow> clipboard_msg option" where
  "unmarshal_clipboard = unmarshal_raw clipboard_fields zero_clipboard_msg"

definition unmarshal_error :: "json option \<Rightarrow> error_msg option" where
  "unmarshal_error = unmarshal_raw error_fields zero_error_msg"

text \<open>\<open>None\<close> as input is a text that is not JSON.\<close>

definition unmarshal_envelope :: "json option \<Rightarrow> envelope option" where
  "unmarshal_envelope = unmarshal_raw envelope_fields zero_envelope"

definition unmarshal_client_info :: "json option \<Rightarrow> client_info option" where
  "unmarshal_client_info = unmarshal_raw client_info_fields zero_client_info"

section \<open>The wire round trip\<close>

lemma find_hello_fields [simp]:
  "find_field hello_fields ''name'' = Some (string_field (\<lambda>s. h_Name_update (\<lambda>_. s)))"
  "find_field hello_fields ''platform'' = Some (string_field (\<lambda>s. h_Platform_update (\<lambda>_. s)))"
  "find_field hello_fields ''version'' = Some (string_field (\<lambda>s. h_Version_update (\<lambda>_. s)))"
  by (simp_all add: find_field_def hello_fields_def fold_char_def Let_def)

lemma find_clipboard_fields [simp]:
  "find_field clipboard_fields ''type'' = Some (string_field (\<lambda>s. cm_Type_update (\<lambda>_. s)))"
  "find_field clipboard_fields ''text'' = Some (string_field (\<lambda>s. cm_Text_update (\<lambda>_. s)))"
  "find_field clipboard_fields ''data'' = Some (string_field (\<lambda>s. cm_Data_update (\<lambda>_. s)))"
  "find_field clipboard_fields ''mime'' = Some (string_field (\<lambda>s. cm_Mime_update (\<lambda>_. s)))"
  "find_field clipboard_fields ''ts'' = Some (int64_field (\<lambda>i. cm_Ts_update (\<lambda>_. i)))"
  "find_field clipboard_fields ''from'' = Some (string_field (\<lambda>s. cm_From_update (\<lambda>_. s)))"
  by (simp_all add: find_field_def clipboard_fields_def fold_char_def Let_def)

lemma find_error_fields [simp]:
  "find_field error_fields ''code'' = Some (string_field (\<lambda>s. e_Code_update (\<lambda>_. s)))"
  "find_field error_fields ''msg'' = Some (string_field (\<lambda>s. e_Msg_update (\<lambda>_. s)))"
  by (simp_all add: find_field_def error_fields_def fold_char_def Let_def)

lemma find_envelope_fields [simp]:
  "find_field envelope_fields ''type'' = Some (string_field (\<lambda>s. env_Type_update (\<lambda>_. s)))"
  "find_field envelope_fields ''data'' = Some (raw_field (\<lambda>d. env_Data_update (\<lambda>_. d)))"
  by (simp_all add: find_field_def envelope_fields_def fold_char_def Let_def)

lemma find_client_info_fields [simp]:
  "find_field client_info_fields ''id'' = Some (string_field (\<lambda>s. ci_ID_update (\<lambda>_. s)))"
  "find_field client_info_fields ''name'' = Some (string_field (\<lambda>s. ci_Name_update (\<lambda>_. s)))"
  "find_field client_info_fields ''platform'' =
     Some (string_field (\<lambda>s. ci_Platform_update (\<lambda>_. s)))"
  "find_field client_info_fields ''version'' =
     Some (string_field (\<lambda>s. ci_Version_update (\<lambda>_. s)))"
  "find_field client_info_fields ''ip'' = Some (string_field (\<lambda>s. ci_IP_update (\<lambda>_. s)))"
  by (simp_all add: find_field_def client_info_fields_def fold_char_def Let_def)

lemma unmarshal_marshal_hello [simp]:
  "unmarshal_hello (Some (marshal_hello h)) =
     Some \<lparr>h_Name = to_valid_utf8 (h_Name h), h_Platform = to_valid_utf8 (h_Platform h),
           h_Version = to_valid_utf8 (h_Version h)\<rparr>"
  by (simp add: unmarshal_hello_def marshal_hello_def store_members_append store_member_of
      zero_hello_def)

lemma unmarshal_marshal_clipboard [simp]:
  "in_int64 (cm_Ts m) \<Longrightarrow>
   unmarshal_clipboard (Some (marshal_clipboard m)) =
     Some \<lparr>cm_Type = to_valid_utf8 (cm_Type m), cm_Text = to_valid_utf8 (cm_Text m),
           cm_Data = to_valid_utf8 (cm_Data m), cm_Mime = to_valid_utf8 (cm_Mime m),
           cm_Ts = cm_Ts m, cm_From = to_valid_utf8 (cm_From m)\<rparr>"
  by (simp add: unmarshal_clipboard_def marshal_clipboard_def store_members_append
      store_member_of store_omit_empty zero_clipboard_msg_def)

lemma unmarshal_marshal_error [simp]:
  "unmarshal_error (Some (marshal_error e)) =
     Some \<lparr>e_Code = to_valid_utf8 (e_Code e), e_Msg = to_valid_utf8 (e_Msg e)\<rparr>"
  by (simp add: unmarshal_error_def marshal_error_def store_members_append store_member_of
      zero_error_msg_def)

lemma unmarshal_marshal_envelope [simp]:
  "unmarshal_envelope (Some (marshal_envelope e)) =
     Some \<lparr>env_Type = to_valid_utf8 (env_Type e), env_Data = env_Data e\<rparr>"
  by (cases "env_Data e")
    (simp_all add: unmarshal_envelope_def marshal_envelope_def store_members_append
      store_member_of zero_envelope_def)

lemma unmarshal_marshal_client_info [simp]:
  "unmarshal_client_info (Some (marshal_client_info c)) =
     Some \<lparr>ci_ID = to_valid_utf8 (ci_ID c), ci_Name = to_valid_utf8 (ci_Name c),
           ci_Platform = to_valid_utf8 (ci_Platform c),
           ci_Version = to_valid_utf8 (ci_Version c), ci_IP = to_valid_utf8 (ci_IP c)\<rparr>"
  by (simp add: unmarshal_client_info_def marshal_client_info_def store_members_append
      store_member_of zero_client_info_def)

lemma unmarshal_absent [simp]:
  "unmarshal_hello None = None" "unmarshal_clipboard None = None"
  "unmarshal_envelope None = None" "unmarshal_error None = None"
  by (simp_all add: unmarshal_hello_def unmarshal_clipboard_def unmarshal_envelope_def
      unmarshal_error_def)

section \<open>Contents and messages\<close>

definition image_mime :: "string \<Rightarrow> string" where
  "image_mime m = (if m = [] then DefaultImageMime else m)"

definition ContentMsg :: "content \<Rightarrow> int \<Rightarrow> string \<Rightarrow> clipboard_msg" where
  "ContentMsg c ts from =
     (if Kind c = KindImage then
        zero_clipboard_msg\<lparr>cm_Type := ContentImage, cm_Data := b64_encode (Image c),
          cm_Mime := image_mime (Mime c), cm_Ts := ts, cm_From := from\<rparr>
      else
        zero_clipboard_msg\<lparr>cm_Type := ContentText, cm_Text := Text c, cm_Ts := ts,
          cm_From := from\<rparr>)"

text \<open>\<open>None\<close> is the \<open>false\<close> result: nothing to paste.\<close>

definition MsgToContent :: "clipboard_msg \<Rightarrow> content option" where
  "MsgToContent m =
     (if cm_Type m = ContentImage then
        (case b64_decode (cm_Data m) of
           None \<Rightarrow> None
         | Some img \<Rightarrow>
             if img = [] then None else Some (image_content img (image_mime (cm_Mime m))))
      else if cm_Text m = [] then None
      else Some (text_content (cm_Text m)))"

definition ContentKey :: "content \<Rightarrow> u64" where
  "ContentKey c =
     (let h = New64a in
      if Kind c = KindImage then
        fnv_write (fnv_write (fnv_write h [0]) (Image c)) (bytes_of (Mime c))
      else fnv_write (fnv_write h [1]) (bytes_of (Text c)))"

lemma ContentKey_eq_hashContent: "ContentKey = hashContent"
  by (rule ext) (simp add: ContentKey_def hashContent_def split: kind.split)

text \<open>The message that \<open>json.Marshal\<close> of the envelope of a content gives.\<close>

definition UnixMilli :: "time \<Rightarrow> int" where
  "UnixMilli t = t div 1000000"

definition clipboard_frame :: "content \<Rightarrow> int \<Rightarrow> string \<Rightarrow> json" where
  "clipboard_frame c ts from =
     marshal_envelope \<lparr>env_Type = MsgClipboard,
       env_Data = Some (marshal_clipboard (ContentMsg c ts from))\<rparr>"

definition bare_frame :: "string \<Rightarrow> json" where
  "bare_frame typ = marshal_envelope \<lparr>env_Type = typ, env_Data = None\<rparr>"

definition hello_frame :: "hello \<Rightarrow> json" where
  "hello_frame h = marshal_envelope \<lparr>env_Type = MsgHello, env_Data = Some (marshal_hello h)\<rparr>"

definition error_frame :: "string \<Rightarrow> string \<Rightarrow> json" where
  "error_frame code msg =
     marshal_envelope \<lparr>env_Type = MsgError,
       env_Data = Some (marshal_error \<lparr>e_Code = code, e_Msg = msg\<rparr>)\<rparr>"

text \<open>A content worth sending: not empty, and only the fields of its kind set.\<close>

definition sendable :: "content \<Rightarrow> bool" where
  "sendable c \<longleftrightarrow>
     (case Kind c of
        KindText \<Rightarrow> Text c \<noteq> [] \<and> Image c = [] \<and> Mime c = []
      | KindImage \<Rightarrow> Image c \<noteq> [] \<and> Text c = [])"

text \<open>What the receiver of a content ends up with.\<close>

definition received :: "content \<Rightarrow> content" where
  "received c =
     (case Kind c of
        KindText \<Rightarrow> text_content (to_valid_utf8 (Text c))
      | KindImage \<Rightarrow> image_content (Image c) (to_valid_utf8 (image_mime (Mime c))))"

lemma b64_char_ascii: "d < 64 \<Longrightarrow> byte_in 0 0x7F (b64_char d)"
  by (auto simp: byte_in_def b64_char_def)

lemma pad_char_ascii: "byte_in 0 0x7F pad_char"
  by (simp add: byte_in_def pad_char_def)

lemma b64_encode_ascii [simp]: "is_ascii (b64_encode bs)"
  by (induction bs rule: b64_encode.induct) (simp_all add: b64_char_ascii pad_char_ascii)

lemma valid_b64_encode [simp]: "to_valid_utf8 (b64_encode bs) = b64_encode bs"
  by (simp add: valid_utf8_ascii)

lemma ascii_names [simp]:
  "is_ascii ContentText" "is_ascii ContentImage" "is_ascii DefaultImageMime"
  "is_ascii MsgHello" "is_ascii MsgClipboard" "is_ascii MsgPing" "is_ascii MsgPong"
  "is_ascii MsgError"
  by (simp_all add: ContentText_def ContentImage_def DefaultImageMime_def msg_type_defs byte_in_def)

lemma valid_names [simp]:
  "to_valid_utf8 ContentText = ContentText" "to_valid_utf8 ContentImage = ContentImage"
  "to_valid_utf8 DefaultImageMime = DefaultImageMime"
  "to_valid_utf8 MsgHello = MsgHello" "to_valid_utf8 MsgClipboard = MsgClipboard"
  "to_valid_utf8 MsgPing = MsgPing" "to_valid_utf8 MsgPong = MsgPong"
  "to_valid_utf8 MsgError = MsgError"
  by (simp_all add: valid_utf8_ascii)

lemma content_types_distinct [simp]: "ContentText \<noteq> ContentImage" "ContentImage \<noteq> ContentText"
  by (simp_all add: ContentText_def ContentImage_def)

lemma image_mime_nonempty [simp]: "image_mime m \<noteq> []"
  by (simp add: image_mime_def DefaultImageMime_def)

lemma image_mime_idem [simp]: "image_mime (image_mime m) = image_mime m"
  by (simp add: image_mime_def)

lemma image_mime_valid [simp]: "image_mime (to_valid_utf8 m) = to_valid_utf8 (image_mime m)"
  by (simp add: image_mime_def)

lemma ContentMsg_Ts [simp]: "cm_Ts (ContentMsg c ts from) = ts"
  by (simp add: ContentMsg_def)

lemma ContentMsg_From [simp]: "cm_From (ContentMsg c ts from) = from"
  by (simp add: ContentMsg_def)

text \<open>Send and receive: the content arrives, with its MIME type and encoding normalised.\<close>

lemma MsgToContent_ContentMsg:
  "sendable c \<Longrightarrow>
   MsgToContent (ContentMsg c ts from) =
     Some (case Kind c of KindText \<Rightarrow> c | KindImage \<Rightarrow> c\<lparr>Mime := image_mime (Mime c)\<rparr>)"
  by (cases c)
    (auto simp: MsgToContent_def ContentMsg_def sendable_def image_content_def text_content_def
      zero_content_def zero_clipboard_msg_def split: kind.splits)

lemma unmarshal_ContentMsg:
  "sendable c \<Longrightarrow> in_int64 ts \<Longrightarrow>
   Option.bind (unmarshal_clipboard (Some (marshal_clipboard (ContentMsg c ts from)))) MsgToContent
     = Some (received c)"
  by (cases "Kind c")
    (simp_all add: ContentMsg_def MsgToContent_def received_def sendable_def zero_clipboard_msg_def)

lemma hash_received:
  assumes "sendable c" and "valid_utf8 (Text c)" and "valid_utf8 (Mime c)"
    and "Kind c = KindImage \<longrightarrow> Mime c \<noteq> []"
  shows "ContentKey (received c) = ContentKey c"
  using assms
  by (cases "Kind c") (simp_all add: received_def ContentKey_def image_mime_def sendable_def)

end
