(* ===== verification/Filepath.thy ===== *)
theory Filepath
  imports GoStrings
begin

text \<open>
  Go's \<open>path/filepath\<close> on Unix: \<open>Clean\<close>, \<open>Join\<close> and \<open>Dir\<close>, with which
  \<open>config.Path\<close> and the certificate commands build file names. The lemmas say how
  \<open>Join\<close> and \<open>Dir\<close> act on a directory and one plain file name.
\<close>

definition slash :: char where "slash = CHR 0x2F"

text \<open>The elements \<open>Clean\<close> keeps, last first; \<open>..\<close> removes one unless there is none.\<close>

fun clean_elems :: "bool \<Rightarrow> string list \<Rightarrow> string list \<Rightarrow> string list" where
  "clean_elems rooted out [] = out"
| "clean_elems rooted out (e # es) =
     (if e = [] \<or> e = ''.'' then clean_elems rooted out es
      else if e = ''..'' then
        (case out of
           [] \<Rightarrow> clean_elems rooted (if rooted then [] else [''..'']) es
         | o1 # os \<Rightarrow>
             if o1 = ''..'' then clean_elems rooted (''..'' # out) es
             else clean_elems rooted os es)
      else clean_elems rooted (e # out) es)"

definition is_rooted :: "string \<Rightarrow> bool" where
  "is_rooted p = (case p of [] \<Rightarrow> False | c # _ \<Rightarrow> c = slash)"

definition Clean :: "string \<Rightarrow> string" where
  "Clean p =
     (if p = [] then ''.''
      else
        let rooted = is_rooted p;
            out = Join (rev (clean_elems rooted [] (Split p slash))) [slash]
        in if rooted then slash # out else if out = [] then ''.'' else out)"

text \<open>\<open>filepath.Join\<close>: everything from the first non-empty element on, cleaned.\<close>

definition path_join :: "string list \<Rightarrow> string" where
  "path_join es =
     (case dropWhile (\<lambda>e. e = []) es of [] \<Rightarrow> [] | es' \<Rightarrow> Clean (Join es' [slash]))"

text \<open>\<open>filepath.Dir\<close>: the part up to the last separator, cleaned.\<close>

definition path_dir :: "string \<Rightarrow> string" where
  "path_dir p = Clean (rev (dropWhile (\<lambda>c. c \<noteq> slash) (rev p)))"

text \<open>A name that \<open>Clean\<close> leaves alone.\<close>

definition plain_name :: "string \<Rightarrow> bool" where
  "plain_name e \<longleftrightarrow> e \<noteq> [] \<and> e \<noteq> ''.'' \<and> e \<noteq> ''..'' \<and> slash \<notin> set e"

lemma clean_elems_plain:
  "list_all plain_name es \<Longrightarrow> clean_elems r out es = rev es @ out"
  by (induction es arbitrary: out) (auto simp: plain_name_def)

lemma Split_append_sep: "Split (s @ c # t) c = Split s c @ Split t c"
  by (induction s) (auto split: list.splits)

lemma Split_Join:
  "es \<noteq> [] \<Longrightarrow> list_all (\<lambda>e. c \<notin> set e) es \<Longrightarrow> Split (Join es [c]) c = es"
  by (induction es "[c]" rule: Join.induct) (simp_all add: Split_single Split_append_sep)

text \<open>An absolute path of plain names.\<close>

definition abs_path :: "string list \<Rightarrow> string" where
  "abs_path es = slash # Join es [slash]"

lemma Clean_abs_path:
  assumes "es \<noteq> []" and "list_all plain_name es"
  shows "Clean (abs_path es) = abs_path es"
proof -
  have "list_all (\<lambda>e. slash \<notin> set e) es"
    using assms by (auto simp: list_all_iff plain_name_def)
  then have "Split (abs_path es) slash = [] # es"
    using assms by (simp add: abs_path_def Split_Join)
  then show ?thesis
    using assms
    by (simp add: Clean_def abs_path_def is_rooted_def clean_elems_plain Let_def)
qed

lemma Join_snoc: "es \<noteq> [] \<Longrightarrow> Join (es @ [w]) sep = Join es sep @ sep @ w"
  by (induction es sep rule: Join.induct) auto

lemma Join_append:
  "xs \<noteq> [] \<Longrightarrow> ys \<noteq> [] \<Longrightarrow> Join (xs @ ys) sep = Join xs sep @ sep @ Join ys sep"
proof (induction xs sep rule: Join.induct)
  case (2 w sep)
  then show ?case by (cases ys) auto
qed auto

lemma path_join_abs:
  assumes "es \<noteq> []" "list_all plain_name es" "ns \<noteq> []" "list_all plain_name ns"
  shows "path_join (abs_path es # ns) = abs_path (es @ ns)"
proof -
  have "Join (abs_path es # ns) [slash] = abs_path (es @ ns)"
    using assms by (cases ns) (simp_all add: abs_path_def Join_append)
  then show ?thesis
    using assms Clean_abs_path [of "es @ ns"] by (simp add: path_join_def abs_path_def)
qed

lemma path_dir_abs:
  assumes "es \<noteq> []" "list_all plain_name es" "plain_name w"
  shows "path_dir (abs_path (es @ [w])) = abs_path es"
proof -
  have w: "slash \<notin> set w" using assms by (simp add: plain_name_def)
  have "dropWhile (\<lambda>c. c \<noteq> slash) (rev w @ slash # rev (abs_path es)) = slash # rev (abs_path es)"
    using w by (subst dropWhile_append2) auto
  moreover have "rev (abs_path (es @ [w])) = rev w @ slash # rev (abs_path es)"
    using assms by (simp add: abs_path_def Join_snoc)
  ultimately have "path_dir (abs_path (es @ [w])) = Clean (abs_path es @ [slash])"
    by (simp add: path_dir_def)
  also have "\<dots> = abs_path es"
  proof -
    have "list_all (\<lambda>e. slash \<notin> set e) es"
      using assms by (auto simp: list_all_iff plain_name_def)
    then have "Split (abs_path es @ [slash]) slash = [] # es @ [[]]"
      using assms Split_append_sep [of "Join es [slash]" slash "[]"]
      by (simp add: abs_path_def Split_Join)
    moreover have "clean_elems True [] (es @ [[]]) = rev es"
    proof -
      have "clean_elems True out (es @ [[]]) = rev es @ out" for out
        using assms(2) by (induction es arbitrary: out) (auto simp: plain_name_def)
      then show ?thesis by simp
    qed
    ultimately show ?thesis
      by (simp add: Clean_def abs_path_def is_rooted_def Let_def)
  qed
  finally show ?thesis .
qed

end
