(* ===== verification/Config.thy ===== *)
theory Config
  imports Filepath
begin

text \<open>
  \<open>internal/config/config.go\<close>: the configuration record, its defaults, where the file is,
  what \<open>Load\<close> makes of it, the whitelist test and the two intervals. The TOML library is a
  parameter: what decoding the file into the defaults gave. The lemmas: whatever the file
  says, the loaded configuration satisfies \<open>config_ok\<close>, and loading is stable on such
  configurations.
\<close>

section \<open>The record\<close>

record server_cfg =
  srv_Port :: int
  srv_Bind :: string

record api_cfg =
  api_Port :: int
  api_Bind :: string

record whitelist_entry =
  wl_Name :: string
  wl_IP :: string

record connection =
  conn_Mode :: string
  conn_Whitelist :: "whitelist_entry list"

record discovery =
  dis_MDNS :: bool
  dis_Beacon :: bool
  dis_BeaconPort :: int
  dis_BeaconAddr :: string

record clipboard_cfg =
  cb_Backend :: string

record timing =
  HelloTimeout :: duration
  WriteTimeout :: duration
  PeerKeepalive :: duration
  PeerBackoffInitial :: duration
  PeerBackoffMax :: duration
  EchoWindow :: duration
  OneShotTimeout :: duration
  OneShotGrace :: duration
  WatchRemoteTimeout :: duration

record log_cfg =
  log_Level :: string
  log_File :: string

record tls_cfg =
  tls_Enabled :: bool
  tls_CA :: string
  tls_Cert :: string
  tls_Key :: string
  tls_VerifyHostname :: bool

record config =
  cfg_DeviceName :: string
  cfg_Server :: server_cfg
  cfg_API :: api_cfg
  cfg_Mdns :: bool
  cfg_Broadcast :: int
  cfg_Watch :: int
  cfg_Token :: string
  cfg_Peers :: "string list"
  cfg_Connection :: connection
  cfg_TLS :: tls_cfg
  cfg_MaxImageBytes :: int
  cfg_MaxMessageBytes :: int
  cfg_Discovery :: discovery
  cfg_Timing :: timing
  cfg_Clipboard :: clipboard_cfg
  cfg_Log :: log_cfg

definition ModeDiscover :: string where "ModeDiscover = ''discover''"
definition ModeWhitelist :: string where "ModeWhitelist = ''whitelist''"

lemma modes_distinct [simp]: "ModeDiscover \<noteq> ModeWhitelist" "ModeWhitelist \<noteq> ModeDiscover"
    "ModeDiscover \<noteq> []" "ModeWhitelist \<noteq> []"
  by (simp_all add: ModeDiscover_def ModeWhitelist_def)

section \<open>Where the file is\<close>

text \<open>What \<open>Path\<close> reads of the process: the operating system and the environment.\<close>

record process_env =
  GOOS :: string
  Getenv :: "string \<Rightarrow> string"
  Hostname :: string

definition Path :: "process_env \<Rightarrow> string" where
  "Path env =
     (if Getenv env ''CLIPSHARE_CONFIG'' \<noteq> [] then Getenv env ''CLIPSHARE_CONFIG''
      else if GOOS env = ''windows'' \<and> Getenv env ''APPDATA'' \<noteq> [] then
        path_join [Getenv env ''APPDATA'', ''clipshare'', ''config.toml'']
      else
        let h0 = Getenv env ''HOME'';
            h1 = (if h0 = [] then Getenv env ''USERPROFILE'' else h0);
            h2 = (if h1 = [] then Getenv env ''HOMEDRIVE'' @ Getenv env ''HOMEPATH'' else h1)
        in if h2 = [] then path_join [''.config'', ''clipshare'', ''config.toml'']
           else path_join [h2, ''.config'', ''clipshare'', ''config.toml''])"

section \<open>Defaults\<close>

definition default_timing :: timing where
  "default_timing =
     \<lparr>HelloTimeout = 5 * second, WriteTimeout = 3 * second, PeerKeepalive = 30 * second,
      PeerBackoffInitial = 1 * second, PeerBackoffMax = 30 * second, EchoWindow = 30 * second,
      OneShotTimeout = 120 * second, OneShotGrace = 5 * second,
      WatchRemoteTimeout = 120 * second\<rparr>"

definition Default :: "process_env \<Rightarrow> config" where
  "Default env =
     (let certsDir = path_join [path_dir (Path env), ''certs''] in
      \<lparr>cfg_DeviceName = Hostname env,
       cfg_Server = \<lparr>srv_Port = 40403, srv_Bind = ''0.0.0.0''\<rparr>,
       cfg_API = \<lparr>api_Port = 40405, api_Bind = ''127.0.0.1''\<rparr>,
       cfg_Mdns = True,
       cfg_Broadcast = 5,
       cfg_Watch = 300,
       cfg_Token = [],
       cfg_Peers = [],
       cfg_Connection = \<lparr>conn_Mode = ModeDiscover, conn_Whitelist = []\<rparr>,
       cfg_TLS = \<lparr>tls_Enabled = False, tls_CA = path_join [certsDir, ''ca.pem''],
                  tls_Cert = path_join [certsDir, ''server.pem''],
                  tls_Key = path_join [certsDir, ''server.key''], tls_VerifyHostname = True\<rparr>,
       cfg_MaxImageBytes = 10 * 1024 * 1024,
       cfg_MaxMessageBytes = 10 * 1024 * 1024,
       cfg_Discovery = \<lparr>dis_MDNS = True, dis_Beacon = True, dis_BeaconPort = 40404,
                        dis_BeaconAddr = ''255.255.255.255''\<rparr>,
       cfg_Timing = default_timing,
       cfg_Clipboard = \<lparr>cb_Backend = ''auto''\<rparr>,
       cfg_Log = \<lparr>log_Level = ''info'', log_File = []\<rparr>\<rparr>)"

section \<open>Normalisation\<close>

definition positive_or :: "duration \<Rightarrow> duration \<Rightarrow> duration" where
  "positive_or d t = (if t \<le> 0 then d else t)"

definition withDefaults :: "timing \<Rightarrow> timing" where
  "withDefaults t =
     \<lparr>HelloTimeout = positive_or (5 * second) (HelloTimeout t),
      WriteTimeout = positive_or (3 * second) (WriteTimeout t),
      PeerKeepalive = positive_or (30 * second) (PeerKeepalive t),
      PeerBackoffInitial = positive_or (1 * second) (PeerBackoffInitial t),
      PeerBackoffMax = positive_or (30 * second) (PeerBackoffMax t),
      EchoWindow = positive_or (30 * second) (EchoWindow t),
      OneShotTimeout = positive_or (120 * second) (OneShotTimeout t),
      OneShotGrace = positive_or (5 * second) (OneShotGrace t),
      WatchRemoteTimeout = positive_or (120 * second) (WatchRemoteTimeout t)\<rparr>"

definition normalizeClipboardBackend :: "string \<Rightarrow> string" where
  "normalizeClipboardBackend v =
     (if v = ''wayland'' \<or> v = ''xclip'' \<or> v = ''xsel'' then v else ''auto'')"

definition normalizeLogLevel :: "string \<Rightarrow> string" where
  "normalizeLogLevel v =
     (if v = [] \<or> v = ''debug'' \<or> v = ''info'' \<or> v = ''warn'' \<or> v = ''warning'' \<or> v = ''error''
      then v else ''info'')"

text \<open>\<open>meta.IsDefined\<close>: the dotted keys the file sets.\<close>

type_synonym defined_keys = "string list list"

definition normalize_discovery :: "defined_keys \<Rightarrow> bool \<Rightarrow> discovery \<Rightarrow> discovery" where
  "normalize_discovery ks mdns d =
     (let d1 = (if [''discovery'', ''mdns''] \<in> set ks then d else d\<lparr>dis_MDNS := mdns\<rparr>);
          d2 = (if [''discovery'', ''beacon''] \<in> set ks then d1 else d1\<lparr>dis_Beacon := True\<rparr>);
          d3 = (if [''discovery'', ''beacon_port''] \<in> set ks then d2
                else d2\<lparr>dis_BeaconPort := 40404\<rparr>);
          d4 = (if [''discovery'', ''beacon_addr''] \<in> set ks then d3
                else d3\<lparr>dis_BeaconAddr := ''255.255.255.255''\<rparr>);
          d5 = (if dis_BeaconPort d4 \<le> 0 then d4\<lparr>dis_BeaconPort := 40404\<rparr> else d4)
      in if dis_BeaconAddr d5 = [] then d5\<lparr>dis_BeaconAddr := ''255.255.255.255''\<rparr> else d5)"

text \<open>Lines 179 to 223 of \<open>config.go\<close>: what \<open>Load\<close> does after decoding.\<close>

definition normalize :: "defined_keys \<Rightarrow> config \<Rightarrow> config" where
  "normalize ks c =
     (let d = normalize_discovery ks (cfg_Mdns c) (cfg_Discovery c);
          conn = cfg_Connection c; srv = cfg_Server c; a = cfg_API c
      in c\<lparr>cfg_Discovery := d,
           cfg_Clipboard := (cfg_Clipboard c)\<lparr>cb_Backend :=
             normalizeClipboardBackend (cb_Backend (cfg_Clipboard c))\<rparr>,
           cfg_Log := (cfg_Log c)\<lparr>log_Level := normalizeLogLevel (log_Level (cfg_Log c))\<rparr>,
           cfg_Mdns := dis_MDNS d,
           cfg_Watch := (if cfg_Watch c < 50 then 300 else cfg_Watch c),
           cfg_Connection :=
             conn\<lparr>conn_Mode := (if conn_Mode conn = [] then ModeDiscover else conn_Mode conn)\<rparr>,
           cfg_MaxImageBytes :=
             (if cfg_MaxImageBytes c \<le> 0 then 10 * 1024 * 1024 else cfg_MaxImageBytes c),
           cfg_MaxMessageBytes :=
             (if cfg_MaxMessageBytes c \<le> 0 then 10 * 1024 * 1024 else cfg_MaxMessageBytes c),
           cfg_Server := srv\<lparr>srv_Bind := (if srv_Bind srv = [] then ''0.0.0.0'' else srv_Bind srv)\<rparr>,
           cfg_API := a\<lparr>api_Bind := (if api_Bind a = [] then ''127.0.0.1'' else api_Bind a)\<rparr>,
           cfg_Timing := withDefaults (cfg_Timing c)\<rparr>)"

section \<open>Load\<close>

text \<open>
  The outcome of \<open>toml.DecodeFile(Path(), cfg)\<close>, a library call: no such file, an error,
  or the configuration it filled in with the keys the file defines.
\<close>

datatype decode_result =
    NotExist
  | DecodeError string
  | Decoded config defined_keys

definition Load :: "process_env \<Rightarrow> (string \<Rightarrow> config \<Rightarrow> decode_result) \<Rightarrow> string + config" where
  "Load env decode =
     (let cfg = Default env in
      case decode (Path env) cfg of
        DecodeError e \<Rightarrow> Inl e
      | NotExist \<Rightarrow> Inr (normalize [] cfg)
      | Decoded c ks \<Rightarrow> Inr (normalize ks c))"

section \<open>Queries\<close>

fun in_whitelist :: "whitelist_entry list \<Rightarrow> string \<Rightarrow> string \<Rightarrow> bool" where
  "in_whitelist [] ip name = False"
| "in_whitelist (e # es) ip name =
     (if wl_IP e \<noteq> [] \<and> wl_IP e = ip then True
      else if wl_Name e \<noteq> [] \<and> wl_Name e = name then True
      else in_whitelist es ip name)"

definition InWhitelist :: "config \<Rightarrow> string \<Rightarrow> string \<Rightarrow> bool" where
  "InWhitelist c ip name = in_whitelist (conn_Whitelist (cfg_Connection c)) ip name"

definition BroadcastInterval :: "config \<Rightarrow> duration" where
  "BroadcastInterval c =
     (if cfg_Broadcast c \<le> 0 then 5 * second else int64 (cfg_Broadcast c * second))"

text \<open>\<open>WatchInterval\<close> also writes the clamped value back.\<close>

definition WatchInterval :: "config \<Rightarrow> duration \<times> config" where
  "WatchInterval c =
     (let c' = (if cfg_Watch c < 50 then c\<lparr>cfg_Watch := 300\<rparr> else c)
      in (int64 (cfg_Watch c' * millisecond), c'))"

section \<open>What a loaded configuration satisfies\<close>

definition timing_ok :: "timing \<Rightarrow> bool" where
  "timing_ok t \<longleftrightarrow>
     0 < HelloTimeout t \<and> 0 < WriteTimeout t \<and> 0 < PeerKeepalive t \<and>
     0 < PeerBackoffInitial t \<and> 0 < PeerBackoffMax t \<and> 0 < EchoWindow t \<and>
     0 < OneShotTimeout t \<and> 0 < OneShotGrace t \<and> 0 < WatchRemoteTimeout t"

definition discovery_ok :: "discovery \<Rightarrow> bool" where
  "discovery_ok d \<longleftrightarrow> 0 < dis_BeaconPort d \<and> dis_BeaconAddr d \<noteq> []"

definition clipboard_backends :: "string list" where
  "clipboard_backends = [''auto'', ''wayland'', ''xclip'', ''xsel'']"

definition log_levels :: "string list" where
  "log_levels = [[], ''debug'', ''info'', ''warn'', ''warning'', ''error'']"

definition config_ok :: "config \<Rightarrow> bool" where
  "config_ok c \<longleftrightarrow>
     discovery_ok (cfg_Discovery c) \<and> cfg_Mdns c = dis_MDNS (cfg_Discovery c) \<and>
     cb_Backend (cfg_Clipboard c) \<in> set clipboard_backends \<and>
     log_Level (cfg_Log c) \<in> set log_levels \<and>
     50 \<le> cfg_Watch c \<and> conn_Mode (cfg_Connection c) \<noteq> [] \<and>
     0 < cfg_MaxImageBytes c \<and> 0 < cfg_MaxMessageBytes c \<and>
     srv_Bind (cfg_Server c) \<noteq> [] \<and> api_Bind (cfg_API c) \<noteq> [] \<and>
     timing_ok (cfg_Timing c)"

definition discovery_keys :: defined_keys where
  "discovery_keys =
     [[''discovery'', ''mdns''], [''discovery'', ''beacon''],
      [''discovery'', ''beacon_port''], [''discovery'', ''beacon_addr'']]"

lemma positive_or_pos: "0 < d \<Longrightarrow> 0 < positive_or d t"
  by (simp add: positive_or_def)

lemma positive_or_id [simp]: "0 < t \<Longrightarrow> positive_or d t = t"
  by (simp add: positive_or_def)

lemma second_pos [simp]: "0 < second"
  by (simp add: second_def)

lemma timing_ok_withDefaults: "timing_ok (withDefaults t)"
  by (simp add: timing_ok_def withDefaults_def positive_or_pos)

lemma withDefaults_id [simp]: "timing_ok t \<Longrightarrow> withDefaults t = t"
  by (cases t) (simp add: timing_ok_def withDefaults_def)

lemma timing_ok_default: "timing_ok default_timing"
  by (simp add: timing_ok_def default_timing_def)

lemma normalizeClipboardBackend_mem:
  "normalizeClipboardBackend v \<in> set clipboard_backends"
  by (simp add: normalizeClipboardBackend_def clipboard_backends_def)

lemma normalizeClipboardBackend_id [simp]:
  "v \<in> set clipboard_backends \<Longrightarrow> normalizeClipboardBackend v = v"
  by (auto simp: normalizeClipboardBackend_def clipboard_backends_def)

lemma normalizeLogLevel_mem: "normalizeLogLevel v \<in> set log_levels"
  by (simp add: normalizeLogLevel_def log_levels_def)

lemma normalizeLogLevel_id [simp]: "v \<in> set log_levels \<Longrightarrow> normalizeLogLevel v = v"
  by (auto simp: normalizeLogLevel_def log_levels_def)

lemma discovery_ok_normalize: "discovery_ok (normalize_discovery ks m d)"
  by (simp add: discovery_ok_def normalize_discovery_def Let_def)

lemma normalize_discovery_id:
  "discovery_ok d \<Longrightarrow> set discovery_keys \<subseteq> set ks \<Longrightarrow> normalize_discovery ks m d = d"
  by (simp add: discovery_ok_def normalize_discovery_def discovery_keys_def Let_def)

lemma normalize_discovery_mdns:
  "dis_MDNS (normalize_discovery ks m d) =
     (if [''discovery'', ''mdns''] \<in> set ks then dis_MDNS d else m)"
  by (simp add: normalize_discovery_def Let_def)

text \<open>The fields after normalisation, one equation each.\<close>

lemma normalize_fields:
  "cfg_Discovery (normalize ks c) = normalize_discovery ks (cfg_Mdns c) (cfg_Discovery c)"
  "cb_Backend (cfg_Clipboard (normalize ks c)) = normalizeClipboardBackend (cb_Backend (cfg_Clipboard c))"
  "log_Level (cfg_Log (normalize ks c)) = normalizeLogLevel (log_Level (cfg_Log c))"
  "cfg_Mdns (normalize ks c) = dis_MDNS (cfg_Discovery (normalize ks c))"
  "cfg_Watch (normalize ks c) = (if cfg_Watch c < 50 then 300 else cfg_Watch c)"
  "conn_Mode (cfg_Connection (normalize ks c)) =
     (if conn_Mode (cfg_Connection c) = [] then ModeDiscover else conn_Mode (cfg_Connection c))"
  "cfg_MaxImageBytes (normalize ks c) =
     (if cfg_MaxImageBytes c \<le> 0 then 10485760 else cfg_MaxImageBytes c)"
  "cfg_MaxMessageBytes (normalize ks c) =
     (if cfg_MaxMessageBytes c \<le> 0 then 10485760 else cfg_MaxMessageBytes c)"
  "srv_Bind (cfg_Server (normalize ks c)) =
     (if srv_Bind (cfg_Server c) = [] then ''0.0.0.0'' else srv_Bind (cfg_Server c))"
  "api_Bind (cfg_API (normalize ks c)) =
     (if api_Bind (cfg_API c) = [] then ''127.0.0.1'' else api_Bind (cfg_API c))"
  "cfg_Timing (normalize ks c) = withDefaults (cfg_Timing c)"
  by (simp_all add: normalize_def Let_def)

lemma normalize_keeps:
  "cfg_DeviceName (normalize ks c) = cfg_DeviceName c"
  "cfg_Broadcast (normalize ks c) = cfg_Broadcast c"
  "cfg_Token (normalize ks c) = cfg_Token c"
  "cfg_Peers (normalize ks c) = cfg_Peers c"
  "cfg_TLS (normalize ks c) = cfg_TLS c"
  "conn_Whitelist (cfg_Connection (normalize ks c)) = conn_Whitelist (cfg_Connection c)"
  "srv_Port (cfg_Server (normalize ks c)) = srv_Port (cfg_Server c)"
  "api_Port (cfg_API (normalize ks c)) = api_Port (cfg_API c)"
  "log_File (cfg_Log (normalize ks c)) = log_File (cfg_Log c)"
  by (simp_all add: normalize_def Let_def)

lemma config_ok_normalize: "config_ok (normalize ks c)"
  by (simp add: config_ok_def normalize_fields discovery_ok_normalize
      normalizeClipboardBackend_mem normalizeLogLevel_mem timing_ok_withDefaults)

lemma normalize_id:
  "config_ok c \<Longrightarrow> set discovery_keys \<subseteq> set ks \<Longrightarrow> normalize ks c = c"
  by (simp add: config_ok_def normalize_def normalize_discovery_id Let_def)

lemma Default_fields [simp]:
  "cfg_Discovery (Default env) =
     \<lparr>dis_MDNS = True, dis_Beacon = True, dis_BeaconPort = 40404,
      dis_BeaconAddr = ''255.255.255.255''\<rparr>"
  "cfg_Connection (Default env) = \<lparr>conn_Mode = ModeDiscover, conn_Whitelist = []\<rparr>"
  "cfg_Timing (Default env) = default_timing"
  "cfg_Token (Default env) = []"
  "cfg_Mdns (Default env) = True"
  by (simp_all add: Default_def Let_def)

lemma config_ok_Default: "config_ok (Default env)"
  by (simp add: config_ok_def Default_def Let_def discovery_ok_def timing_ok_default
      clipboard_backends_def log_levels_def)

lemma normalize_Default: "normalize [] (Default env) = Default env"
  by (simp add: Default_def Let_def normalize_def normalize_discovery_def timing_ok_default
      normalizeClipboardBackend_def normalizeLogLevel_def)

lemma Load_cases:
  "Load env decode = Inr c \<Longrightarrow>
     (\<exists>ks c0. c = normalize ks c0)"
  by (auto simp: Load_def Let_def split: decode_result.splits)

lemma in_whitelist_iff:
  "in_whitelist es ip name \<longleftrightarrow>
     (\<exists>e \<in> set es. (wl_IP e \<noteq> [] \<and> wl_IP e = ip) \<or> (wl_Name e \<noteq> [] \<and> wl_Name e = name))"
  by (induction es) auto

section \<open>Properties\<close>

text \<open>C19: whatever the configuration file holds, a configuration that \<open>Load\<close> returns has all
  its invariants: positive timeouts and limits, a known clipboard backend and log level, a
  non-empty mode and bind addresses, a beacon destination, and the deprecated \<open>mdns\<close> field in
  step with the new one.\<close>

theorem Load_config_ok:
  assumes "Load env decode = Inr c"
  shows "config_ok c"
  using Load_cases [OF assms] by (auto intro: config_ok_normalize)

definition sample_env :: process_env where
  "sample_env =
     \<lparr>GOOS = ''linux'', Getenv = (\<lambda>v. if v = ''HOME'' then ''/home/u'' else []), Hostname = ''desk''\<rparr>"

theorem Load_config_ok_witness:
  "config_ok (normalize [] (Default sample_env\<lparr>cfg_Watch := 3, cfg_MaxImageBytes := -1\<rparr>))"
  by (rule Load_config_ok [of sample_env
        "\<lambda>_ c. Decoded (c\<lparr>cfg_Watch := 3, cfg_MaxImageBytes := -1\<rparr>) []"])
    (simp add: Load_def Let_def)

text \<open>Saving a loaded configuration and loading it again gives the same configuration: on
  a configuration that satisfies the invariants, with the four discovery keys in the file (as
  \<open>writeToml\<close> puts them there), \<open>Load\<close> changes nothing.\<close>

lemma Load_stable:
  assumes "config_ok c" and "set discovery_keys \<subseteq> set ks"
    and "decode (Path env) (Default env) = Decoded c ks"
  shows "Load env decode = Inr c"
  using assms by (simp add: Load_def normalize_id)

lemma Load_stable_example:
  "Load sample_env (\<lambda>_ _. Decoded (Default sample_env\<lparr>cfg_Token := ''tok''\<rparr>) discovery_keys) =
     Inr (Default sample_env\<lparr>cfg_Token := ''tok''\<rparr>)"
proof (rule Load_stable [where ks = discovery_keys])
  show "config_ok (Default sample_env\<lparr>cfg_Token := ''tok''\<rparr>)"
    using config_ok_Default [of sample_env] by (simp add: config_ok_def)
qed simp_all

text \<open>A missing file is no error and gives exactly the defaults.\<close>

lemma Load_missing: "decode (Path env) (Default env) = NotExist \<Longrightarrow> Load env decode = Inr (Default env)"
  by (simp add: Load_def normalize_Default)

text \<open>The whitelist admits a device exactly when some entry names its address or its
  declared name; an empty field of an entry matches nothing.\<close>

lemma InWhitelist_iff:
  "InWhitelist c ip name \<longleftrightarrow>
     (\<exists>e \<in> set (conn_Whitelist (cfg_Connection c)).
        (wl_IP e \<noteq> [] \<and> wl_IP e = ip) \<or> (wl_Name e \<noteq> [] \<and> wl_Name e = name))"
  by (simp add: InWhitelist_def in_whitelist_iff)

text \<open>The beacon interval is a positive duration for every configured number of seconds up
  to 9223372036; one second more and the multiplication wraps around to a negative duration,
  for which \<open>time.NewTicker\<close> panics.\<close>

lemma BroadcastInterval_range:
  "(cfg_Broadcast c \<le> 9223372036 \<longrightarrow> 0 < BroadcastInterval c) \<and>
   (cfg_Broadcast c = 9223372037 \<longrightarrow> BroadcastInterval c < 0)"
  by (auto simp: BroadcastInterval_def second_def int64_def)

lemma BroadcastInterval_range_example:
  "0 < BroadcastInterval (Default sample_env\<lparr>cfg_Broadcast := 12\<rparr>) \<and>
   BroadcastInterval (Default sample_env\<lparr>cfg_Broadcast := 9223372037\<rparr>) < 0"
  using BroadcastInterval_range [of "Default sample_env\<lparr>cfg_Broadcast := 12\<rparr>"]
    BroadcastInterval_range [of "Default sample_env\<lparr>cfg_Broadcast := 9223372037\<rparr>"]
  by simp

end
