(* ===== verification/Server.thy ===== *)
theory Server
  imports Protocol Config
begin

text \<open>
  \<open>internal/websocket\<close>: the WebSocket server (\<open>server.go\<close>, \<open>handlers.go\<close>,
  \<open>broadcast.go\<close>, \<open>client.go\<close>, \<open>helpers.go\<close>). The state is the Go \<open>Server\<close> with
  its clients; every operation takes the state and returns the new one, and what is written
  to connections is appended to a trace of outputs. The WebSocket library is a parameter:
  whether a write succeeds, and what a read returned. The callbacks of the server are
  functions on the state \<open>'w\<close> of the rest of the program.

  This theory holds the definitions; \<open>ServerProps\<close> holds the invariant and the properties.
\<close>

section \<open>State\<close>

text \<open>
  \<open>Client\<close> of \<open>client.go\<close>. \<open>cl_ready\<close> is the point its goroutine has reached in
  \<open>handleClient\<close>: false before the hello has been accepted, true in the reading loop.
\<close>

record client =
  cl_id :: string
  cl_ip :: string
  cl_name :: string
  cl_platform :: string
  cl_version :: string
  cl_lastInKey :: u64
  cl_lastInAt :: time
  cl_ready :: bool

text \<open>What leaves the server, in order: messages, closed connections, refused requests.\<close>

datatype out_event =
    Sent string json
  | SentPeer nat json
  | Closed string string
  | Refused nat

text \<open>
  \<open>Server\<close> of \<open>server.go\<close>, with the package's \<open>idSeq\<close>. A registered peer is known by
  the number of its \<open>PeerClient\<close>; the flag says whether its connection is set.
\<close>

record server =
  sv_cfg :: config
  sv_version :: string
  sv_clients :: "(string \<times> client) list"
  sv_peers :: "(nat \<times> bool) list"
  sv_maxClients :: int
  sv_lastBroadcast :: u64
  sv_lastBroadcastT :: time
  sv_started :: time
  sv_idSeq :: u64
  sv_out :: "out_event list"

text \<open>The world during an operation: the clock, and which writes succeed.\<close>

record env =
  now :: time
  wok :: "string \<Rightarrow> bool"
  pok :: "nat \<Rightarrow> bool"

text \<open>The callbacks; \<open>'w\<close> is the state they work on.\<close>

record 'w hooks =
  onRemoteClip :: "(content \<Rightarrow> string \<Rightarrow> 'w \<Rightarrow> 'w) option"
  onClientConnect :: "(env \<Rightarrow> server \<times> 'w \<Rightarrow> server \<times> 'w) option"

section \<open>server.go\<close>

definition New :: "env \<Rightarrow> config \<Rightarrow> string \<Rightarrow> server" where
  "New e c v =
     \<lparr>sv_cfg = c, sv_version = v, sv_clients = [], sv_peers = [], sv_maxClients = 0,
      sv_lastBroadcast = 0, sv_lastBroadcastT = zero_time, sv_started = now e, sv_idSeq = 0,
      sv_out = []\<rparr>"

definition SetConnectHook ::
    "(env \<Rightarrow> server \<times> 'w \<Rightarrow> server \<times> 'w) option \<Rightarrow> 'w hooks \<Rightarrow> 'w hooks" where
  "SetConnectHook fn hk = hk\<lparr>onClientConnect := fn\<rparr>"

definition SetMaxClients :: "int \<Rightarrow> server \<Rightarrow> server" where
  "SetMaxClients n s = s\<lparr>sv_maxClients := n\<rparr>"

definition SetOnRemoteClip ::
    "(content \<Rightarrow> string \<Rightarrow> 'w \<Rightarrow> 'w) option \<Rightarrow> 'w hooks \<Rightarrow> 'w hooks" where
  "SetOnRemoteClip fn hk = hk\<lparr>onRemoteClip := fn\<rparr>"

definition registerPeer :: "nat \<Rightarrow> server \<Rightarrow> server" where
  "registerPeer p s = s\<lparr>sv_peers := alist_put p True (sv_peers s)\<rparr>"

definition unregisterPeer :: "nat \<Rightarrow> server \<Rightarrow> server" where
  "unregisterPeer p s = s\<lparr>sv_peers := alist_del p (sv_peers s)\<rparr>"

definition client_info_of :: "client \<Rightarrow> client_info" where
  "client_info_of c =
     \<lparr>ci_ID = cl_id c, ci_Name = cl_name c, ci_Platform = cl_platform c,
      ci_Version = cl_version c, ci_IP = cl_ip c\<rparr>"

definition Clients :: "server \<Rightarrow> client_info list" where
  "Clients s = map client_info_of (vals (sv_clients s))"

definition Uptime :: "env \<Rightarrow> server \<Rightarrow> duration" where
  "Uptime e s = since (now e) (sv_started s)"

definition DeviceName :: "server \<Rightarrow> string" where
  "DeviceName s = cfg_DeviceName (sv_cfg s)"

definition TokenAuth :: "server \<Rightarrow> bool" where
  "TokenAuth s \<longleftrightarrow> cfg_Token (sv_cfg s) \<noteq> []"

definition TLS :: "server \<Rightarrow> bool" where
  "TLS s = tls_Enabled (cfg_TLS (sv_cfg s))"

definition Mode :: "server \<Rightarrow> string" where
  "Mode s = conn_Mode (cfg_Connection (sv_cfg s))"

section \<open>helpers.go\<close>

definition newID :: "server \<Rightarrow> string \<times> server" where
  "newID s =
     (let n = sv_idSeq s + 1 in (format_base 36 (unat n), s\<lparr>sv_idSeq := n\<rparr>))"

text \<open>\<open>net.SplitHostPort\<close>; \<open>None\<close> is its error.\<close>

definition SplitHostPort :: "string \<Rightarrow> (string \<times> string) option" where
  "SplitHostPort s =
     (if CHR '':'' \<notin> set s then None
      else if hd s = CHR ''['' then
        (let host = takeWhile (\<lambda>c. c \<noteq> CHR '']'') (tl s);
             after = drop (length host + 2) s
         in if CHR '']'' \<notin> set s then None
            else
              (case after of
                 [] \<Rightarrow> None
               | c # port \<Rightarrow>
                   if c \<noteq> CHR '':'' \<or> CHR '':'' \<in> set port then None
                   else if CHR ''['' \<in> set (tl s) \<or> CHR '']'' \<in> set after then None
                   else Some (host, port)))
      else
        (let port = rev (takeWhile (\<lambda>c. c \<noteq> CHR '':'') (rev s));
             host = take (length s - length port - 1) s
         in if CHR '':'' \<in> set host \<or> CHR ''['' \<in> set s \<or> CHR '']'' \<in> set s then None
            else Some (host, port)))"

definition clientIP :: "string \<Rightarrow> string" where
  "clientIP remoteAddr =
     Trim (case SplitHostPort remoteAddr of None \<Rightarrow> remoteAddr | Some (host, _) \<Rightarrow> host) ''[]''"

section \<open>client.go\<close>

definition emit :: "out_event \<Rightarrow> server \<Rightarrow> server" where
  "emit x s = s\<lparr>sv_out := sv_out s @ [x]\<rparr>"

text \<open>\<open>write\<close> on a client's connection; a failed write leaves no trace.\<close>

definition cl_write :: "env \<Rightarrow> string \<Rightarrow> json \<Rightarrow> server \<Rightarrow> server" where
  "cl_write e cid msg s = (if wok e cid then emit (Sent cid msg) s else s)"

definition update_client :: "string \<Rightarrow> (client \<Rightarrow> client) \<Rightarrow> server \<Rightarrow> server" where
  "update_client cid f s = s\<lparr>sv_clients := alist_adjust cid f (sv_clients s)\<rparr>"

definition noteIncoming :: "env \<Rightarrow> string \<Rightarrow> u64 \<Rightarrow> server \<Rightarrow> server" where
  "noteIncoming e cid key s =
     update_client cid (\<lambda>c. c\<lparr>cl_lastInKey := key, cl_lastInAt := now e\<rparr>) s"

definition recentlySent :: "env \<Rightarrow> u64 \<Rightarrow> duration \<Rightarrow> client \<Rightarrow> bool" where
  "recentlySent e key window c \<longleftrightarrow>
     cl_lastInKey c = key \<and> since (now e) (cl_lastInAt c) < window"

section \<open>broadcast.go\<close>

text \<open>\<open>PeerClient.Send\<close> of \<open>peer.go\<close>: nothing without a connection.\<close>

definition pc_Send :: "env \<Rightarrow> content \<Rightarrow> string \<Rightarrow> nat \<times> bool \<Rightarrow> server \<Rightarrow> server" where
  "pc_Send e content from pc s =
     (if \<not> snd pc then s
      else if pok e (fst pc) then
        emit (SentPeer (fst pc) (clipboard_frame content (UnixMilli (now e)) from)) s
      else s)"

fun write_all :: "env \<Rightarrow> json \<Rightarrow> string list \<Rightarrow> server \<Rightarrow> server" where
  "write_all e msg [] s = s"
| "write_all e msg (cid # ids) s = write_all e msg ids (cl_write e cid msg s)"

fun send_all :: "env \<Rightarrow> content \<Rightarrow> string \<Rightarrow> (nat \<times> bool) list \<Rightarrow> server \<Rightarrow> server" where
  "send_all e content from [] s = s"
| "send_all e content from (pc # pcs) s = send_all e content from pcs (pc_Send e content from pc s)"

definition Broadcast :: "env \<Rightarrow> content \<Rightarrow> string \<Rightarrow> string \<Rightarrow> server \<Rightarrow> server" where
  "Broadcast e content from skipID s =
     (if Kind content = KindImage \<and> int (length (Image content)) > cfg_MaxImageBytes (sv_cfg s)
      then s
      else
        let msg = clipboard_frame content (UnixMilli (now e)) from;
            ids = map fst (filter (\<lambda>(cid, c). \<not> (skipID \<noteq> [] \<and> cid = skipID)) (sv_clients s))
        in send_all e content from (sv_peers s) (write_all e msg ids s))"

definition BroadcastLocal :: "env \<Rightarrow> content \<Rightarrow> string \<Rightarrow> server \<Rightarrow> server" where
  "BroadcastLocal e content from s =
     (let key = ContentKey content;
          window = EchoWindow (cfg_Timing (sv_cfg s));
          msg = clipboard_frame content (UnixMilli (now e)) from;
          ids = map fst (filter (\<lambda>(cid, c). \<not> recentlySent e key window c) (sv_clients s))
      in send_all e content from (sv_peers s) (write_all e msg ids s))"

definition sendError :: "env \<Rightarrow> string \<Rightarrow> string \<Rightarrow> string \<Rightarrow> server \<Rightarrow> server" where
  "sendError e cid code msg s = cl_write e cid (error_frame code msg) s"

definition pong :: "env \<Rightarrow> string \<Rightarrow> server \<Rightarrow> server" where
  "pong e cid s = cl_write e cid (bare_frame MsgPong) s"

section \<open>handlers.go\<close>

definition new_client :: "string \<Rightarrow> string \<Rightarrow> client" where
  "new_client cid ip =
     \<lparr>cl_id = cid, cl_ip = ip, cl_name = [], cl_platform = [], cl_version = [],
      cl_lastInKey = 0, cl_lastInAt = zero_time, cl_ready = False\<rparr>"

text \<open>
  \<open>handleWS\<close> up to the call of \<open>handleClient\<close>: \<open>token\<close> is the query parameter,
  \<open>accepted\<close> whether \<open>websocket.Accept\<close> succeeded. The result names the client whose
  \<open>handleClient\<close> is entered, if any.
\<close>

definition handleWS :: "string \<Rightarrow> string \<Rightarrow> bool \<Rightarrow> server \<Rightarrow> server \<times> string option" where
  "handleWS token remoteAddr accepted s =
     (if cfg_Token (sv_cfg s) \<noteq> [] \<and> token \<noteq> cfg_Token (sv_cfg s) then (emit (Refused 401) s, None)
      else if \<not> accepted then (s, None)
      else
        let (cid, s1) = newID s;
            client = new_client cid (clientIP remoteAddr)
        in if sv_maxClients s1 > 0 \<and> int (length (sv_clients s1)) \<ge> sv_maxClients s1 then
             (emit (Closed cid ''one client at a time'') s1, None)
           else (s1\<lparr>sv_clients := alist_put cid client (sv_clients s1)\<rparr>, Some cid))"

text \<open>What a read on the connection gave: an error, or a text (\<open>None\<close> if it is not JSON).\<close>

datatype read_result = ReadError | Frame "json option"

text \<open>The deferred part of \<open>handleClient\<close>.\<close>

definition disconnect :: "string \<Rightarrow> server \<Rightarrow> server" where
  "disconnect cid s = emit (Closed cid ''bye'') (s\<lparr>sv_clients := alist_del cid (sv_clients s)\<rparr>)"

definition run_connect_hook :: "env \<Rightarrow> 'w hooks \<Rightarrow> server \<times> 'w \<Rightarrow> server \<times> 'w" where
  "run_connect_hook e hk sw = (case onClientConnect hk of None \<Rightarrow> sw | Some f \<Rightarrow> f e sw)"

definition own_hello :: "server \<Rightarrow> hello" where
  "own_hello s =
     \<lparr>h_Name = cfg_DeviceName (sv_cfg s), h_Platform = PlatformDesktop, h_Version = sv_version s\<rparr>"

definition client_ip :: "string \<Rightarrow> server \<Rightarrow> string" where
  "client_ip cid s = (case map_of (sv_clients s) cid of None \<Rightarrow> [] | Some c \<Rightarrow> cl_ip c)"

definition reject :: "env \<Rightarrow> string \<Rightarrow> string \<Rightarrow> string \<Rightarrow> server \<Rightarrow> server" where
  "reject e cid code msg s = disconnect cid (sendError e cid code msg s)"

definition set_hello :: "hello \<Rightarrow> client \<Rightarrow> client" where
  "set_hello h c =
     c\<lparr>cl_name := h_Name h, cl_platform := h_Platform h, cl_version := h_Version h\<rparr>"

text \<open>
  Lines 77 to 93: record the identity, run the connect hook, reply with the own identity. The
  hook runs before the reply.
\<close>

definition accept_hello ::
    "env \<Rightarrow> 'w hooks \<Rightarrow> string \<Rightarrow> hello \<Rightarrow> server \<times> 'w \<Rightarrow> server \<times> 'w" where
  "accept_hello e hk cid h sw =
     (let s1 = update_client cid (set_hello h) (fst sw);
          sw2 = run_connect_hook e hk (s1, snd sw);
          s3 = cl_write e cid (hello_frame (own_hello (fst sw2))) (fst sw2)
      in (update_client cid (\<lambda>c. c\<lparr>cl_ready := True\<rparr>) s3, snd sw2))"

text \<open>\<open>handleClient\<close> until its loop: the first read must be a hello.\<close>

definition handleHello ::
    "env \<Rightarrow> 'w hooks \<Rightarrow> string \<Rightarrow> read_result \<Rightarrow> server \<times> 'w \<Rightarrow> server \<times> 'w" where
  "handleHello e hk cid r sw =
     (let s = fst sw; w = snd sw in
      case r of
        ReadError \<Rightarrow> (disconnect cid s, w)
      | Frame txt \<Rightarrow>
          (case unmarshal_envelope txt of
             None \<Rightarrow> (reject e cid ErrBadHello ''expected hello message'' s, w)
           | Some env \<Rightarrow>
               if env_Type env \<noteq> MsgHello then
                 (reject e cid ErrBadHello ''expected hello message'' s, w)
               else
                 (case unmarshal_hello (env_Data env) of
                    None \<Rightarrow> (reject e cid ErrBadHello ''invalid hello payload'' s, w)
                  | Some h \<Rightarrow>
                      if conn_Mode (cfg_Connection (sv_cfg s)) = ModeWhitelist
                         \<and> \<not> InWhitelist (sv_cfg s) (client_ip cid s) (h_Name h) then
                        (reject e cid ErrNotWhitelisted ''device not in whitelist'' s, w)
                      else accept_hello e hk cid h sw)))"

text \<open>
  The three parts of \<open>handleClipboard\<close>, as its locks cut it: note the key and decide
  whether the message is an echo; run the callback; broadcast.
\<close>

definition is_echo :: "env \<Rightarrow> u64 \<Rightarrow> server \<Rightarrow> bool" where
  "is_echo e key s \<longleftrightarrow>
     key = sv_lastBroadcast s
     \<and> since (now e) (sv_lastBroadcastT s) < EchoWindow (cfg_Timing (sv_cfg s))"

definition claim_key :: "env \<Rightarrow> u64 \<Rightarrow> server \<Rightarrow> bool \<times> server" where
  "claim_key e key s =
     (if is_echo e key s then (False, s)
      else (True, s\<lparr>sv_lastBroadcast := key, sv_lastBroadcastT := now e\<rparr>))"

definition run_remote_hook :: "'w hooks \<Rightarrow> content \<Rightarrow> string \<Rightarrow> 'w \<Rightarrow> 'w" where
  "run_remote_hook hk content from w =
     (case onRemoteClip hk of None \<Rightarrow> w | Some f \<Rightarrow> f content from w)"

definition handleClipboard ::
    "env \<Rightarrow> 'w hooks \<Rightarrow> string \<Rightarrow> clipboard_msg \<Rightarrow> server \<times> 'w \<Rightarrow> server \<times> 'w" where
  "handleClipboard e hk cid msg sw =
     (case MsgToContent msg of
        None \<Rightarrow> sw
      | Some content \<Rightarrow>
          let key = ContentKey content;
              s1 = noteIncoming e cid key (fst sw);
              (first, s2) = claim_key e key s1
          in if \<not> first then (s2, snd sw)
             else (Broadcast e content (cm_From msg) cid s2,
                   run_remote_hook hk content (cm_From msg) (snd sw)))"

text \<open>One round of the reading loop of \<open>handleClient\<close>.\<close>

definition handleMessage ::
    "env \<Rightarrow> 'w hooks \<Rightarrow> string \<Rightarrow> read_result \<Rightarrow> server \<times> 'w \<Rightarrow> server \<times> 'w" where
  "handleMessage e hk cid r sw =
     (let s = fst sw; w = snd sw in
      case r of
        ReadError \<Rightarrow> (disconnect cid s, w)
      | Frame txt \<Rightarrow>
          (case unmarshal_envelope txt of
             None \<Rightarrow> (sendError e cid ErrBadJSON ''malformed message'' s, w)
           | Some env \<Rightarrow>
               if env_Type env = MsgPing then (pong e cid s, w)
               else if env_Type env = MsgPong then (s, w)
               else if env_Type env = MsgClipboard then
                 (case unmarshal_clipboard (env_Data env) of
                    None \<Rightarrow> (sendError e cid ErrBadClipboard ''invalid clipboard payload'' s, w)
                  | Some cm \<Rightarrow> handleClipboard e hk cid cm sw)
               else (sendError e cid ErrUnknownType ''unrecognized message type'' s, w)))"

section \<open>The server as a machine\<close>

text \<open>
  What happens to a server, one handler step at a time: a request, what a client's goroutine
  reads, a local clipboard change, and the peers. A read is only possible where the client's
  goroutine is waiting for one.
\<close>

datatype event =
    Connect string string bool
  | Read env string read_result
  | LocalChange env content string
  | PeerUp nat
  | PeerDown nat

definition client_ready :: "string \<Rightarrow> server \<Rightarrow> bool option" where
  "client_ready cid s = map_option cl_ready (map_of (sv_clients s) cid)"

fun server_step :: "'w hooks \<Rightarrow> event \<Rightarrow> server \<times> 'w \<Rightarrow> server \<times> 'w" where
  "server_step hk (Connect token addr ok) (s, w) = (fst (handleWS token addr ok s), w)"
| "server_step hk (Read e cid r) (s, w) =
     (case client_ready cid s of
        None \<Rightarrow> (s, w)
      | Some False \<Rightarrow> handleHello e hk cid r (s, w)
      | Some True \<Rightarrow> handleMessage e hk cid r (s, w))"
| "server_step hk (LocalChange e content from) (s, w) = (BroadcastLocal e content from s, w)"
| "server_step hk (PeerUp p) (s, w) = (registerPeer p s, w)"
| "server_step hk (PeerDown p) (s, w) = (unregisterPeer p s, w)"

definition server_run :: "'w hooks \<Rightarrow> event list \<Rightarrow> server \<times> 'w \<Rightarrow> server \<times> 'w" where
  "server_run hk es sw = fold (server_step hk) es sw"

end
