(* ===== verification/ServerProps.thy ===== *)
theory ServerProps
  imports Server
begin

text \<open>
  The WebSocket server: what each operation writes and to whom, the invariant of its client
  table, and the properties of the handshake, the relay and the loop protection.
\<close>

section \<open>What is written\<close>

definition sent_to :: "string \<Rightarrow> out_event list \<Rightarrow> json list" where
  "sent_to i xs = List.map_filter (\<lambda>x. case x of Sent j m \<Rightarrow> if j = i then Some m else None | _ \<Rightarrow> None) xs"

lemma sent_to_simps [simp]:
  "sent_to i [] = []" "sent_to i (xs @ ys) = sent_to i xs @ sent_to i ys"
  "sent_to i [Sent j m] = (if j = i then [m] else [])"
  "sent_to i (Sent j m # xs) = (if j = i then m # sent_to i xs else sent_to i xs)"
  "sent_to i [Closed j r] = []" "sent_to i [Refused n] = []" "sent_to i [SentPeer p m] = []"
  by (simp_all add: sent_to_def List.map_filter_def)

text \<open>Emitting leaves the rest of the state alone.\<close>

lemma emit_fields [simp]:
  "sv_out (emit x s) = sv_out s @ [x]" "sv_clients (emit x s) = sv_clients s"
  "sv_cfg (emit x s) = sv_cfg s" "sv_peers (emit x s) = sv_peers s"
  "sv_maxClients (emit x s) = sv_maxClients s" "sv_idSeq (emit x s) = sv_idSeq s"
  "sv_lastBroadcast (emit x s) = sv_lastBroadcast s"
  "sv_lastBroadcastT (emit x s) = sv_lastBroadcastT s"
  "sv_version (emit x s) = sv_version s" "sv_started (emit x s) = sv_started s"
  by (simp_all add: emit_def)

definition append_out :: "out_event list \<Rightarrow> server \<Rightarrow> server" where
  "append_out xs s = s\<lparr>sv_out := sv_out s @ xs\<rparr>"

lemma append_out_fields [simp]:
  "sv_out (append_out x s) = sv_out s @ x" "sv_clients (append_out x s) = sv_clients s"
  "sv_cfg (append_out x s) = sv_cfg s" "sv_peers (append_out x s) = sv_peers s"
  "sv_maxClients (append_out x s) = sv_maxClients s" "sv_idSeq (append_out x s) = sv_idSeq s"
  "sv_lastBroadcast (append_out x s) = sv_lastBroadcast s"
  "sv_lastBroadcastT (append_out x s) = sv_lastBroadcastT s"
  "sv_version (append_out x s) = sv_version s" "sv_started (append_out x s) = sv_started s"
  by (simp_all add: append_out_def)

lemma append_out_twice [simp]: "append_out xs (append_out ys s) = append_out (ys @ xs) s"
  by (simp add: append_out_def)

lemma append_out_Nil [simp]: "append_out [] s = s"
  by (simp add: append_out_def)

lemma emit_append: "emit x s = append_out [x] s"
  by (simp add: emit_def append_out_def)

lemma cl_write_append: "cl_write e i m s = append_out (if wok e i then [Sent i m] else []) s"
  by (simp add: cl_write_def emit_append)

definition sent_events :: "env \<Rightarrow> json \<Rightarrow> string list \<Rightarrow> out_event list" where
  "sent_events e m ids = map (\<lambda>i. Sent i m) (filter (wok e) ids)"

definition peer_events :: "env \<Rightarrow> json \<Rightarrow> (nat \<times> bool) list \<Rightarrow> out_event list" where
  "peer_events e m ps = map (\<lambda>p. SentPeer (fst p) m) (filter (\<lambda>p. snd p \<and> pok e (fst p)) ps)"

lemma write_all_append: "write_all e m ids s = append_out (sent_events e m ids) s"
  by (induction ids arbitrary: s) (simp_all add: sent_events_def cl_write_append)

lemma send_all_append:
  "send_all e c from ps s =
     append_out (peer_events e (clipboard_frame c (UnixMilli (now e)) from) ps) s"
  by (induction ps arbitrary: s) (simp_all add: peer_events_def pc_Send_def emit_append)

lemma sent_to_peer_events [simp]: "sent_to i (peer_events e m ps) = []"
  by (simp add: sent_to_def peer_events_def List.map_filter_def)

lemma sent_to_sent_events:
  "distinct ids \<Longrightarrow> sent_to i (sent_events e m ids) = (if i \<in> set ids \<and> wok e i then [m] else [])"
  by (induction ids) (auto simp: sent_events_def sent_to_def List.map_filter_def)

definition too_big :: "server \<Rightarrow> content \<Rightarrow> bool" where
  "too_big s c \<longleftrightarrow> Kind c = KindImage \<and> int (length (Image c)) > cfg_MaxImageBytes (sv_cfg s)"

definition relay_ids :: "string \<Rightarrow> server \<Rightarrow> string list" where
  "relay_ids skip s = map fst (filter (\<lambda>(i, c). \<not> (skip \<noteq> [] \<and> i = skip)) (sv_clients s))"

definition local_ids :: "env \<Rightarrow> content \<Rightarrow> server \<Rightarrow> string list" where
  "local_ids e c s =
     map fst (filter (\<lambda>(i, cl). \<not> recentlySent e (ContentKey c) (EchoWindow (cfg_Timing (sv_cfg s))) cl)
       (sv_clients s))"

lemma Broadcast_append:
  "Broadcast e c from skip s =
     (if too_big s c then s
      else append_out
        (sent_events e (clipboard_frame c (UnixMilli (now e)) from) (relay_ids skip s)
          @ peer_events e (clipboard_frame c (UnixMilli (now e)) from) (sv_peers s)) s)"
  by (simp add: Broadcast_def too_big_def relay_ids_def Let_def write_all_append send_all_append)

lemma BroadcastLocal_append:
  "BroadcastLocal e c from s =
     append_out
       (sent_events e (clipboard_frame c (UnixMilli (now e)) from) (local_ids e c s)
         @ peer_events e (clipboard_frame c (UnixMilli (now e)) from) (sv_peers s)) s"
  by (simp add: BroadcastLocal_def local_ids_def Let_def write_all_append send_all_append)

lemma distinct_keys_filter: "distinct (keys m) \<Longrightarrow> distinct (keys (filter P m))"
  by (induction m) auto

lemma set_relay_ids: "set (relay_ids skip s) = {i \<in> set (keys (sv_clients s)). skip = [] \<or> i \<noteq> skip}"
  by (force simp: relay_ids_def)

lemma distinct_relay_ids: "distinct (keys (sv_clients s)) \<Longrightarrow> distinct (relay_ids skip s)"
  by (simp add: relay_ids_def distinct_keys_filter)

lemma distinct_local_ids: "distinct (keys (sv_clients s)) \<Longrightarrow> distinct (local_ids e c s)"
  by (simp add: local_ids_def distinct_keys_filter)

lemma set_local_ids_subset: "set (local_ids e c s) \<subseteq> set (keys (sv_clients s))"
  by (auto simp: local_ids_def)

lemma local_ids_iff:
  assumes "distinct (keys (sv_clients s))" and "map_of (sv_clients s) i = Some cl"
  shows "i \<in> set (local_ids e c s) \<longleftrightarrow>
     \<not> recentlySent e (ContentKey c) (EchoWindow (cfg_Timing (sv_cfg s))) cl"
proof -
  have "(i, c') \<in> set (sv_clients s) \<longleftrightarrow> c' = cl" for c'
    using assms map_of_eq_Some_iff [OF assms(1), of i c'] by auto
  then show ?thesis
    by (force simp: local_ids_def)
qed

section \<open>The invariant of the client table\<close>

definition client_ok :: "config \<Rightarrow> string \<times> client \<Rightarrow> bool" where
  "client_ok cfg p \<longleftrightarrow>
     cl_id (snd p) = fst p \<and>
     (cl_ready (snd p) \<and> conn_Mode (cfg_Connection cfg) = ModeWhitelist \<longrightarrow>
        InWhitelist cfg (cl_ip (snd p)) (cl_name (snd p)))"

definition server_inv :: "server \<Rightarrow> bool" where
  "server_inv s \<longleftrightarrow>
     distinct (keys (sv_clients s)) \<and>
     list_all (client_ok (sv_cfg s)) (sv_clients s) \<and>
     (0 < sv_maxClients s \<longrightarrow> int (length (sv_clients s)) \<le> sv_maxClients s) \<and>
     distinct (keys (sv_peers s))"

lemma server_inv_append [simp]: "server_inv (append_out xs s) = server_inv s"
  by (simp add: server_inv_def)

lemma server_inv_emit [simp]: "server_inv (emit x s) = server_inv s"
  by (simp add: emit_append)

lemma server_inv_New: "server_inv (New e c v)"
  by (simp add: server_inv_def New_def)

lemma server_inv_Broadcast [simp]: "server_inv (Broadcast e c from skip s) = server_inv s"
  by (simp add: Broadcast_append)

lemma server_inv_BroadcastLocal [simp]: "server_inv (BroadcastLocal e c from s) = server_inv s"
  by (simp add: BroadcastLocal_append)

lemma server_inv_sendError [simp]: "server_inv (sendError e i code msg s) = server_inv s"
  by (simp add: sendError_def cl_write_append)

lemma server_inv_pong [simp]: "server_inv (pong e i s) = server_inv s"
  by (simp add: pong_def cl_write_append)

lemma server_inv_disconnect [inv_intros]: "server_inv s \<Longrightarrow> server_inv (disconnect i s)"
proof -
  assume inv: "server_inv s"
  have "int (length (alist_del i (sv_clients s))) \<le> int (length (sv_clients s))"
    by (simp add: length_del_le)
  moreover have "list_all (client_ok (sv_cfg s)) (alist_del i (sv_clients s))"
    using inv set_del_subset [of i "sv_clients s"] by (auto simp: server_inv_def list_all_iff)
  ultimately show ?thesis
    using inv by (auto simp: server_inv_def disconnect_def)
qed

lemma server_inv_update_client [inv_intros]:
  assumes "server_inv s"
    and "\<And>c. map_of (sv_clients s) i = Some c \<Longrightarrow> client_ok (sv_cfg s) (i, c) \<Longrightarrow>
      client_ok (sv_cfg s) (i, f c)"
  shows "server_inv (update_client i f s)"
proof -
  have "list_all (client_ok (sv_cfg s)) (alist_adjust i f (sv_clients s))"
    using assms
    by (auto simp: list_all_iff server_inv_def dest!: map_of_is_SomeI elim!: set_adjustE)
  then show ?thesis
    using assms(1) by (simp add: server_inv_def update_client_def)
qed

lemma length_put_le: "length (alist_put k v m) \<le> Suc (length m)"
  by (induction m) (auto simp: alist_put_def)

lemma set_put_subset: "set (alist_put k v m) \<subseteq> insert (k, v) (set m)"
  by (induction m) (auto simp: alist_put_def)

lemma newID_fields [simp]:
  "sv_clients (snd (newID s)) = sv_clients s" "sv_cfg (snd (newID s)) = sv_cfg s"
  "sv_maxClients (snd (newID s)) = sv_maxClients s" "sv_peers (snd (newID s)) = sv_peers s"
  "sv_out (snd (newID s)) = sv_out s" "sv_idSeq (snd (newID s)) = sv_idSeq s + 1"
  by (simp_all add: newID_def Let_def)

lemma client_ok_new: "client_ok cfg (i, new_client i ip)"
  by (simp add: client_ok_def new_client_def)

lemma server_inv_handleWS [inv_intros]:
  assumes "server_inv s"
  shows "server_inv (fst (handleWS token addr ok s))"
proof -
  obtain i s1 where i: "newID s = (i, s1)" by (cases "newID s")
  have s1: "sv_clients s1 = sv_clients s" "sv_cfg s1 = sv_cfg s" "sv_peers s1 = sv_peers s"
      "sv_maxClients s1 = sv_maxClients s"
    using newID_fields [of s] i by simp_all
  have inv1: "server_inv s1" using assms s1 by (simp add: server_inv_def)
  let ?cs = "alist_put i (new_client i (clientIP addr)) (sv_clients s1)"
  have "list_all (client_ok (sv_cfg s1)) ?cs"
    using inv1 set_put_subset [of i "new_client i (clientIP addr)" "sv_clients s1"] client_ok_new
    by (auto simp: list_all_iff server_inv_def)
  moreover have "0 < sv_maxClients s1 \<Longrightarrow> int (length (sv_clients s1)) < sv_maxClients s1 \<Longrightarrow>
      int (length ?cs) \<le> sv_maxClients s1"
    using length_put_le [of i "new_client i (clientIP addr)" "sv_clients s1"] by linarith
  ultimately have "\<not> (0 < sv_maxClients s1 \<and> sv_maxClients s1 \<le> int (length (sv_clients s1))) \<Longrightarrow>
      server_inv (s1\<lparr>sv_clients := ?cs\<rparr>)"
    using inv1 by (auto simp: server_inv_def)
  then show ?thesis
    using assms inv1 i by (simp add: handleWS_def Let_def)
qed

lemma server_inv_registerPeer [inv_intros]: "server_inv s \<Longrightarrow> server_inv (registerPeer p s)"
  by (simp add: server_inv_def registerPeer_def)

lemma server_inv_unregisterPeer [inv_intros]: "server_inv s \<Longrightarrow> server_inv (unregisterPeer p s)"
  by (simp add: server_inv_def unregisterPeer_def)

lemma server_inv_noteIncoming [inv_intros]: "server_inv s \<Longrightarrow> server_inv (noteIncoming e i k s)"
  unfolding noteIncoming_def by (erule server_inv_update_client) (simp add: client_ok_def)

lemma server_inv_claim_key [inv_intros]: "server_inv s \<Longrightarrow> server_inv (snd (claim_key e k s))"
  by (simp add: claim_key_def server_inv_def)

text \<open>A connect hook that keeps the invariant and the clients.\<close>

definition hook_ok :: "'w hooks \<Rightarrow> bool" where
  "hook_ok hk \<longleftrightarrow>
     (\<forall>e s w. server_inv s \<longrightarrow>
        server_inv (fst (run_connect_hook e hk (s, w))) \<and>
        sv_clients (fst (run_connect_hook e hk (s, w))) = sv_clients s \<and>
        sv_cfg (fst (run_connect_hook e hk (s, w))) = sv_cfg s)"

lemma hook_ok_None [simp]: "onClientConnect hk = None \<Longrightarrow> hook_ok hk"
  by (simp add: hook_ok_def run_connect_hook_def)

lemma server_inv_handleClipboard [inv_intros]:
  "server_inv (fst sw) \<Longrightarrow> server_inv (fst (handleClipboard e hk i m sw))"
  using server_inv_claim_key [OF server_inv_noteIncoming, of "fst sw" e]
  by (auto simp: handleClipboard_def Let_def split: option.split prod.split) (metis snd_conv)+

lemma server_inv_handleMessage [inv_intros]:
  "server_inv (fst sw) \<Longrightarrow> server_inv (fst (handleMessage e hk i r sw))"
  by (auto simp: handleMessage_def Let_def intro: inv_intros split: read_result.split option.split)

lemma accept_hello_parts:
  fixes e hk i h s w
  defines "s1 \<equiv> update_client i (set_hello h) s"
  defines "s2 \<equiv> fst (run_connect_hook e hk (s1, w))"
  shows "fst (accept_hello e hk i h (s, w)) =
    update_client i (\<lambda>c. c\<lparr>cl_ready := True\<rparr>) (cl_write e i (hello_frame (own_hello s2)) s2)"
  by (simp add: accept_hello_def s1_def s2_def Let_def)

lemma server_inv_accept_hello:
  assumes inv: "server_inv s" and hk: "hook_ok hk"
    and cl: "map_of (sv_clients s) i = Some c" and new: "\<not> cl_ready c"
    and allowed: "conn_Mode (cfg_Connection (sv_cfg s)) = ModeWhitelist \<longrightarrow>
        InWhitelist (sv_cfg s) (client_ip i s) (h_Name h)"
  shows "server_inv (fst (accept_hello e hk i h (s, w)))"
proof -
  let ?s1 = "update_client i (set_hello h) s"
  let ?s2 = "fst (run_connect_hook e hk (?s1, w))"
  let ?s3 = "cl_write e i (hello_frame (own_hello ?s2)) ?s2"
  have inv1: "server_inv ?s1"
  proof (rule server_inv_update_client [OF inv])
    fix d
    assume "map_of (sv_clients s) i = Some d" and "client_ok (sv_cfg s) (i, d)"
    with cl new show "client_ok (sv_cfg s) (i, set_hello h d)"
      by (simp add: client_ok_def set_hello_def)
  qed
  have cfg1: "sv_cfg ?s1 = sv_cfg s"
    by (simp add: update_client_def)
  have inv2: "server_inv ?s2" and cl2: "sv_clients ?s2 = sv_clients ?s1"
    and cfg2: "sv_cfg ?s2 = sv_cfg s"
    using hk inv1 cfg1 unfolding hook_ok_def by metis+
  have "server_inv ?s3"
    using inv2 by (simp add: cl_write_append)
  then have "server_inv (update_client i (\<lambda>c. c\<lparr>cl_ready := True\<rparr>) ?s3)"
  proof (rule server_inv_update_client)
    fix d
    assume d: "map_of (sv_clients ?s3) i = Some d" and ok: "client_ok (sv_cfg ?s3) (i, d)"
    have "d = set_hello h c"
      using d cl cl2 by (simp add: cl_write_append update_client_def)
    moreover have "client_ip i s = cl_ip c"
      using cl by (simp add: client_ip_def)
    ultimately show "client_ok (sv_cfg ?s3) (i, d\<lparr>cl_ready := True\<rparr>)"
      using ok allowed cfg2 by (simp add: client_ok_def cl_write_append set_hello_def)
  qed
  then show ?thesis
    by (simp add: accept_hello_parts)
qed

lemma server_inv_reject [inv_intros]: "server_inv s \<Longrightarrow> server_inv (reject e i code msg s)"
  by (simp add: reject_def server_inv_disconnect)

lemma server_inv_handleHello [inv_intros]:
  assumes "server_inv (fst sw)" and "hook_ok hk"
    and "map_of (sv_clients (fst sw)) i = Some c" and "\<not> cl_ready c"
  shows "server_inv (fst (handleHello e hk i r sw))"
  using assms server_inv_accept_hello [OF assms, of _ e "snd sw"]
  by (auto simp: handleHello_def Let_def intro: inv_intros split: read_result.split option.split)

lemma server_inv_step [inv_intros]:
  assumes "hook_ok hk" and "server_inv (fst sw)"
  shows "server_inv (fst (server_step hk x sw))"
proof (cases x)
  case (Read e i r)
  with assms show ?thesis
    by (cases sw)
      (auto simp: client_ready_def intro: server_inv_handleHello server_inv_handleMessage
        split: option.split bool.split)
qed (use assms in \<open>cases sw; auto intro: inv_intros\<close>)+

text \<open>The daemon's server, with any remote-clip callback and no connect hook.\<close>

definition daemon_hooks :: "(content \<Rightarrow> string \<Rightarrow> 'w \<Rightarrow> 'w) \<Rightarrow> 'w hooks" where
  "daemon_hooks cb = \<lparr>onRemoteClip = Some cb, onClientConnect = None\<rparr>"

definition new_server :: "int \<Rightarrow> server \<Rightarrow> bool" where
  "new_server n s \<longleftrightarrow> (\<exists>e c v. s = SetMaxClients n (New e c v))"

lemma server_inv_new: "new_server n s \<Longrightarrow> server_inv s"
  by (auto simp: new_server_def SetMaxClients_def New_def server_inv_def)

interpretation daemon: machine "\<lambda>sw. new_server n (fst sw)" "server_step (daemon_hooks cb)"
    "\<lambda>sw. server_inv (fst sw)" for n cb
  by unfold_locales (auto intro: server_inv_new server_inv_step simp: daemon_hooks_def)

section \<open>Branches of the handlers\<close>

lemma unmarshal_bare_frame [simp]:
  "unmarshal_envelope (Some (bare_frame typ)) = Some \<lparr>env_Type = to_valid_utf8 typ, env_Data = None\<rparr>"
  by (simp add: bare_frame_def)

lemma unmarshal_clipboard_frame [simp]:
  "unmarshal_envelope (Some (clipboard_frame c ts from)) =
     Some \<lparr>env_Type = MsgClipboard, env_Data = Some (marshal_clipboard (ContentMsg c ts from))\<rparr>"
  by (simp add: clipboard_frame_def)

lemma unmarshal_hello_frame [simp]:
  "unmarshal_envelope (Some (hello_frame h)) =
     Some \<lparr>env_Type = MsgHello, env_Data = Some (marshal_hello h)\<rparr>"
  by (simp add: hello_frame_def)

lemma msg_types_distinct [simp]:
  "MsgPing \<noteq> MsgPong" "MsgPong \<noteq> MsgPing" "MsgClipboard \<noteq> MsgPing" "MsgClipboard \<noteq> MsgPong"
  "MsgPing \<noteq> MsgClipboard" "MsgPong \<noteq> MsgClipboard" "MsgHello \<noteq> MsgClipboard"
  "MsgClipboard \<noteq> MsgHello" "MsgPing \<noteq> MsgHello" "MsgPong \<noteq> MsgHello"
  by (simp_all add: msg_type_defs)

text \<open>The frames that carry content, among the messages of the server.\<close>

definition is_clip_frame :: "json \<Rightarrow> bool" where
  "is_clip_frame m \<longleftrightarrow> (case unmarshal_envelope (Some m) of None \<Rightarrow> False | Some env \<Rightarrow> env_Type env = MsgClipboard)"

lemma is_clip_frame_simps [simp]:
  "is_clip_frame (clipboard_frame c ts from)" "\<not> is_clip_frame (hello_frame h)"
  "\<not> is_clip_frame (bare_frame MsgPong)" "\<not> is_clip_frame (error_frame code msg)"
  by (simp_all add: is_clip_frame_def error_frame_def) (simp add: msg_type_defs)

lemma noteIncoming_fields [simp]:
  "sv_out (noteIncoming e i k s) = sv_out s" "sv_cfg (noteIncoming e i k s) = sv_cfg s"
  "keys (sv_clients (noteIncoming e i k s)) = keys (sv_clients s)"
  "sv_peers (noteIncoming e i k s) = sv_peers s" "sv_idSeq (noteIncoming e i k s) = sv_idSeq s"
  "sv_lastBroadcast (noteIncoming e i k s) = sv_lastBroadcast s"
  "sv_lastBroadcastT (noteIncoming e i k s) = sv_lastBroadcastT s"
  by (simp_all add: noteIncoming_def update_client_def)

lemma is_echo_noteIncoming [simp]: "is_echo e k (noteIncoming e' i k' s) = is_echo e k s"
  by (simp add: is_echo_def)

lemma is_echo_BroadcastLocal [simp]: "is_echo e k (BroadcastLocal e' c from s) = is_echo e k s"
  by (simp add: is_echo_def BroadcastLocal_append)

lemma is_echo_Broadcast [simp]: "is_echo e k (Broadcast e' c from skip s) = is_echo e k s"
  by (simp add: is_echo_def Broadcast_append)

lemma handleClipboard_echo:
  "MsgToContent m = Some c \<Longrightarrow> is_echo e (ContentKey c) (fst sw) \<Longrightarrow>
   handleClipboard e hk i m sw = (noteIncoming e i (ContentKey c) (fst sw), snd sw)"
  by (simp add: handleClipboard_def claim_key_def Let_def)

definition relayed :: "env \<Rightarrow> string \<Rightarrow> content \<Rightarrow> string \<Rightarrow> server \<Rightarrow> server" where
  "relayed e i c from s =
     Broadcast e c from i
       ((noteIncoming e i (ContentKey c) s)\<lparr>sv_lastBroadcast := ContentKey c, sv_lastBroadcastT := now e\<rparr>)"

lemma handleClipboard_first:
  "MsgToContent m = Some c \<Longrightarrow> \<not> is_echo e (ContentKey c) (fst sw) \<Longrightarrow>
   handleClipboard e hk i m sw =
     (relayed e i c (cm_From m) (fst sw), run_remote_hook hk c (cm_From m) (snd sw))"
  by (simp add: handleClipboard_def claim_key_def relayed_def Let_def)

lemma handleClipboard_empty:
  "MsgToContent m = None \<Longrightarrow> handleClipboard e hk i m sw = sw"
  by (simp add: handleClipboard_def)

text \<open>What a relay writes: one frame to every client but the sender.\<close>

lemma keys_filter_adjust:
  "keys (filter (\<lambda>(i, c). P i) (alist_adjust k f m)) = keys (filter (\<lambda>(i, c). P i) m)"
  by (induction m) (auto simp: alist_adjust_def)

lemma relay_ids_update_client [simp]: "relay_ids j (update_client i f s) = relay_ids j s"
  by (simp add: relay_ids_def update_client_def keys_filter_adjust)

lemma relay_ids_noteIncoming [simp]: "relay_ids j (noteIncoming e i k s) = relay_ids j s"
  by (simp add: noteIncoming_def)

lemma relay_ids_claim [simp]:
  "relay_ids j (s\<lparr>sv_lastBroadcast := k, sv_lastBroadcastT := t\<rparr>) = relay_ids j s"
  by (simp add: relay_ids_def)

lemma sv_out_relayed:
  "sv_out (relayed e i c from s) = sv_out s @
     (if too_big s c then []
      else sent_events e (clipboard_frame c (UnixMilli (now e)) from) (relay_ids i s)
        @ peer_events e (clipboard_frame c (UnixMilli (now e)) from) (sv_peers s))"
  by (simp add: relayed_def Broadcast_append too_big_def)

lemma sent_to_relayed:
  assumes "distinct (keys (sv_clients s))"
  shows "sent_to j (sv_out (relayed e i c from s)) = sent_to j (sv_out s) @
    (if \<not> too_big s c \<and> j \<in> set (keys (sv_clients s)) \<and> (i = [] \<or> j \<noteq> i) \<and> wok e j
     then [clipboard_frame c (UnixMilli (now e)) from] else [])"
  using assms
  by (simp add: sv_out_relayed sent_to_sent_events distinct_relay_ids set_relay_ids)

lemma is_echo_after_claim:
  "since (now e) t < EchoWindow (cfg_Timing (sv_cfg s)) \<Longrightarrow>
   is_echo e k (s\<lparr>sv_lastBroadcast := k, sv_lastBroadcastT := t\<rparr>)"
  by (simp add: is_echo_def)

section \<open>Identifiers and closed connections\<close>

text \<open>
  No message is written to a connection after it was closed. The trace is read backwards:
  each write goes to an identifier that no earlier output closed.
\<close>

definition closed_ids :: "out_event list \<Rightarrow> string set" where
  "closed_ids xs = {i. \<exists>r. Closed i r \<in> set xs}"

fun wf_trace_rev :: "out_event list \<Rightarrow> bool" where
  "wf_trace_rev [] = True"
| "wf_trace_rev (x # xs) =
     (wf_trace_rev xs \<and> (case x of Sent i m \<Rightarrow> i \<notin> closed_ids xs | _ \<Rightarrow> True))"

definition wf_trace :: "out_event list \<Rightarrow> bool" where
  "wf_trace xs = wf_trace_rev (rev xs)"

lemma closed_ids_simps [simp]:
  "closed_ids [] = {}" "closed_ids (xs @ ys) = closed_ids xs \<union> closed_ids ys"
  "closed_ids [Sent i m] = {}" "closed_ids [Closed i r] = {i}" "closed_ids [Refused n] = {}"
  "closed_ids (rev xs) = closed_ids xs"
  by (auto simp: closed_ids_def)

lemma wf_trace_Nil [simp]: "wf_trace []"
  by (simp add: wf_trace_def)

lemma wf_trace_snoc [simp]:
  "wf_trace (xs @ [x]) \<longleftrightarrow> wf_trace xs \<and> (case x of Sent i m \<Rightarrow> i \<notin> closed_ids xs | _ \<Rightarrow> True)"
  by (simp add: wf_trace_def split: out_event.split)

lemma wf_trace_sent_events:
  "wf_trace xs \<Longrightarrow> set ids \<inter> closed_ids xs = {} \<Longrightarrow>
   wf_trace (xs @ sent_events e m ids) \<and> closed_ids (xs @ sent_events e m ids) = closed_ids xs"
proof (induction ids rule: rev_induct)
  case (snoc i ids)
  then show ?case
    by (auto simp: sent_events_def simp flip: append_assoc)
qed (simp add: sent_events_def)

lemma wf_trace_peer_events:
  "wf_trace xs \<Longrightarrow> wf_trace (xs @ peer_events e m ps) \<and> closed_ids (xs @ peer_events e m ps) = closed_ids xs"
proof (induction ps rule: rev_induct)
  case (snoc p ps)
  then show ?case
    by (auto simp: peer_events_def closed_ids_def simp flip: append_assoc)
qed (simp add: peer_events_def)

lemma wf_trace_no_send:
  "wf_trace (xs @ Closed i r # ys) \<Longrightarrow> sent_to i ys = []"
proof (induction ys rule: rev_induct)
  case (snoc y ys)
  have eq: "xs @ Closed i r # ys @ [y] = (xs @ Closed i r # ys) @ [y]" by simp
  have "i \<in> closed_ids (xs @ Closed i r # ys)"
    by (auto simp: closed_ids_def)
  with snoc show ?case
    unfolding eq wf_trace_snoc by (cases y) auto
qed simp

text \<open>The identifiers issued so far; connected clients are open, closed ones stay closed.\<close>

definition issued :: "server \<Rightarrow> string set" where
  "issued s = {format_base 36 n | n. n \<le> unat (sv_idSeq s)}"

definition client_ids :: "server \<Rightarrow> string set" where
  "client_ids s = set (keys (sv_clients s))"

lemma client_ids_simps [simp]:
  "client_ids (s\<lparr>sv_clients := alist_put i c cs\<rparr>) = insert i (set (keys cs))"
  "client_ids (append_out xs s) = client_ids s" "client_ids (emit x s) = client_ids s"
  "client_ids (update_client i f s) = client_ids s"
  "client_ids (cl_write e i m s) = client_ids s"
  "client_ids (disconnect i s) = client_ids s - {i}"
  unfolding client_ids_def update_client_def cl_write_append disconnect_def
  by (simp_all del: set_map)

lemma issued_simps [simp]:
  "issued (append_out xs s) = issued s" "issued (emit x s) = issued s"
  "issued (update_client i f s) = issued s" "issued (cl_write e i m s) = issued s"
  "issued (disconnect i s) = issued s" "issued (s\<lparr>sv_clients := cs\<rparr>) = issued s"
  by (simp_all add: issued_def update_client_def cl_write_append disconnect_def)

definition trace_inv :: "server \<Rightarrow> bool" where
  "trace_inv s \<longleftrightarrow>
     wf_trace (sv_out s) \<and>
     client_ids s \<inter> closed_ids (sv_out s) = {} \<and>
     client_ids s \<union> closed_ids (sv_out s) \<subseteq> issued s"

lemma newID_fresh:
  assumes "unat (sv_idSeq s) < 2 ^ 64 - 1"
  shows "fst (newID s) \<notin> issued s" and "fst (newID s) \<in> issued (snd (newID s))"
    and "issued s \<subseteq> issued (snd (newID s))"
proof -
  have n: "unat (sv_idSeq s + 1) = unat (sv_idSeq s) + 1"
    using assms by (subst unat_add_lem [THEN iffD1]) (simp_all add: unat_add_lem)
  show "fst (newID s) \<notin> issued s"
    using n by (auto simp: issued_def newID_def Let_def format_base_inject)
  show "fst (newID s) \<in> issued (snd (newID s))"
    by (auto simp: issued_def newID_def Let_def)
  show "issued s \<subseteq> issued (snd (newID s))"
    using n by (force simp: issued_def newID_def Let_def)
qed

end
