(* ===== verification/Relay.thy ===== *)
theory Relay
  imports ServerProps
begin

text \<open>
  Properties of the relay (\<open>broadcast.go\<close> and the clipboard branch of \<open>handlers.go\<close>): who
  receives a clipboard message, how often, and what the echo window suppresses.
\<close>

section \<open>Events that do not touch the echo state\<close>

text \<open>Everything but a read by a client's goroutine.\<close>

fun quiet :: "event \<Rightarrow> bool" where
  "quiet (Read _ _ _) = False"
| "quiet _ = True"

text \<open>What the echo check reads.\<close>

definition echo_state :: "server \<Rightarrow> u64 \<times> time \<times> config" where
  "echo_state s = (sv_lastBroadcast s, sv_lastBroadcastT s, sv_cfg s)"

lemma is_echo_echo_state: "echo_state s = echo_state s' \<Longrightarrow> is_echo e k s = is_echo e k s'"
  by (simp add: echo_state_def is_echo_def)

lemma echo_state_handleWS [frame_simps]: "echo_state (fst (handleWS t a ok s)) = echo_state s"
  by (auto simp: handleWS_def echo_state_def newID_def Let_def emit_def)

lemma echo_state_BroadcastLocal [frame_simps]: "echo_state (BroadcastLocal e c from s) = echo_state s"
  by (simp add: echo_state_def BroadcastLocal_append)

lemma echo_state_peers [frame_simps]:
  "echo_state (registerPeer p s) = echo_state s" "echo_state (unregisterPeer p s) = echo_state s"
  by (simp_all add: echo_state_def registerPeer_def unregisterPeer_def)

lemma echo_state_quiet: "quiet x \<Longrightarrow> echo_state (fst (server_step hk x sw)) = echo_state (fst sw)"
  by (cases x; cases sw) (simp_all add: frame_simps)

lemma snd_quiet: "quiet x \<Longrightarrow> snd (server_step hk x sw) = snd sw"
  by (cases x; cases sw) simp_all

lemma quiet_run:
  "list_all quiet es \<Longrightarrow>
   echo_state (fst (server_run hk es sw)) = echo_state (fst sw) \<and> snd (server_run hk es sw) = snd sw"
  by (induction es arbitrary: sw) (simp_all add: server_run_def echo_state_quiet snd_quiet)

lemma echo_state_relayed:
  "echo_state (relayed e i c from s) = (ContentKey c, now e, sv_cfg s)"
  by (simp add: echo_state_def relayed_def Broadcast_append)

text \<open>The peer part of what a broadcast writes.\<close>

abbreviation peer_part :: "out_event list \<Rightarrow> out_event list" where
  "peer_part xs \<equiv> filter (\<lambda>x. case x of SentPeer _ _ \<Rightarrow> True | _ \<Rightarrow> False) xs"

lemma only_peers [simp]:
  "peer_part (sent_events e m ids) = []" "peer_part (peer_events e m ps) = peer_events e m ps"
  by (simp_all add: sent_events_def peer_events_def filter_map comp_def)

section \<open>Examples\<close>

definition ex_config :: config where
  "ex_config = Default sample_env"

definition ex_env :: env where
  "ex_env = \<lparr>now = 1700000000 * second, wok = (\<lambda>_. True), pok = (\<lambda>_. True)\<rparr>"

definition ex_client :: "string \<Rightarrow> client" where
  "ex_client i = (new_client i ''10.0.0.7'')\<lparr>cl_name := ''phone'', cl_ready := True\<rparr>"

definition ex_server :: server where
  "ex_server = (New ex_env ex_config ''1'')
     \<lparr>sv_clients := [(''1'', ex_client ''1''), (''2'', ex_client ''2'')], sv_idSeq := 2\<rparr>"

definition ex_content :: content where
  "ex_content = text_content ''hi''"

definition ex_msg :: clipboard_msg where
  "ex_msg = ContentMsg ex_content 1 ''phone''"

definition ex_hooks :: "content list hooks" where
  "ex_hooks = daemon_hooks (\<lambda>c from w. w @ [c])"

lemma ex_cfg [simp]:
  "EchoWindow (cfg_Timing ex_config) = 30 * second" "cfg_MaxImageBytes ex_config = 10 * 1024 * 1024"
  "cfg_Token ex_config = []"
  by (simp_all add: ex_config_def Default_def Let_def default_timing_def)

lemma ex_server_fields [simp]:
  "sv_cfg ex_server = ex_config" "sv_out ex_server = []" "sv_peers ex_server = []"
  "sv_clients ex_server = [(''1'', ex_client ''1''), (''2'', ex_client ''2'')]"
  "sv_lastBroadcast ex_server = 0" "sv_lastBroadcastT ex_server = zero_time"
  "sv_maxClients ex_server = 0"
  by (simp_all add: ex_server_def New_def)

lemma ex_client_fields [simp]:
  "cl_id (ex_client i) = i" "cl_ready (ex_client i)" "cl_lastInKey (ex_client i) = 0"
  "cl_lastInAt (ex_client i) = zero_time"
  by (simp_all add: ex_client_def new_client_def)

lemma ex_mode [simp]: "conn_Mode (cfg_Connection ex_config) = ModeDiscover"
  by (simp add: ex_config_def Default_def Let_def)

lemma ex_inv [simp]: "server_inv ex_server"
  by (simp add: server_inv_def client_ok_def)

lemma ex_env_fields [simp]: "now ex_env = 1700000000 * second" "wok ex_env i" "pok ex_env p"
  by (simp_all add: ex_env_def)

lemma since_zero_time [simp]: "0 \<le> t \<Longrightarrow> since t zero_time = 2 ^ 63 - 1"
  by (simp add: since_def zero_time_def)

lemma ex_not_echo [simp]: "\<not> is_echo ex_env k ex_server"
  by (simp add: is_echo_def second_def)

lemma ex_content_fields [simp]:
  "Kind ex_content = KindText" "\<not> too_big s ex_content" "sendable ex_content"
  by (simp_all add: ex_content_def too_big_def sendable_def)

lemma ex_msg_content [simp]: "MsgToContent ex_msg = Some ex_content" "cm_From ex_msg = ''phone''"
  by (simp_all add: ex_msg_def MsgToContent_ContentMsg ex_content_def sendable_def)

section \<open>Who receives a relayed message\<close>

text \<open>C1: a clipboard message that is no echo and not too big is relayed once: every other
  connected client whose connection takes the write gets exactly one frame with the content
  and the name of its origin, the sender gets nothing, each connected peer gets one, and the
  callback of the program runs once.\<close>

theorem relay_reaches_every_other_client:
  assumes inv: "server_inv s" and msg: "MsgToContent m = Some c"
    and new: "\<not> is_echo e (ContentKey c) s" and size: "\<not> too_big s c"
    and i: "i \<noteq> []" and run: "handleClipboard e hk i m (s, w) = (s', w')"
  shows "sent_to j (sv_out s') = sent_to j (sv_out s) @
      (if j \<in> set (keys (sv_clients s)) \<and> j \<noteq> i \<and> wok e j
       then [clipboard_frame c (UnixMilli (now e)) (cm_From m)] else [])
    \<and> peer_part (sv_out s') = peer_part (sv_out s) @
      peer_events e (clipboard_frame c (UnixMilli (now e)) (cm_From m)) (sv_peers s)
    \<and> w' = run_remote_hook hk c (cm_From m) w"
proof -
  have s': "s' = relayed e i c (cm_From m) s" and w': "w' = run_remote_hook hk c (cm_From m) w"
    using run new by (simp_all add: handleClipboard_first [OF msg])
  have "distinct (keys (sv_clients s))"
    using inv by (simp add: server_inv_def)
  then show ?thesis
    using i size unfolding s' w'
    by (simp add: sent_to_relayed) (simp add: sv_out_relayed only_peers)
qed

theorem relay_reaches_every_other_client_witness:
  "case handleClipboard ex_env ex_hooks ''1'' ex_msg (ex_server, []) of
     (s', w') \<Rightarrow> sent_to ''2'' (sv_out s') = [clipboard_frame ex_content 1700000000000 ''phone'']
       \<and> w' = [ex_content]"
  using relay_reaches_every_other_client [of ex_server ex_msg ex_content ex_env "''1''" ex_hooks "[]"
      "fst (handleClipboard ex_env ex_hooks ''1'' ex_msg (ex_server, []))"
      "snd (handleClipboard ex_env ex_hooks ''1'' ex_msg (ex_server, []))" "''2''"]
  by (simp add: UnixMilli_def second_def case_prod_beta run_remote_hook_def ex_hooks_def daemon_hooks_def)

text \<open>The echo window: after a clipboard message was accepted, a second message with the
  same content, from any client, that comes within the echo window writes nothing and does not
  call the program, whatever connections, local changes and peer events happened in between.\<close>

lemma echo_within_window_suppressed:
  assumes "MsgToContent m = Some c" and "\<not> is_echo e (ContentKey c) s"
    and quiet: "list_all quiet es"
    and "MsgToContent m' = Some c'" and "ContentKey c' = ContentKey c"
    and "since (now e') (now e) < EchoWindow (cfg_Timing (sv_cfg s))"
    and mid: "server_run hk es (handleClipboard e hk i m (s, w)) = (s1, w1)"
    and fin: "handleClipboard e' hk j m' (s1, w1) = (s2, w2)"
  shows "sv_out s2 = sv_out s1 \<and> w2 = w1 \<and> keys (sv_clients s2) = keys (sv_clients s1)"
proof -
  have "echo_state s1 = (ContentKey c, now e, sv_cfg s)"
    using quiet_run [OF quiet, of hk "handleClipboard e hk i m (s, w)"] mid assms(1,2)
    by (simp add: handleClipboard_first echo_state_relayed)
  then have "is_echo e' (ContentKey c') s1"
    using assms(5,6) by (simp add: is_echo_def echo_state_def)
  then show ?thesis
    using fin handleClipboard_echo [OF assms(4), of e' "(s1, w1)" hk j] by auto
qed

definition ex_env2 :: env where
  "ex_env2 = ex_env\<lparr>now := 1700000029 * second\<rparr>"

lemma echo_within_window_suppressed_example:
  "case server_run ex_hooks [LocalChange ex_env ex_content ''desk'', PeerUp 1]
       (handleClipboard ex_env ex_hooks ''1'' ex_msg (ex_server, [])) of
     (s1, w1) \<Rightarrow> snd (handleClipboard ex_env2 ex_hooks ''2'' ex_msg (s1, w1)) = w1"
proof -
  let ?m = "server_run ex_hooks [LocalChange ex_env ex_content ''desk'', PeerUp 1]
       (handleClipboard ex_env ex_hooks ''1'' ex_msg (ex_server, []))"
  let ?f = "handleClipboard ex_env2 ex_hooks ''2'' ex_msg (fst ?m, snd ?m)"
  have "snd ?f = snd ?m"
    using echo_within_window_suppressed [of ex_msg ex_content ex_env ex_server
        "[LocalChange ex_env ex_content ''desk'', PeerUp 1]" ex_msg ex_content ex_env2 ex_hooks
        "''1''" "[]" "fst ?m" "snd ?m" "''2''" "fst ?f" "snd ?f"]
    by (simp add: ex_env2_def second_def since_def)
  then show ?thesis
    by (simp add: case_prod_beta)
qed

section \<open>Local changes\<close>

text \<open>A local clipboard change goes to exactly the clients whose last received message is
  not the same content within the echo window, one frame each, and to every connected peer. No
  size limit applies: what \<open>max_image_bytes\<close> would drop in a relay is sent here.\<close>

lemma local_change_recipients:
  assumes "server_inv s"
  shows "sent_to i (sv_out (BroadcastLocal e c from s)) = sent_to i (sv_out s) @
      (case map_of (sv_clients s) i of
         None \<Rightarrow> []
       | Some cl \<Rightarrow>
           if wok e i \<and> \<not> recentlySent e (ContentKey c) (EchoWindow (cfg_Timing (sv_cfg s))) cl
           then [clipboard_frame c (UnixMilli (now e)) from] else [])
    \<and> peer_part (sv_out (BroadcastLocal e c from s)) = peer_part (sv_out s) @
        peer_events e (clipboard_frame c (UnixMilli (now e)) from) (sv_peers s)"
proof -
  have d: "distinct (keys (sv_clients s))"
    using assms by (simp add: server_inv_def)
  have "i \<in> set (local_ids e c s) \<longleftrightarrow>
      (\<exists>cl. map_of (sv_clients s) i = Some cl \<and>
         \<not> recentlySent e (ContentKey c) (EchoWindow (cfg_Timing (sv_cfg s))) cl)"
    using local_ids_iff [OF d, of i _ e c] set_local_ids_subset [of e c s]
    by (cases "map_of (sv_clients s) i")
      (auto simp: map_of_eq_None_iff dest: map_of_SomeD intro: rev_image_eqI)
  then show ?thesis
    by (auto simp: BroadcastLocal_append sent_to_sent_events [OF distinct_local_ids [OF d]]
      split: option.split)
qed

lemma local_change_recipients_example:
  "sent_to ''1'' (sv_out (BroadcastLocal ex_env ex_content ''desk'' ex_server)) =
     [clipboard_frame ex_content 1700000000000 ''desk'']"
  using local_change_recipients [OF ex_inv, of "''1''" ex_env ex_content "''desk''"]
  by (simp add: recentlySent_def second_def UnixMilli_def)

text \<open>The image limit is kept by one of the two broadcasts only: an image above
  \<open>max_image_bytes\<close> is dropped by \<open>Broadcast\<close> (the state does not change) and sent by
  \<open>BroadcastLocal\<close> to every client that did not send it.\<close>

lemma image_limit_only_in_relay:
  assumes "server_inv s" and "too_big s c" and "map_of (sv_clients s) i = Some cl" and "wok e i"
    and "\<not> recentlySent e (ContentKey c) (EchoWindow (cfg_Timing (sv_cfg s))) cl"
  shows "Broadcast e c from skip s = s \<and>
    sent_to i (sv_out (BroadcastLocal e c from s)) =
      sent_to i (sv_out s) @ [clipboard_frame c (UnixMilli (now e)) from]"
proof -
  have d: "distinct (keys (sv_clients s))"
    using assms(1) by (simp add: server_inv_def)
  have "i \<in> set (local_ids e c s)"
    using assms by (simp add: local_ids_iff [OF d])
  then show ?thesis
    using assms(2,4)
    by (simp add: Broadcast_append BroadcastLocal_append sent_to_sent_events distinct_local_ids [OF d])
qed

definition ex_tiny :: server where
  "ex_tiny = ex_server\<lparr>sv_cfg := ex_config\<lparr>cfg_MaxImageBytes := 2\<rparr>\<rparr>"

lemma ex_tiny_inv [simp]: "server_inv ex_tiny"
  by (simp add: ex_tiny_def server_inv_def client_ok_def)

lemma image_limit_only_in_relay_example:
  "Broadcast ex_env (image_content [1, 2, 3] ''image/png'') ''desk'' [] ex_tiny = ex_tiny \<and>
   sent_to ''1'' (sv_out (BroadcastLocal ex_env (image_content [1, 2, 3] ''image/png'') ''desk'' ex_tiny)) =
     [clipboard_frame (image_content [1, 2, 3] ''image/png'') 1700000000000 ''desk'']"
  using image_limit_only_in_relay [of ex_tiny "image_content [1, 2, 3] ''image/png''" "''1''"
      "ex_client ''1''" ex_env "''desk''" "[]"]
  by (simp add: too_big_def recentlySent_def second_def UnixMilli_def) (simp add: ex_tiny_def second_def)

text \<open>C37: what the daemon broadcast itself is not recorded for the echo check: a client that
  sends a local broadcast straight back has it accepted, the program writes it again, and it
  is relayed to every other client, although each of them has it already.\<close>

theorem own_broadcast_comes_back:
  assumes inv: "server_inv s" and "MsgToContent m = Some c" and "\<not> is_echo e' (ContentKey c) s"
    and "\<not> too_big s c" and "i \<noteq> []"
    and j: "j \<in> set (keys (sv_clients s))" "j \<noteq> i" "wok e' j"
  shows "handleClipboard e' hk i m (BroadcastLocal e c from s, w) =
      (relayed e' i c (cm_From m) (BroadcastLocal e c from s), run_remote_hook hk c (cm_From m) w)
    \<and> sent_to j (sv_out (relayed e' i c (cm_From m) (BroadcastLocal e c from s))) =
      sent_to j (sv_out (BroadcastLocal e c from s)) @
        [clipboard_frame c (UnixMilli (now e')) (cm_From m)]"
proof -
  have d: "distinct (keys (sv_clients (BroadcastLocal e c from s)))"
    using inv by (simp add: server_inv_def BroadcastLocal_append)
  show ?thesis
    using assms by (simp add: handleClipboard_first sent_to_relayed [OF d])
      (simp add: BroadcastLocal_append too_big_def)
qed

theorem own_broadcast_comes_back_witness:
  "sent_to ''2'' (sv_out (fst (handleClipboard ex_env2 ex_hooks ''1'' ex_msg
       (BroadcastLocal ex_env ex_content ''desk'' ex_server, [])))) =
     [clipboard_frame ex_content 1700000000000 ''desk'', clipboard_frame ex_content 1700000029000 ''phone'']"
proof -
  have "\<not> is_echo ex_env2 k ex_server" for k
    by (simp add: is_echo_def ex_env2_def second_def)
  moreover have "sent_to ''2'' (sv_out (BroadcastLocal ex_env ex_content ''desk'' ex_server)) =
     [clipboard_frame ex_content 1700000000000 ''desk'']"
    by (simp add: BroadcastLocal_append local_ids_def sent_events_def recentlySent_def second_def
      UnixMilli_def)
  ultimately show ?thesis
    using own_broadcast_comes_back [of ex_server ex_msg ex_content ex_env2 "''1''" "''2''" ex_hooks
        ex_env "''desk''" "[]"]
    by (simp add: ex_env2_def UnixMilli_def second_def)
qed

end
