(* ===== verification/Handshake.thy ===== *)
theory Handshake
  imports Relay
begin

text \<open>
  Properties of the connections (\<open>handlers.go\<close>, \<open>server.go\<close>): who gets in (token, whitelist,
  limit of clients), what the first and the later messages of a client do, and when a
  connection ends.
\<close>

section \<open>What no operation changes\<close>

definition static :: "server \<Rightarrow> config \<times> int \<times> string \<times> time" where
  "static s = (sv_cfg s, sv_maxClients s, sv_version s, sv_started s)"

lemma static_append [simp]: "static (append_out xs s) = static s"
  by (simp add: static_def)

lemma static_ops [simp]:
  "static (emit x s) = static s" "static (update_client i f s) = static s"
  "static (registerPeer p s) = static s" "static (unregisterPeer p s) = static s"
  "static (noteIncoming e i k s) = static s" "static (snd (claim_key e k s)) = static s"
  "static (Broadcast e c from skip s) = static s" "static (BroadcastLocal e c from s) = static s"
  "static (sendError e i code msg s) = static s" "static (pong e i s) = static s"
  "static (disconnect i s) = static s" "static (reject e i code msg s) = static s"
  "static (cl_write e i j s) = static s"
  by (simp_all add: static_def update_client_def registerPeer_def unregisterPeer_def claim_key_def
      noteIncoming_def Broadcast_append BroadcastLocal_append sendError_def pong_def cl_write_append
      disconnect_def reject_def)

lemma static_handleWS [simp]: "static (fst (handleWS t a ok s)) = static s"
  by (auto simp: handleWS_def static_def newID_def Let_def emit_def)

lemma static_handleClipboard [simp]: "static (fst (handleClipboard e hk i m sw)) = static (fst sw)"
proof (cases "MsgToContent m")
  case (Some c)
  then show ?thesis
    using static_ops(6) [of e "ContentKey c" "noteIncoming e i (ContentKey c) (fst sw)"]
    by (auto simp: handleClipboard_def Let_def split: prod.split simp del: static_ops(6))
qed (simp add: handleClipboard_def)

lemma static_step_hook:
  assumes "\<And>e sw. static (fst (run_connect_hook e hk sw)) = static (fst sw)"
  shows "static (fst (server_step hk x sw)) = static (fst sw)"
  using assms
  by (cases x; cases sw)
    (auto simp: handleHello_def handleMessage_def accept_hello_def Let_def
      split: option.split bool.split read_result.split)

lemma static_step:
  "onClientConnect hk = None \<Longrightarrow> static (fst (server_step hk x sw)) = static (fst sw)"
  by (rule static_step_hook) (simp add: run_connect_hook_def)

lemma static_run:
  "onClientConnect hk = None \<Longrightarrow> static (fst (server_run hk es sw)) = static (fst sw)"
  by (induction es arbitrary: sw) (simp_all add: server_run_def static_step)

lemma static_fields:
  "static s = static s' \<Longrightarrow> sv_cfg s = sv_cfg s' \<and> sv_maxClients s = sv_maxClients s'"
  by (simp add: static_def)

lemma daemon_no_hook [simp]: "onClientConnect (daemon_hooks cb) = None"
  by (simp add: daemon_hooks_def)

section \<open>Who gets in\<close>


definition ex_locked :: config where
  "ex_locked = ex_config\<lparr>cfg_Token := ''secret''\<rparr>"


text \<open>C5: in every reachable state of a daemon in whitelist mode, each client that has
  finished its handshake matches the whitelist by its address or its announced name.\<close>

theorem whitelist_enforced:
  assumes "s = SetMaxClients n (New e cfg v)" and "conn_Mode (cfg_Connection cfg) = ModeWhitelist"
    and "server_run (daemon_hooks cb) es (s, w) = (s', w')"
    and "(i, c) \<in> set (sv_clients s')" and "cl_ready c"
  shows "InWhitelist cfg (cl_ip c) (cl_name c)"
proof -
  have "server_inv (fst (fold (server_step (daemon_hooks cb)) es (s, w)))"
    by (rule daemon.inv_reachable [of n]) (use assms(1) in \<open>auto simp: new_server_def\<close>)
  then have "server_inv s'"
    using assms(3) by (simp add: server_run_def)
  moreover have "sv_cfg s' = cfg"
    using static_run [of "daemon_hooks cb" es "(s, w)"] assms(1,3)
    by (simp add: static_def SetMaxClients_def New_def)
  ultimately show ?thesis
    using assms(2,4,5) by (auto simp: server_inv_def list_all_iff client_ok_def)
qed

text \<open>The limit of clients holds in every reachable state.\<close>

lemma client_limit:
  assumes "s = SetMaxClients n (New e cfg v)" and "0 < n"
  shows "int (length (sv_clients (fst (server_run (daemon_hooks cb) es (s, w))))) \<le> n"
proof -
  have "server_inv (fst (fold (server_step (daemon_hooks cb)) es (s, w)))"
    by (rule daemon.inv_reachable [of n]) (use assms(1) in \<open>auto simp: new_server_def\<close>)
  moreover have "sv_maxClients (fst (server_run (daemon_hooks cb) es (s, w))) = n"
    using static_run [of "daemon_hooks cb" es "(s, w)"] assms(1)
    by (simp add: static_def SetMaxClients_def New_def)
  ultimately show ?thesis
    using assms(2) by (simp add: server_inv_def server_run_def)
qed

lemma client_limit_example:
  "int (length (sv_clients (fst (server_run ex_hooks
      [Connect [] ''10.0.0.9:5000'' True, Connect [] ''10.0.0.8:5000'' True]
      (SetMaxClients 1 (New ex_env ex_config ''1''), []))))) \<le> 1"
  unfolding ex_hooks_def by (rule client_limit) simp_all

section \<open>A daemon in whitelist mode\<close>

definition ex_wl :: config where
  "ex_wl = ex_config\<lparr>cfg_Connection := \<lparr>conn_Mode = ModeWhitelist,
     conn_Whitelist = [\<lparr>wl_Name = ''phone'', wl_IP = ''10.0.0.7''\<rparr>]\<rparr>\<rparr>"

definition ex_hello :: hello where
  "ex_hello = \<lparr>h_Name = ''phone'', h_Platform = PlatformAndroid, h_Version = ''2''\<rparr>"

definition ex_joined :: "server \<times> content list" where
  "ex_joined = server_run ex_hooks
     [Connect [] ''10.0.0.7:5000'' True, Read ex_env ''1'' (Frame (Some (hello_frame ex_hello)))]
     (SetMaxClients 0 (New ex_env ex_wl ''1''), [])"

lemma clientIP_ex [simp]:
  "clientIP ''10.0.0.7:5000'' = ''10.0.0.7''" "clientIP ''10.0.0.9:5000'' = ''10.0.0.9''"
  by code_simp+

lemma format_one [simp]: "format_base 36 (Suc 0) = ''1''"
  by code_simp

lemma ex_wl_fields [simp]:
  "cfg_Token ex_wl = []" "conn_Mode (cfg_Connection ex_wl) = ModeWhitelist"
  "InWhitelist ex_wl ip name = (ip = ''10.0.0.7'' \<or> name = ''phone'')"
  "EchoWindow (cfg_Timing ex_wl) = 30 * second"
  by (auto simp: ex_wl_def InWhitelist_def)

lemma unmarshal_ex_hello [simp]: "unmarshal_hello (Some (marshal_hello ex_hello)) = Some ex_hello"
  by (simp add: ex_hello_def) (simp add: valid_utf8_ascii byte_in_def PlatformAndroid_def)

lemma ex_joined_clients:
  "sv_clients (fst ex_joined) =
     [(''1'', (set_hello ex_hello (new_client ''1'' ''10.0.0.7''))\<lparr>cl_ready := True\<rparr>)]"
  by (simp add: ex_joined_def server_run_def handleWS_def newID_def Let_def New_def SetMaxClients_def
      client_ready_def handleHello_def alist_put_def new_client_def client_ip_def del: unmarshal_marshal_hello)
   (simp add: accept_hello_def run_connect_hook_def cl_write_append update_client_def alist_adjust_def ex_hooks_def
      Let_def)

theorem whitelist_enforced_witness:
  "InWhitelist ex_wl ''10.0.0.7'' ''phone''"
  using whitelist_enforced [of "SetMaxClients 0 (New ex_env ex_wl ''1'')" 0 ex_env ex_wl "''1''"
      "\<lambda>c from w. w @ [c]"
      "[Connect [] ''10.0.0.7:5000'' True, Read ex_env ''1'' (Frame (Some (hello_frame ex_hello)))]"
      "[]" "fst ex_joined" "snd ex_joined" "''1''"
      "(set_hello ex_hello (new_client ''1'' ''10.0.0.7''))\<lparr>cl_ready := True\<rparr>"] ex_joined_clients
  by (simp add: ex_joined_def ex_hooks_def set_hello_def new_client_def ex_hello_def)

text \<open>C38: the whitelist does not keep the clipboard from anyone: a connection is registered as
  a client before its hello is read, so in any mode a local change is written to a connection
  that has only been accepted, whatever its address.\<close>

theorem clipboard_leaks_before_hello:
  assumes "server_inv s" and "handleWS token addr True s = (s', Some i)" and "wok e i"
    and "0 \<le> now e" and "EchoWindow (cfg_Timing (sv_cfg s)) < 2 ^ 63"
  shows "client_ready i s' = Some False \<and>
    sent_to i (sv_out (BroadcastLocal e c from s')) =
      sent_to i (sv_out s') @ [clipboard_frame c (UnixMilli (now e)) from]"
proof -
  obtain i0 s1 where id: "newID s = (i0, s1)" by (cases "newID s")
  have s1: "sv_cfg s1 = sv_cfg s" "sv_clients s1 = sv_clients s"
    using newID_fields [of s] id by simp_all
  from assms(2) id have i: "i0 = i"
      and s': "s' = s1\<lparr>sv_clients := alist_put i (new_client i (clientIP addr)) (sv_clients s1)\<rparr>"
    by (auto simp: handleWS_def Let_def split: if_splits)
  have cl: "map_of (sv_clients s') i = Some (new_client i (clientIP addr))"
    using s' by simp
  have d: "distinct (keys (sv_clients s'))"
    using server_inv_handleWS [OF assms(1), of token addr True] assms(2) by (simp add: server_inv_def)
  have "\<not> recentlySent e (ContentKey c) (EchoWindow (cfg_Timing (sv_cfg s'))) (new_client i (clientIP addr))"
    using assms(4,5) s' s1 by (simp add: recentlySent_def new_client_def)
  then have "i \<in> set (local_ids e c s')"
    using local_ids_iff [OF d cl] by simp
  then show ?thesis
    using cl assms(3)
    by (simp add: client_ready_def new_client_def BroadcastLocal_append sent_to_sent_events
        distinct_local_ids [OF d])
qed

definition ex_stranger :: "server \<times> string option" where
  "ex_stranger = handleWS [] ''10.0.0.9:5000'' True (New ex_env ex_wl ''1'')"

theorem clipboard_leaks_before_hello_witness:
  "\<not> InWhitelist ex_wl ''10.0.0.9'' [] \<and> snd ex_stranger = Some ''1'' \<and>
   sent_to ''1'' (sv_out (BroadcastLocal ex_env ex_content ''desk'' (fst ex_stranger))) =
     [clipboard_frame ex_content 1700000000000 ''desk'']"
proof -
  have st: "snd ex_stranger = Some ''1'' \<and> sv_out (fst ex_stranger) = []"
    by (simp add: ex_stranger_def handleWS_def newID_def Let_def New_def)
  then have "handleWS [] ''10.0.0.9:5000'' True (New ex_env ex_wl ''1'') = (fst ex_stranger, Some ''1'')"
    by (metis ex_stranger_def prod.collapse)
  from clipboard_leaks_before_hello [OF server_inv_New this, of ex_env ex_content "''desk''"] st
  show ?thesis
    by (simp add: New_def second_def UnixMilli_def)
qed

section \<open>The handshake\<close>

text \<open>What a first read has to be: a JSON text with a hello that decodes, from a client that is
  allowed in.\<close>

definition hello_accepted :: "server \<Rightarrow> string \<Rightarrow> read_result \<Rightarrow> hello \<Rightarrow> bool" where
  "hello_accepted s i r h \<longleftrightarrow>
     (\<exists>txt env. r = Frame txt \<and> unmarshal_envelope txt = Some env \<and> env_Type env = MsgHello \<and>
        unmarshal_hello (env_Data env) = Some h) \<and>
     (conn_Mode (cfg_Connection (sv_cfg s)) = ModeWhitelist \<longrightarrow>
        InWhitelist (sv_cfg s) (client_ip i s) (h_Name h))"

lemma handleHello_accepted:
  "hello_accepted s i r h \<Longrightarrow> handleHello e hk i r (s, w) = accept_hello e hk i h (s, w)"
  by (auto simp: hello_accepted_def handleHello_def Let_def)

lemma handleHello_rejected:
  assumes "\<And>h. \<not> hello_accepted s i r h"
  shows "\<exists>xs. handleHello e hk i r (s, w) = (disconnect i (append_out xs s), w)"
proof -
  have 1: "\<exists>xs. disconnect i s = disconnect i (append_out xs s)"
    by (rule exI [of _ "[]"]) simp
  have 2: "\<exists>xs. reject e i code msg s = disconnect i (append_out xs s)" for code msg
    using 1 by (auto simp: reject_def sendError_def cl_write_append)
  show ?thesis
    using assms 1 2
    by (auto simp: handleHello_def hello_accepted_def Let_def split: read_result.split option.split)
qed

text \<open>C20: the handshake of a daemon: after its first read a client is ready for messages if and
  only if what it sent is a hello that decodes and is allowed in; it then has the announced
  identity and gets exactly the daemon's hello. Otherwise it is no longer registered and its
  connection is closed.\<close>

theorem handshake_outcome:
  assumes cl: "map_of (sv_clients s) i = Some c" and "onClientConnect hk = None"
    and run: "handleHello e hk i r (s, w) = (s', w')"
  shows "(if \<exists>h. hello_accepted s i r h
     then (\<exists>h. hello_accepted s i r h \<and>
       map_of (sv_clients s') i = Some ((set_hello h c)\<lparr>cl_ready := True\<rparr>)) \<and>
       sv_out s' = sv_out s @ (if wok e i then [Sent i (hello_frame (own_hello s))] else [])
     else map_of (sv_clients s') i = None \<and> last (sv_out s') = Closed i ''bye'')"
proof (cases "\<exists>h. hello_accepted s i r h")
  case True
  then obtain h where h: "hello_accepted s i r h" by blast
  then have "s' = fst (accept_hello e hk i h (s, w))"
    using run handleHello_accepted [OF h, of e hk w] by simp
  then show ?thesis
    using h cl assms(2)
    by (auto simp: accept_hello_def run_connect_hook_def Let_def update_client_def cl_write_append
        own_hello_def set_hello_def)
next
  case False
  then obtain xs where "handleHello e hk i r (s, w) = (disconnect i (append_out xs s), w)"
    using handleHello_rejected [of s i r e hk w] by blast
  with False run show ?thesis
    by (auto simp: disconnect_def)
qed

theorem handshake_outcome_witness:
  "map_of (sv_clients (fst (handleHello ex_env ex_hooks ''1'' (Frame (Some (bare_frame MsgPing)))
      (fst ex_stranger, [])))) ''1'' = None"
proof -
  let ?run = "handleHello ex_env ex_hooks ''1'' (Frame (Some (bare_frame MsgPing))) (fst ex_stranger, [])"
  have "map_of (sv_clients (fst ex_stranger)) ''1'' = Some (new_client ''1'' ''10.0.0.9'')"
    by (simp add: ex_stranger_def handleWS_def newID_def Let_def New_def)
  moreover have "\<not> hello_accepted (fst ex_stranger) ''1'' (Frame (Some (bare_frame MsgPing))) h" for h
    by (simp add: hello_accepted_def)
  ultimately show ?thesis
    using handshake_outcome [of "fst ex_stranger" "''1''" "new_client ''1'' ''10.0.0.9''" ex_hooks
        ex_env "Frame (Some (bare_frame MsgPing))" "[]" "fst ?run" "snd ?run"]
    by (simp add: ex_hooks_def)
qed

section \<open>The reading loop\<close>

lemma map_of_update_client [simp]:
  "map_of (sv_clients (update_client i f s)) j =
     (if j = i then map_option f (map_of (sv_clients s) j) else map_of (sv_clients s) j)"
  by (simp add: update_client_def)

lemma map_of_disconnect [simp]:
  "map_of (sv_clients (disconnect i s)) j = (if j = i then None else map_of (sv_clients s) j)"
  by (simp add: disconnect_def)

lemma clients_relayed: "sv_clients (relayed e i c from s) = sv_clients (noteIncoming e i (ContentKey c) s)"
  by (simp add: relayed_def Broadcast_append)

lemma handleClipboard_clients:
  "sv_clients (fst (handleClipboard e hk i m (s, w))) =
     (case MsgToContent m of None \<Rightarrow> sv_clients s
      | Some c \<Rightarrow> sv_clients (noteIncoming e i (ContentKey c) s))"
proof (cases "MsgToContent m")
  case (Some c)
  then show ?thesis
    by (cases "is_echo e (ContentKey c) s")
      (simp_all add: handleClipboard_echo handleClipboard_first clients_relayed)
qed (simp add: handleClipboard_empty)

text \<open>No client is ever called by the empty name.\<close>

lemma client_ids_BroadcastLocal [simp]: "client_ids (BroadcastLocal e c from s) = client_ids s"
  by (simp add: BroadcastLocal_append)

lemma client_ids_handleWS:
  "client_ids (fst (handleWS t a ok s)) \<subseteq> insert (fst (newID s)) (client_ids s)"
  by (auto simp: handleWS_def Let_def case_prod_beta client_ids_def simp del: set_map)

lemma newID_nonempty [simp]: "fst (newID s) \<noteq> []"
  by (simp add: newID_def Let_def)

lemma client_ids_handleClipboard: "client_ids (fst (handleClipboard e hk i m (s, w))) = client_ids s"
  by (cases "MsgToContent m")
    (simp_all add: client_ids_def handleClipboard_clients noteIncoming_def update_client_def)

lemma client_ids_handleMessage: "client_ids (fst (handleMessage e hk i r (s, w))) \<subseteq> client_ids s"
  by (auto simp: handleMessage_def Let_def sendError_def pong_def client_ids_handleClipboard
      split: read_result.splits option.splits if_splits)



text \<open>The protocol of the replies: what a client gets back for what it sent.\<close>

definition reply_to :: "read_result \<Rightarrow> json list" where
  "reply_to r =
     (case r of
        ReadError \<Rightarrow> []
      | Frame txt \<Rightarrow>
          (case unmarshal_envelope txt of
             None \<Rightarrow> [error_frame ErrBadJSON ''malformed message'']
           | Some env \<Rightarrow>
               if env_Type env = MsgPing then [bare_frame MsgPong]
               else if env_Type env = MsgPong then []
               else if env_Type env = MsgClipboard then
                 (if unmarshal_clipboard (env_Data env) = None
                  then [error_frame ErrBadClipboard ''invalid clipboard payload''] else [])
               else [error_frame ErrUnknownType ''unrecognized message type'']))"

text \<open>C26: a client gets exactly the reply of the protocol to what it sent: a pong to a ping, an
  error naming what was wrong with a malformed message, nothing to a clipboard message; in
  particular its own clipboard message never comes back to it.\<close>

theorem reply_protocol:
  assumes "server_inv s" and "i \<noteq> []" and "handleMessage e hk i r (s, w) = (s', w')"
  shows "sent_to i (sv_out s') = sent_to i (sv_out s) @ (if wok e i then reply_to r else [])"
proof -
  have d: "distinct (keys (sv_clients s))"
    using assms(1) by (simp add: server_inv_def)
  have clip: "sent_to i (sv_out (fst (handleClipboard e hk i m (s, w)))) = sent_to i (sv_out s)" for m
  proof (cases "MsgToContent m")
    case (Some c)
    then show ?thesis
      by (cases "is_echo e (ContentKey c) s")
        (simp_all add: handleClipboard_echo handleClipboard_first sent_to_relayed [OF d] assms(2))
  qed (simp add: handleClipboard_empty)
  have s': "s' = fst (handleMessage e hk i r (s, w))"
    using assms(3) by simp
  show ?thesis
    unfolding s' handleMessage_def reply_to_def Let_def
    by (auto simp: clip sendError_def pong_def cl_write_append disconnect_def
        split: read_result.split option.split)
qed

theorem reply_protocol_witness:
  "sent_to ''1'' (sv_out (fst (handleMessage ex_env ex_hooks ''1'' (Frame (Some (bare_frame MsgPing)))
     (ex_server, [])))) = [bare_frame MsgPong]"
  using reply_protocol [of ex_server "''1''" ex_env ex_hooks "Frame (Some (bare_frame MsgPing))" "[]"
      "fst (handleMessage ex_env ex_hooks ''1'' (Frame (Some (bare_frame MsgPing))) (ex_server, []))"
      "snd (handleMessage ex_env ex_hooks ''1'' (Frame (Some (bare_frame MsgPing))) (ex_server, []))"]
  by (simp add: reply_to_def)

section \<open>Nothing is written after a close\<close>

lemma disconnect_out [simp]: "sv_out (disconnect i s) = sv_out s @ [Closed i ''bye'']"
  by (simp add: disconnect_def)

lemma trace_inv_append_out:
  assumes "trace_inv s" and "wf_trace (sv_out s @ xs)" and "closed_ids xs = {}"
  shows "trace_inv (append_out xs s)"
  using assms by (simp add: trace_inv_def)

lemma closed_ids_events [simp]:
  "closed_ids (sent_events e m ids) = {}" "closed_ids (peer_events e m ps) = {}"
  by (auto simp: closed_ids_def sent_events_def peer_events_def)

lemma trace_inv_fan_out:
  assumes "trace_inv s" and "set ids \<subseteq> client_ids s"
  shows "trace_inv (append_out (sent_events e m ids @ peer_events e m' ps) s)"
proof (rule trace_inv_append_out)
  have "set ids \<inter> closed_ids (sv_out s) = {}"
    using assms by (auto simp: trace_inv_def)
  then have "wf_trace (sv_out s @ sent_events e m ids)"
    using wf_trace_sent_events [of "sv_out s" ids e m] assms(1) by (simp add: trace_inv_def)
  then show "wf_trace (sv_out s @ sent_events e m ids @ peer_events e m' ps)"
    using wf_trace_peer_events [of "sv_out s @ sent_events e m ids" e m' ps] by simp
qed (use assms in simp_all)

lemma trace_inv_Broadcast: "trace_inv s \<Longrightarrow> trace_inv (Broadcast e c from skip s)"
  by (auto simp: Broadcast_append set_relay_ids client_ids_def intro: trace_inv_fan_out)

lemma trace_inv_BroadcastLocal: "trace_inv s \<Longrightarrow> trace_inv (BroadcastLocal e c from s)"
  unfolding BroadcastLocal_append
  by (rule trace_inv_fan_out) (simp_all only: client_ids_def set_local_ids_subset)

lemma trace_inv_cl_write:
  "trace_inv s \<Longrightarrow> i \<in> client_ids s \<Longrightarrow> trace_inv (cl_write e i m s)"
  by (auto simp: cl_write_append trace_inv_def)

lemma trace_inv_disconnect:
  "trace_inv s \<Longrightarrow> i \<in> client_ids s \<Longrightarrow> trace_inv (disconnect i s)"
  by (auto simp: trace_inv_def disconnect_out)

lemma trace_inv_reject:
  "trace_inv s \<Longrightarrow> i \<in> client_ids s \<Longrightarrow> trace_inv (reject e i code msg s)"
  unfolding reject_def sendError_def
  by (intro trace_inv_disconnect trace_inv_cl_write) simp_all

lemma trace_inv_update_client [simp]: "trace_inv (update_client i f s) = trace_inv s"
  by (simp add: trace_inv_def) (simp add: update_client_def)

lemma trace_inv_echo_fields [simp]:
  "trace_inv (s\<lparr>sv_lastBroadcast := k, sv_lastBroadcastT := t\<rparr>) = trace_inv s"
  by (simp add: trace_inv_def issued_def client_ids_def)

lemma trace_inv_handleClipboard:
  "trace_inv (fst sw) \<Longrightarrow> trace_inv (fst (handleClipboard e hk i m sw))"
  by (cases "MsgToContent m")
    (auto simp: handleClipboard_def claim_key_def noteIncoming_def Let_def intro: trace_inv_Broadcast)

lemma trace_inv_handleMessage:
  "trace_inv (fst sw) \<Longrightarrow> i \<in> client_ids (fst sw) \<Longrightarrow>
   trace_inv (fst (handleMessage e hk i r sw))"
  by (auto simp: handleMessage_def Let_def sendError_def pong_def
      intro: trace_inv_disconnect trace_inv_cl_write trace_inv_handleClipboard
      split: read_result.split option.split)

lemma trace_inv_handleHello:
  assumes "trace_inv (fst sw)" and "i \<in> client_ids (fst sw)"
    and "onClientConnect hk = None"
  shows "trace_inv (fst (handleHello e hk i r sw))"
proof -
  have "trace_inv (fst (accept_hello e hk i h sw))" for h
    using assms by (simp add: accept_hello_def run_connect_hook_def Let_def trace_inv_cl_write)
  then show ?thesis
    using assms
    by (auto simp: handleHello_def Let_def intro: trace_inv_disconnect trace_inv_reject
        split: read_result.split option.split)
qed

lemma trace_inv_handleWS:
  assumes "trace_inv s" and "unat (sv_idSeq s) < 2 ^ 64 - 1"
  shows "trace_inv (fst (handleWS token addr ok s))"
proof -
  obtain i s1 where id: "newID s = (i, s1)" by (cases "newID s")
  have s1: "sv_clients s1 = sv_clients s" "sv_out s1 = sv_out s"
    using newID_fields [of s] id by simp_all
  then have ids1: "client_ids s1 = client_ids s"
    by (simp add: client_ids_def)
  have new: "i \<notin> issued s" "i \<in> issued s1" "issued s \<subseteq> issued s1"
    using newID_fresh [OF assms(2)] id by simp_all
  have fresh: "i \<notin> client_ids s" "i \<notin> closed_ids (sv_out s)"
    using assms(1) new by (auto simp: trace_inv_def)
  have "trace_inv (s1\<lparr>sv_clients := alist_put i c (sv_clients s1)\<rparr>)" for c
    using assms(1) new fresh s1 ids1 by (auto simp: trace_inv_def client_ids_def [symmetric] simp del: set_map)
  moreover have "trace_inv (emit (Closed i r) s1)" for r
    using assms(1) new fresh s1 ids1 by (auto simp: trace_inv_def)
  moreover have "trace_inv (emit (Refused n) s)" for n
    using assms(1) by (auto simp: trace_inv_def)
  ultimately show ?thesis
    using assms(1) id by (simp add: handleWS_def Let_def)
qed

lemma keys_of_ready: "client_ready i s = Some b \<Longrightarrow> i \<in> client_ids s"
  by (auto simp: client_ids_def client_ready_def dest: map_of_SomeD intro: rev_image_eqI)

lemma trace_inv_step:
  assumes "onClientConnect hk = None" and "trace_inv (fst sw)"
    and "unat (sv_idSeq (fst sw)) < 2 ^ 64 - 1"
  shows "trace_inv (fst (server_step hk x sw))"
proof (cases x)
  case (Read e i r)
  with assms show ?thesis
    using keys_of_ready [of i "fst sw"]
    by (cases sw) (auto intro: trace_inv_handleHello trace_inv_handleMessage split: option.split bool.split)
next
  case (PeerUp p)
  with assms show ?thesis by (cases sw) (simp add: registerPeer_def trace_inv_def issued_def client_ids_def)
next
  case (PeerDown p)
  with assms show ?thesis by (cases sw) (simp add: unregisterPeer_def trace_inv_def issued_def client_ids_def)
qed (use assms in \<open>cases sw; simp add: trace_inv_handleWS trace_inv_BroadcastLocal\<close>)+

lemma idSeq_ops [simp]:
  "sv_idSeq (append_out xs s) = sv_idSeq s" "sv_idSeq (update_client i f s) = sv_idSeq s"
  "sv_idSeq (cl_write e i m s) = sv_idSeq s" "sv_idSeq (disconnect i s) = sv_idSeq s"
  "sv_idSeq (reject e i code msg s) = sv_idSeq s" "sv_idSeq (sendError e i code msg s) = sv_idSeq s"
  "sv_idSeq (Broadcast e c from skip s) = sv_idSeq s"
  "sv_idSeq (BroadcastLocal e c from s) = sv_idSeq s"
  "sv_idSeq (pong e i s) = sv_idSeq s" "sv_idSeq (registerPeer p s) = sv_idSeq s"
  "sv_idSeq (unregisterPeer p s) = sv_idSeq s" "sv_idSeq (noteIncoming e i k s) = sv_idSeq s"
  by (simp_all add: append_out_def update_client_def cl_write_append disconnect_def reject_def
      sendError_def Broadcast_append BroadcastLocal_append pong_def registerPeer_def unregisterPeer_def
      noteIncoming_def)

lemma idSeq_step:
  assumes "onClientConnect hk = None"
  shows "sv_idSeq (fst (server_step hk x sw)) \<in> {sv_idSeq (fst sw), sv_idSeq (fst sw) + 1}"
proof -
  have "sv_idSeq (fst (handleClipboard e hk i m sw)) = sv_idSeq (fst sw)" for e i m
    by (cases "MsgToContent m") (auto simp: handleClipboard_def claim_key_def Let_def)
  then show ?thesis
    using assms
    by (cases x; cases sw)
      (auto simp: handleWS_def newID_def Let_def handleHello_def handleMessage_def accept_hello_def
        run_connect_hook_def split: option.split bool.split read_result.split)
qed

lemma unat_inc_le: "unat (w + 1 :: u64) \<le> Suc (unat w)"
  by (metis Suc_eq_plus1 unat_1 unat_plus_if_size le_add1 le_refl diff_le_self)

lemma trace_inv_run:
  assumes "onClientConnect hk = None" and "trace_inv (fst sw)"
    and "unat (sv_idSeq (fst sw)) + length es < 2 ^ 64"
  shows "trace_inv (fst (server_run hk es sw))"
  using assms
proof (induction es arbitrary: sw)
  case (Cons x es)
  let ?sw = "server_step hk x sw"
  have "unat (sv_idSeq (fst ?sw)) \<le> Suc (unat (sv_idSeq (fst sw)))"
    using idSeq_step [OF Cons.prems(1), of x sw] unat_inc_le [of "sv_idSeq (fst sw)"] by auto
  then show ?case
    using Cons.IH [of ?sw] trace_inv_step [OF Cons.prems(1,2), of x] Cons.prems
    by (simp add: server_run_def)
qed (simp add: server_run_def)

lemma trace_inv_New: "trace_inv (SetMaxClients n (New e cfg v))"
  by (simp add: trace_inv_def SetMaxClients_def New_def client_ids_def)



end
