(* ===== verification/Interleave.thy ===== *)
theory Interleave
  imports Handshake
begin

text \<open>
  \<open>handleClipboard\<close> as its locks cut it. Each client has its own goroutine, and the server's
  lock is held for the claim of the key and again for the broadcast, not in between. A task is
  one call of \<open>handleClipboard\<close> and where it has got to; a step moves one task on, at some
  time. The lemmas: run by itself a task does what \<open>handleClipboard\<close> of \<open>Server\<close> does, and of
  any number of tasks with the same content exactly one is relayed, however they interleave.
\<close>

section \<open>Tasks\<close>

datatype stage = Noting | Claiming | Calling | Relaying | Relayed | Dropped

record task =
  tk_client :: string
  tk_content :: content
  tk_from :: string
  tk_stage :: stage

definition new_task :: "string \<Rightarrow> clipboard_msg \<Rightarrow> content \<Rightarrow> task" where
  "new_task i m c = \<lparr>tk_client = i, tk_content = c, tk_from = cm_From m, tk_stage = Noting\<rparr>"

abbreviation to_stage :: "stage \<Rightarrow> task \<Rightarrow> task" where
  "to_stage g t \<equiv> t\<lparr>tk_stage := g\<rparr>"

text \<open>One step of a task at the time of \<open>e\<close>.\<close>

inductive task_step ::
    "'w hooks \<Rightarrow> env \<Rightarrow> task \<times> server \<times> 'w \<Rightarrow> task \<times> server \<times> 'w \<Rightarrow> bool" for hk e where
  noting: "tk_stage t = Noting \<Longrightarrow>
    task_step hk e (t, s, w)
      (to_stage Claiming t, noteIncoming e (tk_client t) (ContentKey (tk_content t)) s, w)"
| dropping: "tk_stage t = Claiming \<Longrightarrow> claim_key e (ContentKey (tk_content t)) s = (False, s') \<Longrightarrow>
    task_step hk e (t, s, w) (to_stage Dropped t, s', w)"
| claiming: "tk_stage t = Claiming \<Longrightarrow> claim_key e (ContentKey (tk_content t)) s = (True, s') \<Longrightarrow>
    task_step hk e (t, s, w) (to_stage Calling t, s', w)"
| calling: "tk_stage t = Calling \<Longrightarrow>
    task_step hk e (t, s, w) (to_stage Relaying t, s, run_remote_hook hk (tk_content t) (tk_from t) w)"
| relaying: "tk_stage t = Relaying \<Longrightarrow>
    task_step hk e (t, s, w)
      (to_stage Relayed t, Broadcast e (tk_content t) (tk_from t) (tk_client t) s, w)"

inductive_cases task_stepE: "task_step hk e (t, s, w) (t', s', w')"

section \<open>A task by itself\<close>

text \<open>Refinement: cutting \<open>handleClipboard\<close> where its locks cut it loses nothing. The steps of
  one task, run by themselves at one time, lead to the state that \<open>handleClipboard\<close> computes,
  of the server and of the program, and end as a drop exactly for an echo.\<close>

lemma task_refines:
  assumes "MsgToContent m = Some c"
  shows "\<exists>g. (task_step hk e)\<^sup>*\<^sup>*
      (new_task i m c, s, w)
      (to_stage g (new_task i m c), fst (handleClipboard e hk i m (s, w)), snd (handleClipboard e hk i m (s, w)))
    \<and> g = (if is_echo e (ContentKey c) s then Dropped else Relayed)"
proof (cases "is_echo e (ContentKey c) s")
  case True
  let ?t = "new_task i m c"
  let ?s1 = "noteIncoming e i (ContentKey c) s"
  have "task_step hk e (?t, s, w) (to_stage Claiming ?t, ?s1, w)"
    using task_step.noting [of ?t hk e s w] by (simp add: new_task_def)
  moreover have "task_step hk e (to_stage Claiming ?t, ?s1, w) (to_stage Dropped ?t, ?s1, w)"
    using task_step.dropping [of "to_stage Claiming ?t" e ?s1 ?s1 hk w] True
    by (simp add: new_task_def claim_key_def)
  ultimately show ?thesis
    using True assms by (auto simp: handleClipboard_echo intro: converse_rtranclp_into_rtranclp)
next
  case False
  let ?t = "new_task i m c"
  let ?s1 = "noteIncoming e i (ContentKey c) s"
  let ?s2 = "?s1\<lparr>sv_lastBroadcast := ContentKey c, sv_lastBroadcastT := now e\<rparr>"
  let ?w1 = "run_remote_hook hk c (cm_From m) w"
  have "task_step hk e (?t, s, w) (to_stage Claiming ?t, ?s1, w)"
    using task_step.noting [of ?t hk e s w] by (simp add: new_task_def)
  moreover have "task_step hk e (to_stage Claiming ?t, ?s1, w) (to_stage Calling ?t, ?s2, w)"
    using task_step.claiming [of "to_stage Claiming ?t" e ?s1 ?s2 hk w] False
    by (simp add: new_task_def claim_key_def)
  moreover have "task_step hk e (to_stage Calling ?t, ?s2, w) (to_stage Relaying ?t, ?s2, ?w1)"
    using task_step.calling [of "to_stage Calling ?t" hk e ?s2 w] by (simp add: new_task_def)
  moreover have "task_step hk e (to_stage Relaying ?t, ?s2, ?w1)
      (to_stage Relayed ?t, relayed e i c (cm_From m) s, ?w1)"
    using task_step.relaying [of "to_stage Relaying ?t" hk e ?s2 ?w1]
    by (simp add: new_task_def relayed_def)
  ultimately show ?thesis
    using False assms by (auto simp: handleClipboard_first intro: converse_rtranclp_into_rtranclp)
qed

lemma task_refines_example:
  "\<exists>g. (task_step ex_hooks ex_env)\<^sup>*\<^sup>* (new_task ''1'' ex_msg ex_content, ex_server, [])
      (to_stage g (new_task ''1'' ex_msg ex_content),
       fst (handleClipboard ex_env ex_hooks ''1'' ex_msg (ex_server, [])),
       snd (handleClipboard ex_env ex_hooks ''1'' ex_msg (ex_server, []))) \<and> g = Relayed"
  using task_refines [of ex_msg ex_content ex_hooks ex_env "''1''" ex_server "[]"] by simp

section \<open>Any number of tasks\<close>

text \<open>
  The tasks run in any order. Every step happens at \<open>t0\<close> or later, and within the echo
  window of it.
\<close>

inductive tasks_step ::
    "'w hooks \<Rightarrow> time \<Rightarrow> task list \<times> server \<times> 'w \<Rightarrow> task list \<times> server \<times> 'w \<Rightarrow> bool" for hk t0 where
  advance: "k < length ts \<Longrightarrow> task_step hk e (ts ! k, s, w) (t', s', w') \<Longrightarrow> t0 \<le> now e \<Longrightarrow>
    since (now e) t0 < EchoWindow (cfg_Timing (sv_cfg s)) \<Longrightarrow>
    tasks_step hk t0 (ts, s, w) (ts[k := t'], s', w')"

definition accepted :: "task \<Rightarrow> bool" where
  "accepted t \<longleftrightarrow> tk_stage t \<in> {Calling, Relaying, Relayed}"

definition finished :: "task \<Rightarrow> bool" where
  "finished t \<longleftrightarrow> tk_stage t \<in> {Relayed, Dropped}"

definition count_if :: "('a \<Rightarrow> bool) \<Rightarrow> 'a list \<Rightarrow> nat" where
  "count_if P xs = length (filter P xs)"

lemma count_if_update:
  "k < length xs \<Longrightarrow>
   count_if P (xs[k := x]) + (if P (xs ! k) then 1 else 0) = count_if P xs + (if P x then 1 else 0)"
proof (induction xs arbitrary: k)
  case (Cons y ys)
  then show ?case by (cases k) (auto simp: count_if_def split: if_splits)
qed simp

lemma since_mono: "n \<le> n' \<Longrightarrow> t' \<le> t \<Longrightarrow> since n t \<le> since n' t'"
  by (auto simp: since_def)

text \<open>
  The invariant, for a key: every task is about it, and either nobody has claimed it and it
  can still be claimed, or one task has and it is the last broadcast from \<open>t0\<close> on.
\<close>

definition dropped :: "task \<Rightarrow> bool" where
  "dropped t \<longleftrightarrow> tk_stage t = Dropped"

definition open_key :: "u64 \<Rightarrow> time \<Rightarrow> server \<Rightarrow> bool" where
  "open_key key t0 s \<longleftrightarrow>
     \<not> (key = sv_lastBroadcast s
        \<and> since t0 (sv_lastBroadcastT s) < EchoWindow (cfg_Timing (sv_cfg s)))"

definition taken_key :: "u64 \<Rightarrow> time \<Rightarrow> server \<Rightarrow> bool" where
  "taken_key key t0 s \<longleftrightarrow> key = sv_lastBroadcast s \<and> t0 \<le> sv_lastBroadcastT s"

definition tasks_inv :: "u64 \<Rightarrow> time \<Rightarrow> task list \<Rightarrow> server \<Rightarrow> bool" where
  "tasks_inv key t0 ts s \<longleftrightarrow>
     list_all (\<lambda>t. ContentKey (tk_content t) = key) ts \<and>
     (count_if accepted ts = 0 \<and> count_if dropped ts = 0 \<and> open_key key t0 s
      \<or> count_if accepted ts = 1 \<and> taken_key key t0 s)"

lemmas stage_defs = accepted_def dropped_def finished_def

lemma key_echo_cong:
  assumes "sv_lastBroadcast s' = sv_lastBroadcast s" "sv_lastBroadcastT s' = sv_lastBroadcastT s"
    "sv_cfg s' = sv_cfg s"
  shows "open_key key t0 s' = open_key key t0 s" "taken_key key t0 s' = taken_key key t0 s"
  using assms by (simp_all add: open_key_def taken_key_def)

lemma open_key_not_echo: "open_key key t0 s \<Longrightarrow> t0 \<le> now e \<Longrightarrow> \<not> is_echo e key s"
  using since_mono [of t0 "now e" "sv_lastBroadcastT s" "sv_lastBroadcastT s"]
  by (auto simp: open_key_def is_echo_def)

lemma taken_key_echo:
  "taken_key key t0 s \<Longrightarrow> since (now e) t0 < EchoWindow (cfg_Timing (sv_cfg s)) \<Longrightarrow> is_echo e key s"
  using since_mono [of "now e" "now e" t0 "sv_lastBroadcastT s"]
  by (auto simp: taken_key_def is_echo_def)

lemma key_echo_Broadcast [simp]:
  "open_key key t0 (Broadcast e c from i s) = open_key key t0 s"
  "taken_key key t0 (Broadcast e c from i s) = taken_key key t0 s"
  by (rule key_echo_cong; simp add: Broadcast_append)+

lemma key_echo_noteIncoming [simp]:
  "open_key key t0 (noteIncoming e i k s) = open_key key t0 s"
  "taken_key key t0 (noteIncoming e i k s) = taken_key key t0 s"
  by (rule key_echo_cong; simp)+

text \<open>Each step keeps it; the claim is the step where the two cases meet.\<close>

lemma tasks_inv_update:
  assumes inv: "tasks_inv key t0 ts s" and k: "k < length ts" and t': "t' = to_stage g (ts ! k)"
    and same: "accepted t' = accepted (ts ! k)" "dropped t' = dropped (ts ! k)"
    and s': "open_key key t0 s' = open_key key t0 s" "taken_key key t0 s' = taken_key key t0 s"
  shows "tasks_inv key t0 (ts[k := t']) s'"
proof -
  have "list_all (\<lambda>t. ContentKey (tk_content t) = key) (ts[k := t'])"
    using inv k t' unfolding tasks_inv_def list_all_length by (auto simp: nth_list_update)
  then show ?thesis
    using inv same s' count_if_update [OF k, of accepted t'] count_if_update [OF k, of dropped t']
    by (auto simp: tasks_inv_def)
qed

lemma tasks_inv_drop:
  assumes inv: "tasks_inv key t0 ts s" and k: "k < length ts" and g: "tk_stage (ts ! k) = Claiming"
    and late: "t0 \<le> now e" and echo: "is_echo e key s"
  shows "tasks_inv key t0 (ts[k := to_stage Dropped (ts ! k)]) s"
proof -
  have "\<not> open_key key t0 s"
    using open_key_not_echo late echo by blast
  moreover have "list_all (\<lambda>t. ContentKey (tk_content t) = key) (ts[k := to_stage Dropped (ts ! k)])"
    using inv k unfolding tasks_inv_def list_all_length by (auto simp: nth_list_update)
  ultimately show ?thesis
    using inv g count_if_update [OF k, of accepted "to_stage Dropped (ts ! k)"]
    by (auto simp: tasks_inv_def stage_defs)
qed

lemma tasks_inv_claim:
  assumes inv: "tasks_inv key t0 ts s" and k: "k < length ts" and g: "tk_stage (ts ! k) = Claiming"
    and late: "t0 \<le> now e" and early: "since (now e) t0 < EchoWindow (cfg_Timing (sv_cfg s))"
    and first: "\<not> is_echo e key s"
  shows "tasks_inv key t0 (ts[k := to_stage Calling (ts ! k)])
    (s\<lparr>sv_lastBroadcast := key, sv_lastBroadcastT := now e\<rparr>)"
proof -
  have "\<not> taken_key key t0 s"
    using taken_key_echo early first by blast
  moreover have "list_all (\<lambda>t. ContentKey (tk_content t) = key) (ts[k := to_stage Calling (ts ! k)])"
    using inv k unfolding tasks_inv_def list_all_length by (auto simp: nth_list_update)
  ultimately show ?thesis
    using inv g late count_if_update [OF k, of accepted "to_stage Calling (ts ! k)"]
    by (auto simp: tasks_inv_def stage_defs taken_key_def)
qed

lemma tasks_inv_step:
  assumes "tasks_step hk t0 (ts, s, w) (ts', s', w')" and inv: "tasks_inv key t0 ts s"
  shows "tasks_inv key t0 ts' s'"
  using assms(1)
proof (cases rule: tasks_step.cases)
  case (advance k e t')
  have key: "ContentKey (tk_content (ts ! k)) = key"
    using inv advance(2) by (simp add: tasks_inv_def list_all_length)
  from advance(3) show ?thesis
  proof (cases rule: task_step.cases)
    case noting
    then show ?thesis
      using tasks_inv_update [OF inv advance(2)] advance(1) by (simp add: stage_defs)
  next
    case dropping
    then show ?thesis
      using tasks_inv_drop [OF inv advance(2)] advance key
      by (auto simp: claim_key_def split: if_splits)
  next
    case claiming
    then show ?thesis
      using tasks_inv_claim [OF inv advance(2)] advance key
      by (auto simp: claim_key_def split: if_splits)
  next
    case calling
    then show ?thesis
      using tasks_inv_update [OF inv advance(2)] advance(1) by (simp add: stage_defs)
  next
    case relaying
    then show ?thesis
      using tasks_inv_update [OF inv advance(2)] advance(1) by (simp add: stage_defs)
  qed
qed

lemmas rtranclp_induct3 = rtranclp_induct [of _ "(ax, ay, az)" "(bx, by, bz)", split_rule, consumes 1, case_names refl step]

lemma tasks_inv_run:
  assumes "(tasks_step hk t0)\<^sup>*\<^sup>* (ts, s, w) (ts', s', w')" and "tasks_inv key t0 ts s"
  shows "tasks_inv key t0 ts' s'"
  using assms by (induction rule: rtranclp_induct3) (auto intro: tasks_inv_step)

section \<open>The tasks come to an end\<close>

text \<open>A task has four steps at most, and an unfinished one always has a next step.\<close>

fun rank :: "stage \<Rightarrow> nat" where
  "rank Noting = 4"
| "rank Claiming = 3"
| "rank Calling = 2"
| "rank Relaying = 1"
| "rank Relayed = 0"
| "rank Dropped = 0"

definition work_left :: "task list \<Rightarrow> nat" where
  "work_left ts = (\<Sum>t\<leftarrow>ts. rank (tk_stage t))"

lemma work_left_update:
  "k < length ts \<Longrightarrow>
   work_left (ts[k := t]) + rank (tk_stage (ts ! k)) = work_left ts + rank (tk_stage t)"
proof (induction ts arbitrary: k)
  case (Cons y ys)
  then show ?case by (cases k) (auto simp: work_left_def)
qed (simp add: work_left_def)

lemma task_step_rank:
  "task_step hk e (t, s, w) (t', s', w') \<Longrightarrow> rank (tk_stage t') < rank (tk_stage t)"
  by (cases rule: task_step.cases) auto

lemma task_step_cfg: "task_step hk e (t, s, w) (t', s', w') \<Longrightarrow> sv_cfg s' = sv_cfg s"
  by (cases rule: task_step.cases) (auto simp: Broadcast_append claim_key_def split: if_splits)

lemma task_progress:
  assumes "\<not> finished t"
  shows "\<exists>t' s' w'. task_step hk e (t, s, w) (t', s', w')"
proof (cases "tk_stage t")
  case Claiming
  obtain b s' where "claim_key e (ContentKey (tk_content t)) s = (b, s')"
    by fastforce
  then show ?thesis
    using task_step.dropping [OF Claiming, of e s s' hk w] task_step.claiming [OF Claiming, of e s s' hk w]
    by (cases b) auto
next
  case Noting
  then show ?thesis using task_step.noting [of t hk e s w] by auto
next
  case Calling
  then show ?thesis using task_step.calling [of t hk e s w] by auto
next
  case Relaying
  then show ?thesis using task_step.relaying [of t hk e s w] by auto
qed (use assms in \<open>simp_all add: finished_def\<close>)

lemma tasks_progress:
  assumes "\<not> list_all finished ts" and "0 < EchoWindow (cfg_Timing (sv_cfg s))"
  shows "\<exists>ts' s' w'. tasks_step hk t0 (ts, s, w) (ts', s', w')"
proof -
  obtain k where k: "k < length ts" and open_task: "\<not> finished (ts ! k)"
    using assms(1) by (auto simp: list_all_length)
  let ?e = "\<lparr>now = t0, wok = \<lambda>_. True, pok = \<lambda>_. True\<rparr>"
  obtain t' s' w' where st: "task_step hk ?e (ts ! k, s, w) (t', s', w')"
    using task_progress [OF open_task, of hk ?e s w] by auto
  show ?thesis
    using tasks_step.advance [OF k st, of t0] assms(2) by auto
qed

lemma tasks_step_work:
  assumes "tasks_step hk t0 (ts, s, w) (ts', s', w')"
  shows "work_left ts' < work_left ts \<and> sv_cfg s' = sv_cfg s"
  using assms
proof (cases rule: tasks_step.cases)
  case (advance k e t')
  then show ?thesis
    using work_left_update [OF advance(2), of t'] task_step_rank [OF advance(3)] task_step_cfg [OF advance(3)]
    by simp
qed

lemma tasks_end:
  assumes "0 < EchoWindow (cfg_Timing (sv_cfg s))"
  shows "\<exists>ts' s' w'. (tasks_step hk t0)\<^sup>*\<^sup>* (ts, s, w) (ts', s', w') \<and> list_all finished ts'"
  using assms
proof (induction "work_left ts" arbitrary: ts s w rule: less_induct)
  case less
  show ?case
  proof (cases "list_all finished ts")
    case False
    then obtain ts1 s1 w1 where one: "tasks_step hk t0 (ts, s, w) (ts1, s1, w1)"
      using tasks_progress [OF _ less.prems, of ts hk t0 w] by auto
    moreover have "0 < EchoWindow (cfg_Timing (sv_cfg s1))"
      using less.prems tasks_step_work [OF one] by simp
    ultimately show ?thesis
      using less.hyps [OF conjunct1 [OF tasks_step_work [OF one]], of s1 w1] one
      by (meson converse_rtranclp_into_rtranclp)
  qed blast
qed

lemma tasks_run_work:
  "(tasks_step hk t0 ^^ n) (ts, s, w) (ts', s', w') \<Longrightarrow>
   work_left ts' + n \<le> work_left ts \<and> sv_cfg s' = sv_cfg s"
proof (induction n arbitrary: ts' s' w')
  case (Suc n)
  then obtain ts1 s1 w1 where "(tasks_step hk t0 ^^ n) (ts, s, w) (ts1, s1, w1)"
      and one: "tasks_step hk t0 (ts1, s1, w1) (ts', s', w')"
    by (auto elim!: relcomppE)
  then show ?case
    using Suc.IH [of ts1 s1 w1] tasks_step_work [OF one] by simp
qed simp

lemma work_left_le: "work_left ts \<le> 4 * length ts"
proof (induction ts)
  case (Cons t ts)
  have "rank (tk_stage t) \<le> 4"
    by (cases "tk_stage t") simp_all
  with Cons show ?case by (simp add: work_left_def)
qed (simp add: work_left_def)

text \<open>Handlers of clipboard messages end, however many run at the same time and however they
  interleave: no run has more than four steps for each of them, and as long as one is not done
  some handler can go on, so they never wait for each other in a circle.\<close>

lemma concurrent_handlers_finish:
  assumes "(tasks_step hk t0 ^^ n) (ts, s, w) (ts', s', w')"
    and "0 < EchoWindow (cfg_Timing (sv_cfg s))"
  shows "n \<le> 4 * length ts \<and> (list_all finished ts' \<or> (\<exists>st. tasks_step hk t0 (ts', s', w') st))"
proof -
  have "n \<le> 4 * length ts" and cfg: "sv_cfg s' = sv_cfg s"
    using tasks_run_work [OF assms(1)] work_left_le [of ts] by simp_all
  moreover have "\<exists>st. tasks_step hk t0 (ts', s', w') st" if "\<not> list_all finished ts'"
    using tasks_progress [OF that, of s' hk t0 w'] assms(2) cfg by auto
  ultimately show ?thesis by blast
qed

lemma concurrent_handlers_finish_example:
  "\<exists>st. tasks_step ex_hooks 0 ([new_task ''1'' ex_msg ex_content], ex_server, []) st"
proof -
  have "\<not> list_all finished [new_task ''1'' ex_msg ex_content]"
    by (simp add: finished_def new_task_def)
  moreover have "0 < EchoWindow (cfg_Timing (sv_cfg ex_server))"
    by (simp add: second_def)
  ultimately show ?thesis
    using concurrent_handlers_finish [where hk = ex_hooks and ?t0.0 = 0 and n = 0 and s = ex_server
        and ts = "[new_task ''1'' ex_msg ex_content]" and w = "[]", OF relpowp_0_I]
    by blast
qed

section \<open>One of them is relayed\<close>

definition tasks_of :: "(string \<times> clipboard_msg \<times> content) list \<Rightarrow> task list" where
  "tasks_of ms = map (\<lambda>(i, m, c). new_task i m c) ms"

definition was_relayed :: "task \<Rightarrow> bool" where
  "was_relayed t \<longleftrightarrow> tk_stage t = Relayed"

lemma tasks_inv_start:
  assumes "list_all (\<lambda>(i, m, c). ContentKey c = key) ms" and "\<not> is_echo e key s"
  shows "tasks_inv key (now e) (tasks_of ms) s"
proof -
  have "list_all (\<lambda>t. ContentKey (tk_content t) = key) (tasks_of ms)"
    using assms(1) by (auto simp: tasks_of_def list_all_iff new_task_def)
  moreover have "count_if accepted (tasks_of ms) = 0" "count_if dropped (tasks_of ms) = 0"
    by (auto simp: count_if_def tasks_of_def filter_empty_conv new_task_def stage_defs)
  ultimately show ?thesis
    using assms(2) by (simp add: tasks_inv_def open_key_def is_echo_def)
qed

lemma tasks_step_length:
  "(tasks_step hk t0)\<^sup>*\<^sup>* (ts, s, w) (ts', s', w') \<Longrightarrow> length ts' = length ts"
proof (induction rule: rtranclp_induct3)
  case (step a b c d e f)
  then show ?case by (auto elim!: tasks_step.cases)
qed simp

lemma finished_counts:
  assumes "list_all finished ts"
  shows "count_if accepted ts = count_if was_relayed ts"
    and "count_if was_relayed ts + count_if dropped ts = length ts"
  using assms by (induction ts) (auto simp: count_if_def stage_defs was_relayed_def)

text \<open>C7: Any number of clients may send the same content at the same time, each in its own
  goroutine, and their handlers may interleave in any way the server's lock allows. When all
  of them are done, and all their steps lie within the echo window, exactly one of the
  messages was relayed and every other one was dropped: the check of the last broadcast and
  its update are one critical section.\<close>

theorem concurrent_copies_relayed_once:
  assumes "ms \<noteq> []" and "list_all (\<lambda>(i, m, c). ContentKey c = key) ms"
    and "\<not> is_echo e key s"
    and "(tasks_step hk (now e))\<^sup>*\<^sup>* (tasks_of ms, s, w) (ts', s', w')"
    and "list_all finished ts'"
  shows "count_if was_relayed ts' = 1 \<and> count_if dropped ts' = length ms - 1"
proof -
  have "tasks_inv key (now e) ts' s'"
    using tasks_inv_run [OF assms(4)] tasks_inv_start [OF assms(2,3)] by blast
  moreover have "length ts' = length ms"
    using tasks_step_length [OF assms(4)] by (simp add: tasks_of_def)
  ultimately show ?thesis
    using assms(1) finished_counts [OF assms(5)] by (auto simp: tasks_inv_def)
qed

theorem concurrent_copies_relayed_once_witness:
  "\<exists>ts' s' w'. (tasks_step ex_hooks (now ex_env))\<^sup>*\<^sup>*
       (tasks_of [(''1'', ex_msg, ex_content), (''2'', ex_msg, ex_content)], ex_server, []) (ts', s', w')
     \<and> count_if was_relayed ts' = 1 \<and> count_if dropped ts' = 1"
proof -
  let ?ms = "[(''1'', ex_msg, ex_content), (''2'', ex_msg, ex_content)]"
  have window: "0 < EchoWindow (cfg_Timing (sv_cfg ex_server))"
    by (simp add: second_def)
  obtain ts' s' w' where run: "(tasks_step ex_hooks (now ex_env))\<^sup>*\<^sup>*
      (tasks_of ?ms, ex_server, []) (ts', s', w')" and fin: "list_all finished ts'"
    using tasks_end [OF window, where hk = ex_hooks and ts = "tasks_of ?ms"
        and ?t0.0 = "now ex_env" and w = "[]"] by blast
  have "list_all (\<lambda>(i, m, c). ContentKey c = ContentKey ex_content) ?ms"
    by (simp only: list.pred_inject prod.case simp_thms)
  from concurrent_copies_relayed_once [OF _ this ex_not_echo run fin]
  have "count_if was_relayed ts' = 1" "count_if dropped ts' = 1"
    by (simp_all only: list.size list.distinct not_False_eq_True simp_thms)
  with run show ?thesis
    by (intro exI conjI)
qed

end
