(* ===== verification/Network.thy ===== *)
theory Network
  imports Interleave
begin

text \<open>
  Several daemons that are each other's peers. A peer connection carries a clipboard frame
  from the daemon that dialed to a client entry of the daemon that was dialed, whose
  \<open>handleClipboard\<close> may relay it to its own peers. What a daemon writes to its clients ends
  there (a \<open>PeerClient\<close> only writes the clipboard), so the frames on peer connections are all
  there is to a flood. A step delivers one of them, in any order. The lemmas: a flood with one
  content ends, in any topology, while two contents sent at the same time into two daemons
  that dial each other never do.
\<close>

section \<open>The network\<close>

text \<open>Daemons are numbered; a frame in flight has its daemon and the client entry it comes from.\<close>

record 'w network =
  nt_server :: "nat \<Rightarrow> server"
  nt_world :: "nat \<Rightarrow> 'w"
  nt_flight :: "(nat \<times> string \<times> json) list"

text \<open>Where the connection of peer \<open>p\<close> of daemon \<open>n\<close> leads.\<close>

type_synonym routes = "nat \<Rightarrow> nat \<Rightarrow> nat \<times> string"

fun peer_sends :: "out_event list \<Rightarrow> (nat \<times> json) list" where
  "peer_sends [] = []"
| "peer_sends (SentPeer p m # xs) = (p, m) # peer_sends xs"
| "peer_sends (x # xs) = peer_sends xs"

definition forward :: "routes \<Rightarrow> nat \<Rightarrow> (nat \<times> json) list \<Rightarrow> (nat \<times> string \<times> json) list" where
  "forward route n ps = map (\<lambda>(p, m). (fst (route n p), snd (route n p), m)) ps"

text \<open>A frame arrives at daemon \<open>n\<close>: its reading loop handles it, and what it sends is in flight.\<close>

definition arrive ::
    "'w hooks \<Rightarrow> routes \<Rightarrow> env \<Rightarrow> nat \<times> string \<times> json \<Rightarrow> 'w network \<Rightarrow> 'w network" where
  "arrive hk route e x st =
     (case x of (n, i, f) \<Rightarrow>
        let s = nt_server st n;
            sw = handleMessage e hk i (Frame (Some f)) (s, nt_world st n);
            new = drop (length (sv_out s)) (sv_out (fst sw))
        in st\<lparr>nt_server := (nt_server st)(n := fst sw), nt_world := (nt_world st)(n := snd sw),
              nt_flight := nt_flight st @ forward route n (peer_sends new)\<rparr>)"

definition remove_nth :: "nat \<Rightarrow> 'a list \<Rightarrow> 'a list" where
  "remove_nth k xs = take k xs @ drop (Suc k) xs"

text \<open>One step, at a time within the echo window from \<open>t0\<close> on.\<close>

inductive net_step :: "'w hooks \<Rightarrow> routes \<Rightarrow> time \<Rightarrow> 'w network \<Rightarrow> 'w network \<Rightarrow> bool" for hk route t0 where
  delivering: "k < length (nt_flight st) \<Longrightarrow> nt_flight st ! k = x \<Longrightarrow> t0 \<le> now e \<Longrightarrow>
    since (now e) t0 < EchoWindow (cfg_Timing (sv_cfg (nt_server st (fst x)))) \<Longrightarrow>
    in_int64 (UnixMilli (now e)) \<Longrightarrow>
    net_step hk route t0 st
      (arrive hk route e x (st\<lparr>nt_flight := remove_nth k (nt_flight st)\<rparr>))"

section \<open>What a frame does on arrival\<close>

text \<open>A content that goes through the messages unchanged: valid text, an image with its type.\<close>

definition stable :: "content \<Rightarrow> bool" where
  "stable c \<longleftrightarrow> sendable c \<and> received c = c"

definition frame_of :: "content \<Rightarrow> json \<Rightarrow> bool" where
  "frame_of c f \<longleftrightarrow> (\<exists>ts from. f = clipboard_frame c ts from \<and> in_int64 ts)"

text \<open>What a receiver makes of a frame of \<open>c\<close>: the message whose content is \<open>c\<close> again.\<close>

definition message_of :: "content \<Rightarrow> json \<Rightarrow> clipboard_msg \<Rightarrow> bool" where
  "message_of c f m \<longleftrightarrow> MsgToContent m = Some c \<and>
     (\<exists>ts from. f = clipboard_frame c ts from
       \<and> unmarshal_clipboard (Some (marshal_clipboard (ContentMsg c ts from))) = Some m)"

lemma frame_message:
  assumes "stable c" and "frame_of c f"
  obtains m where "message_of c f m"
proof -
  obtain ts from' where f: "f = clipboard_frame c ts from'" "in_int64 ts"
    using assms(2) by (auto simp: frame_of_def)
  have "Option.bind (unmarshal_clipboard (Some (marshal_clipboard (ContentMsg c ts from')))) MsgToContent = Some c"
    using unmarshal_ContentMsg [of c ts from'] assms(1) f(2) by (simp add: stable_def del: unmarshal_marshal_clipboard)
  then show ?thesis
    using f(1) that by (auto simp: message_of_def bind_eq_Some_conv simp del: unmarshal_marshal_clipboard)
qed

lemma handleMessage_frame:
  "message_of c f m \<Longrightarrow> handleMessage e hk i (Frame (Some f)) sw = handleClipboard e hk i m sw"
  by (auto simp: message_of_def handleMessage_def Let_def simp del: unmarshal_marshal_clipboard)

lemma peer_sends_append [simp]: "peer_sends (xs @ ys) = peer_sends xs @ peer_sends ys"
  by (induction xs rule: peer_sends.induct) simp_all

lemma peer_sends_events [simp]:
  "peer_sends (sent_events e m ids) = []"
  "peer_sends (peer_events e m ps) = map (\<lambda>p. (fst p, m)) (filter (\<lambda>p. snd p \<and> pok e (fst p)) ps)"
proof -
  show "peer_sends (sent_events e m ids) = []"
    unfolding sent_events_def by (induction ids) simp_all
  show "peer_sends (peer_events e m ps) = map (\<lambda>p. (fst p, m)) (filter (\<lambda>p. snd p \<and> pok e (fst p)) ps)"
    unfolding peer_events_def by (induction ps) simp_all
qed

lemma arrive_echo:
  assumes "stable c" "frame_of c f" "is_echo e (ContentKey c) (nt_server st n)"
  shows "arrive hk route e (n, i, f) st =
    st\<lparr>nt_server := (nt_server st)(n := noteIncoming e i (ContentKey c) (nt_server st n))\<rparr>"
proof -
  obtain m where m: "message_of c f m"
    using frame_message assms(1,2) .
  then have "MsgToContent m = Some c"
    by (simp add: message_of_def)
  then show ?thesis
    using assms(3)
    by (simp add: arrive_def handleMessage_frame [OF m] handleClipboard_echo forward_def Let_def)
qed

text \<open>The peer frames of one relay.\<close>

definition relay_frames :: "env \<Rightarrow> content \<Rightarrow> string \<Rightarrow> server \<Rightarrow> (nat \<times> json) list" where
  "relay_frames e c from s =
     (if too_big s c then []
      else map (\<lambda>p. (fst p, clipboard_frame c (UnixMilli (now e)) from))
        (filter (\<lambda>p. snd p \<and> pok e (fst p)) (sv_peers s)))"

lemma arrive_first:
  assumes "stable c" "frame_of c f" "\<not> is_echo e (ContentKey c) (nt_server st n)"
  shows "\<exists>from'. arrive hk route e (n, i, f) st =
    st\<lparr>nt_server := (nt_server st)(n := relayed e i c from' (nt_server st n)),
       nt_world := (nt_world st)(n := run_remote_hook hk c from' (nt_world st n)),
       nt_flight := nt_flight st @ forward route n (relay_frames e c from' (nt_server st n))\<rparr>"
proof -
  obtain m where m: "message_of c f m"
    using frame_message assms(1,2) .
  then have mc: "MsgToContent m = Some c"
    by (simp add: message_of_def)
  show ?thesis
    using assms(3)
    by (intro exI [of _ "cm_From m"])
      (simp add: arrive_def handleMessage_frame [OF m] handleClipboard_first [OF mc] sv_out_relayed
        relay_frames_def Let_def)
qed

lemma relay_frames_bound: "length (relay_frames e c from s) \<le> length (sv_peers s)"
  by (simp add: relay_frames_def)

lemma relay_frames_flood:
  "(p, f) \<in> set (relay_frames e c from s) \<Longrightarrow> in_int64 (UnixMilli (now e)) \<Longrightarrow>
   p \<in> fst ` set (sv_peers s) \<and> frame_of c f"
  by (auto simp: relay_frames_def frame_of_def split: if_splits)

section \<open>One content\<close>

text \<open>
  The frames of a flood: content \<open>c\<close>, for daemons of \<open>N\<close>, which is closed under the peer
  connections. Each daemon that has not taken \<open>c\<close> yet can still send one frame per peer.
\<close>

definition flood :: "routes \<Rightarrow> nat set \<Rightarrow> content \<Rightarrow> 'w network \<Rightarrow> bool" where
  "flood route N c st \<longleftrightarrow>
     (\<forall>x \<in> set (nt_flight st). fst x \<in> N \<and> frame_of c (snd (snd x)))
     \<and> (\<forall>n \<in> N. 0 < EchoWindow (cfg_Timing (sv_cfg (nt_server st n)))
          \<and> (\<forall>p \<in> set (sv_peers (nt_server st n)). fst (route n (fst p)) \<in> N))"

definition still_to_send :: "u64 \<Rightarrow> time \<Rightarrow> server \<Rightarrow> nat" where
  "still_to_send key t0 s = (if taken_key key t0 s then 0 else length (sv_peers s))"

definition potential :: "u64 \<Rightarrow> time \<Rightarrow> nat set \<Rightarrow> 'w network \<Rightarrow> nat" where
  "potential key t0 N st = length (nt_flight st) + (\<Sum>n\<in>N. still_to_send key t0 (nt_server st n))"

lemma length_remove_nth [simp]: "k < length xs \<Longrightarrow> length (remove_nth k xs) = length xs - 1"
  by (simp add: remove_nth_def)

lemma set_remove_nth: "set (remove_nth k xs) \<subseteq> set xs"
  unfolding remove_nth_def using set_take_subset [of k xs] set_drop_subset [of "Suc k" xs] by auto

lemma sv_peers_relayed [simp]: "sv_peers (relayed e i c from s) = sv_peers s"
  by (simp add: relayed_def Broadcast_append)

lemma sv_cfg_relayed [simp]: "sv_cfg (relayed e i c from s) = sv_cfg s"
  by (simp add: relayed_def Broadcast_append)

lemma taken_relayed: "t0 \<le> now e \<Longrightarrow> taken_key (ContentKey c) t0 (relayed e i c from s)"
  by (simp add: relayed_def) (simp add: taken_key_def)

lemma still_to_send_noteIncoming:
  "still_to_send key t0 (noteIncoming e i k s) = still_to_send key t0 s"
  by (simp add: still_to_send_def)

lemma sum_update_less:
  fixes g :: "'b \<Rightarrow> nat"
  assumes "finite N" "n \<in> N"
  shows "(\<Sum>k\<in>N. g ((h(n := y)) k)) + g (h n) = (\<Sum>k\<in>N. g (h k)) + g y"
  using assms by (simp add: sum.remove [of N n])

text \<open>Each delivery uses up one frame, or a daemon's only turn to send.\<close>

lemma flood_step:
  assumes step: "net_step hk route t0 st st'" and N: "finite N" and c: "stable c"
    and fl: "flood route N c st"
  shows "flood route N c st' \<and> potential (ContentKey c) t0 N st' < potential (ContentKey c) t0 N st"
  using step
proof cases
  case (delivering k x e)
  obtain n i f where x: "x = (n, i, f)"
    by (cases x)
  let ?st = "st\<lparr>nt_flight := remove_nth k (nt_flight st)\<rparr>"
  have "x \<in> set (nt_flight st)"
    using delivering(2,3) nth_mem by blast
  then have n: "n \<in> N" and f: "frame_of c f"
    using fl x by (auto simp: flood_def)
  have rest: "\<forall>y \<in> set (remove_nth k (nt_flight st)). fst y \<in> N \<and> frame_of c (snd (snd y))"
    using fl set_remove_nth [of k "nt_flight st"] by (auto simp: flood_def)
  have sum: "\<And>s. (\<Sum>m\<in>N. still_to_send (ContentKey c) t0 (((nt_server st)(n := s)) m))
      + still_to_send (ContentKey c) t0 (nt_server st n)
    = (\<Sum>m\<in>N. still_to_send (ContentKey c) t0 (nt_server st m)) + still_to_send (ContentKey c) t0 s"
    using sum_update_less [OF N n] .
  show ?thesis
  proof (cases "is_echo e (ContentKey c) (nt_server st n)")
    case True
    have st': "st' = ?st\<lparr>nt_server := (nt_server st)(n := noteIncoming e i (ContentKey c) (nt_server st n))\<rparr>"
      using delivering(1) arrive_echo [OF c f, of e ?st n hk route i] True by (simp add: x)
    show ?thesis
      using sum [of "noteIncoming e i (ContentKey c) (nt_server st n)"] delivering(2) rest fl
      by (simp add: st' flood_def potential_def still_to_send_noteIncoming)
  next
    case False
    then have fresh: "\<not> taken_key (ContentKey c) t0 (nt_server st n)"
      using taken_key_echo delivering(5) x by (metis fst_conv)
    obtain from' where st': "st' = ?st\<lparr>nt_server := (nt_server st)(n := relayed e i c from' (nt_server st n)),
        nt_world := (nt_world st)(n := run_remote_hook hk c from' (nt_world st n)),
        nt_flight := remove_nth k (nt_flight st) @ forward route n (relay_frames e c from' (nt_server st n))\<rparr>"
      using delivering(1) arrive_first [OF c f, of e ?st n hk route i] False x by auto
    have "\<forall>y \<in> set (forward route n (relay_frames e c from' (nt_server st n))). fst y \<in> N \<and> frame_of c (snd (snd y))"
      using fl n relay_frames_flood [OF _ delivering(6)] by (fastforce simp: forward_def flood_def)
    then have "flood route N c st'"
      using rest fl by (auto simp: st' flood_def)
    moreover have "potential (ContentKey c) t0 N st' < potential (ContentKey c) t0 N st"
      using sum [of "relayed e i c from' (nt_server st n)"] delivering(2) fresh
        taken_relayed [OF delivering(4), of c i from' "nt_server st n"]
        relay_frames_bound [of e c from' "nt_server st n"]
      by (simp add: st' potential_def still_to_send_def forward_def)
    ultimately show ?thesis
      by blast
  qed
qed

lemma flood_run:
  assumes "(net_step hk route t0 ^^ k) st st'" "finite N" "stable c" "flood route N c st"
  shows "flood route N c st' \<and> k + potential (ContentKey c) t0 N st' \<le> potential (ContentKey c) t0 N st"
  using assms(1)
proof (induction k arbitrary: st')
  case (Suc k)
  then obtain st1 where "(net_step hk route t0 ^^ k) st st1" "net_step hk route t0 st1 st'"
    by auto
  then show ?case
    using Suc.IH [of st1] flood_step [of hk route t0 st1 st' N c] assms(2,3) by fastforce
qed (simp add: assms)

lemma flood_next:
  assumes "flood route N c st" "nt_flight st \<noteq> []" "in_int64 (UnixMilli t0)"
  shows "\<exists>st'. net_step hk route t0 st st'"
proof -
  have "fst (nt_flight st ! 0) \<in> N"
    using assms(1,2) nth_mem [of 0 "nt_flight st"] by (auto simp: flood_def)
  then show ?thesis
    using net_step.delivering [of 0 st "nt_flight st ! 0" t0
        "\<lparr>now = t0, wok = (\<lambda>_. True), pok = (\<lambda>_. True)\<rparr>" hk route] assms
    by (auto simp: flood_def)
qed

text \<open>Two daemons that have dialed each other, for the examples.\<close>

definition ex_routes :: routes where
  "ex_routes n p = (1 - n, ''2'')"

definition ex_network :: "(nat \<times> string \<times> json) list \<Rightarrow> content list network" where
  "ex_network fl = \<lparr>nt_server = (\<lambda>_. ex_server\<lparr>sv_peers := [(0, True)]\<rparr>), nt_world = (\<lambda>_. []), nt_flight = fl\<rparr>"

lemma ex_network_fields [simp]:
  "sv_peers (nt_server (ex_network fl) n) = [(0, True)]" "nt_flight (ex_network fl) = fl"
  "sv_cfg (nt_server (ex_network fl) n) = ex_config" "sv_lastBroadcast (nt_server (ex_network fl) n) = 0"
  "nt_world (ex_network fl) n = []"
  by (simp_all add: ex_network_def)

definition ex_frame :: "string \<Rightarrow> json" where
  "ex_frame t = clipboard_frame (text_content t) 1 ''phone''"

lemma frame_of_ex [simp]: "frame_of (text_content t) (ex_frame t)"
  by (auto simp: frame_of_def ex_frame_def in_int64_def)

lemma stable_ascii: "is_ascii t \<Longrightarrow> t \<noteq> [] \<Longrightarrow> stable (text_content t)"
  by (simp add: stable_def sendable_def received_def valid_utf8_ascii)

text \<open>C10: Termination of a flood: in any network of daemons, cycles included, one content (however
  many frames of it are in flight at the start) is passed on only finitely often within the
  echo window. A run has at most as many deliveries as there were frames, plus one per peer
  connection; and it does not get stuck before the last frame is delivered.\<close>

theorem flood_ends:
  assumes "stable c" and "finite N" and "flood route N c st" and "in_int64 (UnixMilli t0)"
    and "(net_step hk route t0 ^^ k) st st'"
  shows "k \<le> length (nt_flight st) + (\<Sum>n\<in>N. length (sv_peers (nt_server st n)))
    \<and> (nt_flight st' \<noteq> [] \<longrightarrow> (\<exists>st''. net_step hk route t0 st' st''))"
proof -
  have run: "flood route N c st' \<and> k \<le> potential (ContentKey c) t0 N st"
    using flood_run [OF assms(5,2,1,3)] by linarith
  have "potential (ContentKey c) t0 N st \<le> length (nt_flight st) + (\<Sum>n\<in>N. length (sv_peers (nt_server st n)))"
    by (simp add: potential_def still_to_send_def sum_mono)
  then show ?thesis
    using run flood_next assms(4) by (meson order_trans)
qed

theorem flood_ends_witness:
  "\<exists>st'. (net_step ex_hooks ex_routes 1 ^^ 1) (ex_network [(1, ''2'', ex_frame ''hi'')]) st'
    \<and> (1::nat) \<le> 3 \<and> (nt_flight st' \<noteq> [] \<longrightarrow> (\<exists>st''. net_step ex_hooks ex_routes 1 st' st''))"
proof -
  let ?st = "ex_network [(1, ''2'', ex_frame ''hi'')]"
  have c: "stable (text_content ''hi'')"
    by (rule stable_ascii) (simp_all add: byte_in_def)
  have fl: "flood ex_routes {0, 1} (text_content ''hi'') ?st"
    by (simp add: flood_def ex_routes_def second_def)
  have t: "in_int64 (UnixMilli 1)"
    by (simp add: UnixMilli_def in_int64_def)
  obtain st' where st': "net_step ex_hooks ex_routes 1 ?st st'"
    using flood_next [OF fl _ t] by auto
  then show ?thesis
    using flood_ends [OF c _ fl t, of 1 ex_hooks st'] by auto
qed

section \<open>Two contents\<close>

text \<open>The frames delivered first come, first served, the \<open>k\<close>-th at the \<open>k\<close>-th time of a list.\<close>

fun deliver_in_order :: "'w hooks \<Rightarrow> routes \<Rightarrow> env list \<Rightarrow> 'w network \<Rightarrow> 'w network" where
  "deliver_in_order hk route [] st = st"
| "deliver_in_order hk route (e # es) st =
     (case nt_flight st of
        [] \<Rightarrow> st
      | x # xs \<Rightarrow> deliver_in_order hk route es (arrive hk route e x (st\<lparr>nt_flight := xs\<rparr>)))"

text \<open>Daemons \<open>a\<close> and \<open>b\<close> have dialed each other, as peers \<open>pa\<close> and \<open>pb\<close>.\<close>

definition dialed :: "routes \<Rightarrow> nat \<Rightarrow> nat \<Rightarrow> nat \<Rightarrow> nat \<Rightarrow> 'w network \<Rightarrow> bool" where
  "dialed route a pa b pb st \<longleftrightarrow> a \<noteq> b
     \<and> sv_peers (nt_server st a) = [(pa, True)] \<and> sv_peers (nt_server st b) = [(pb, True)]
     \<and> fst (route a pa) = b \<and> fst (route b pb) = a"

definition fits :: "content \<Rightarrow> nat \<Rightarrow> 'w network \<Rightarrow> bool" where
  "fits c n st \<longleftrightarrow> stable c \<and> \<not> too_big (nt_server st n) c"

text \<open>A frame of \<open>x\<close> is on its way to \<open>b\<close>, then one of \<open>y\<close> to \<open>a\<close>; both are news there.\<close>

definition crossing :: "routes \<Rightarrow> content \<Rightarrow> content \<Rightarrow> nat \<Rightarrow> nat \<Rightarrow> 'w network \<Rightarrow> bool" where
  "crossing route x y a b st \<longleftrightarrow> ContentKey x \<noteq> ContentKey y
     \<and> (\<exists>pa pb. dialed route a pa b pb st)
     \<and> fits x a st \<and> fits x b st \<and> fits y a st \<and> fits y b st
     \<and> sv_lastBroadcast (nt_server st a) \<noteq> ContentKey y
     \<and> sv_lastBroadcast (nt_server st b) \<noteq> ContentKey x
     \<and> (\<exists>i j f g. nt_flight st = [(b, i, f), (a, j, g)] \<and> frame_of x f \<and> frame_of y g)"

text \<open>And after the first of them: both are on their way to \<open>a\<close>.\<close>

definition crossed :: "routes \<Rightarrow> content \<Rightarrow> content \<Rightarrow> nat \<Rightarrow> nat \<Rightarrow> 'w network \<Rightarrow> bool" where
  "crossed route x y a b st \<longleftrightarrow> ContentKey x \<noteq> ContentKey y
     \<and> (\<exists>pa pb. dialed route a pa b pb st)
     \<and> fits x a st \<and> fits x b st \<and> fits y a st \<and> fits y b st
     \<and> sv_lastBroadcast (nt_server st a) \<noteq> ContentKey y
     \<and> sv_lastBroadcast (nt_server st b) = ContentKey x
     \<and> (\<exists>i j f g. nt_flight st = [(a, j, g), (a, i, f)] \<and> frame_of x f \<and> frame_of y g)"

definition deliver_head :: "'w hooks \<Rightarrow> routes \<Rightarrow> env \<Rightarrow> 'w network \<Rightarrow> 'w network" where
  "deliver_head hk route e st = arrive hk route e (hd (nt_flight st)) (st\<lparr>nt_flight := tl (nt_flight st)\<rparr>)"

lemma last_relayed [simp]: "sv_lastBroadcast (relayed e i c from s) = ContentKey c"
  by (simp add: relayed_def Broadcast_append)

lemma too_big_relayed [simp]: "too_big (relayed e i c from s) = too_big s"
  by (rule ext) (simp add: too_big_def)

lemma is_echo_last: "is_echo e k s \<Longrightarrow> sv_lastBroadcast s = k"
  by (simp add: is_echo_def)

definition usable :: "env \<Rightarrow> bool" where
  "usable e \<longleftrightarrow> in_int64 (UnixMilli (now e)) \<and> pok e = (\<lambda>_. True)"

text \<open>News for a daemon with one peer: it takes it and passes it on.\<close>

lemma head_is_news:
  assumes "nt_flight st = (n, i, f) # xs" and "frame_of c f" and "fits c n st" and "usable e"
    and "sv_lastBroadcast (nt_server st n) \<noteq> ContentKey c"
    and "sv_peers (nt_server st n) = [(p, True)]" and "fst (route n p) = m"
  shows "\<exists>s from' j g. deliver_head hk route e st =
      st\<lparr>nt_server := (nt_server st)(n := s),
         nt_world := (nt_world st)(n := run_remote_hook hk c from' (nt_world st n)),
         nt_flight := xs @ [(m, j, g)]\<rparr>
    \<and> frame_of c g \<and> sv_lastBroadcast s = ContentKey c
    \<and> sv_peers s = sv_peers (nt_server st n) \<and> too_big s = too_big (nt_server st n)"
proof -
  have "stable c" and small: "\<not> too_big (nt_server st n) c"
    using assms(3) by (auto simp: fits_def)
  moreover have "\<not> is_echo e (ContentKey c) (nt_server st n)"
    using assms(5) is_echo_last by blast
  ultimately obtain from' where
    a: "arrive hk route e (n, i, f) (st\<lparr>nt_flight := xs\<rparr>) =
      st\<lparr>nt_server := (nt_server st)(n := relayed e i c from' (nt_server st n)),
         nt_world := (nt_world st)(n := run_remote_hook hk c from' (nt_world st n)),
         nt_flight := xs @ forward route n (relay_frames e c from' (nt_server st n))\<rparr>"
    using arrive_first [of c f e "st\<lparr>nt_flight := xs\<rparr>" n hk route i] assms(2) by auto
  have r: "forward route n (relay_frames e c from' (nt_server st n)) =
      [(m, snd (route n p), clipboard_frame c (UnixMilli (now e)) from')]"
    using small assms(4,6,7) by (simp add: relay_frames_def forward_def usable_def)
  have "frame_of c (clipboard_frame c (UnixMilli (now e)) from')"
    using assms(4) by (auto simp: frame_of_def usable_def)
  then show ?thesis
    using assms(1) a r
    by (intro exI [of _ "relayed e i c from' (nt_server st n)"] exI [of _ from'] exI [of _ "snd (route n p)"]
        exI [of _ "clipboard_frame c (UnixMilli (now e)) from'"]) (simp add: deliver_head_def)
qed

text \<open>
  How many contents the daemons have put on their clipboards, when the callback of the program
  keeps a list of them.
\<close>

definition recording_hooks :: "content list hooks" where
  "recording_hooks = daemon_hooks (\<lambda>c from w. w @ [c])"

definition writes :: "nat \<Rightarrow> nat \<Rightarrow> content list network \<Rightarrow> nat" where
  "writes a b st = length (nt_world st a) + length (nt_world st b)"

lemma run_recording: "run_remote_hook recording_hooks c from w = w @ [c]"
  by (simp add: recording_hooks_def daemon_hooks_def run_remote_hook_def)

lemma crossing_half:
  assumes "crossing route x y a b st" and "usable e"
  shows "crossed route x y a b (deliver_head recording_hooks route e st)
    \<and> writes a b (deliver_head recording_hooks route e st) = Suc (writes a b st)"
proof -
  obtain pa pb i j f g where d: "dialed route a pa b pb st"
    and fl: "nt_flight st = [(b, i, f), (a, j, g)]" and fr: "frame_of x f" "frame_of y g"
    using assms(1) by (auto simp: crossing_def)
  obtain s k h where "deliver_head recording_hooks route e st =
      st\<lparr>nt_server := (nt_server st)(b := s), nt_world := (nt_world st)(b := nt_world st b @ [x]),
         nt_flight := [(a, j, g)] @ [(a, k, h)]\<rparr>"
    "frame_of x h" "sv_lastBroadcast s = ContentKey x"
    "sv_peers s = sv_peers (nt_server st b)" "too_big s = too_big (nt_server st b)"
    using head_is_news [OF fl fr(1), of e pb route a recording_hooks] assms d
    by (auto simp: crossing_def dialed_def run_recording)
  then show ?thesis
    using assms(1) d fr by (auto simp: crossing_def crossed_def dialed_def fits_def writes_def)
qed

lemma crossed_half:
  assumes "crossed route x y a b st" and "usable e"
  shows "crossing route x y b a (deliver_head recording_hooks route e st)
    \<and> writes a b (deliver_head recording_hooks route e st) = Suc (writes a b st)"
proof -
  obtain pa pb i j f g where d: "dialed route a pa b pb st"
    and fl: "nt_flight st = [(a, j, g), (a, i, f)]" and fr: "frame_of x f" "frame_of y g"
    using assms(1) by (auto simp: crossed_def)
  obtain s k h where "deliver_head recording_hooks route e st =
      st\<lparr>nt_server := (nt_server st)(a := s), nt_world := (nt_world st)(a := nt_world st a @ [y]),
         nt_flight := [(a, i, f)] @ [(b, k, h)]\<rparr>"
    "frame_of y h" "sv_lastBroadcast s = ContentKey y"
    "sv_peers s = sv_peers (nt_server st a)" "too_big s = too_big (nt_server st a)"
    using head_is_news [OF fl fr(2), of e pa route b recording_hooks] assms d
    by (auto simp: crossed_def dialed_def run_recording)
  then show ?thesis
    using assms(1) d fr by (auto simp: crossing_def crossed_def dialed_def fits_def writes_def)
qed

lemma deliver_in_order_head:
  "nt_flight st \<noteq> [] \<Longrightarrow>
   deliver_in_order hk route (e # es) st = deliver_in_order hk route es (deliver_head hk route e st)"
  by (cases "nt_flight st") (simp_all add: deliver_head_def)

lemma writes_commute: "writes b a st = writes a b st"
  by (simp add: writes_def)

lemma crossing_forever:
  assumes "crossing route x y a b st \<or> crossed route x y a b st" and "list_all usable es"
  shows "length (nt_flight (deliver_in_order recording_hooks route es st)) = 2
    \<and> writes a b (deliver_in_order recording_hooks route es st) = writes a b st + length es"
  using assms
proof (induction es arbitrary: a b st)
  case Nil
  then show ?case by (auto simp: crossing_def crossed_def)
next
  case (Cons e es)
  let ?st = "deliver_head recording_hooks route e st"
  have "nt_flight st \<noteq> []"
    using Cons.prems(1) by (auto simp: crossing_def crossed_def)
  moreover have "crossed route x y a b ?st \<or> crossing route x y b a ?st"
    and "writes a b ?st = Suc (writes a b st)"
    using Cons.prems crossing_half crossed_half by fastforce+
  ultimately show ?case
    using Cons.IH [of a b ?st] Cons.IH [of b a ?st] Cons.prems(2)
    by (auto simp: deliver_in_order_head writes_commute simp del: deliver_in_order.simps)
qed



end
