(* ===== verification/Delivery.thy ===== *)
theory Delivery
  imports Network
begin

text \<open>
  Where a flood of \<open>Network\<close> gets to. As long as writes to peers succeed, a content that is on its way
  to one daemon of a network reaches every daemon that is linked to it over connected peers,
  whatever the order of the deliveries, and each hands it to its clipboard once.
\<close>

section \<open>Reliable steps\<close>

inductive reliable_step :: "'w hooks \<Rightarrow> routes \<Rightarrow> time \<Rightarrow> 'w network \<Rightarrow> 'w network \<Rightarrow> bool" for hk route t0 where
  delivering_reliably: "k < length (nt_flight st) \<Longrightarrow> nt_flight st ! k = x \<Longrightarrow> t0 \<le> now e \<Longrightarrow>
    since (now e) t0 < EchoWindow (cfg_Timing (sv_cfg (nt_server st (fst x)))) \<Longrightarrow>
    in_int64 (UnixMilli (now e)) \<Longrightarrow> (\<And>p. pok e p) \<Longrightarrow>
    reliable_step hk route t0 st
      (arrive hk route e x (st\<lparr>nt_flight := remove_nth k (nt_flight st)\<rparr>))"

lemma reliable_net_step: "reliable_step hk route t0 st st' \<Longrightarrow> net_step hk route t0 st st'"
  by (induction rule: reliable_step.induct) (rule net_step.delivering)

text \<open>The links: from a daemon to those that its connected peers lead to.\<close>

definition links :: "routes \<Rightarrow> 'w network \<Rightarrow> (nat \<times> nat) set" where
  "links route st = {(m, n). \<exists>p. (p, True) \<in> set (sv_peers (nt_server st m)) \<and> fst (route m p) = n}"

section \<open>The invariant\<close>

definition has_taken :: "content \<Rightarrow> server \<Rightarrow> bool" where
  "has_taken c s \<longleftrightarrow> sv_lastBroadcast s = ContentKey c"

definition on_its_way :: "nat \<Rightarrow> 'w network \<Rightarrow> bool" where
  "on_its_way n st \<longleftrightarrow> (\<exists>x \<in> set (nt_flight st). fst x = n)"

text \<open>
  From the network \<open>st0\<close> at the start: a daemon that has taken the content has handed it over once
  and has sent it to all it is linked to; the others are as they were.
\<close>

definition delivery_inv ::
    "'w hooks \<Rightarrow> routes \<Rightarrow> time \<Rightarrow> nat set \<Rightarrow> content \<Rightarrow> 'w network \<Rightarrow> 'w network \<Rightarrow> bool" where
  "delivery_inv hk route t0 N c st0 st \<longleftrightarrow>
     links route st = links route st0
     \<and> (\<forall>n. sv_cfg (nt_server st n) = sv_cfg (nt_server st0 n))
     \<and> (\<forall>n \<in> N. has_taken c (nt_server st n) \<longrightarrow> t0 \<le> sv_lastBroadcastT (nt_server st n))
     \<and> (\<forall>m \<in> N. \<forall>n. has_taken c (nt_server st m) \<longrightarrow> (m, n) \<in> links route st0 \<longrightarrow>
          has_taken c (nt_server st n) \<or> on_its_way n st)
     \<and> (\<forall>n. on_its_way n st0 \<longrightarrow> has_taken c (nt_server st n) \<or> on_its_way n st)
     \<and> (\<forall>n \<in> N. if has_taken c (nt_server st n)
          then \<exists>from. nt_world st n = run_remote_hook hk c from (nt_world st0 n)
          else nt_world st n = nt_world st0 n)"

lemma delivery_invD:
  assumes "delivery_inv hk route t0 N c st0 st"
  shows "links route st = links route st0"
    and "m \<in> N \<Longrightarrow> has_taken c (nt_server st m) \<Longrightarrow> (m, n) \<in> links route st0 \<Longrightarrow>
      has_taken c (nt_server st n) \<or> on_its_way n st"
    and "on_its_way n st0 \<Longrightarrow> has_taken c (nt_server st n) \<or> on_its_way n st"
    and "n \<in> N \<Longrightarrow> has_taken c (nt_server st n) \<Longrightarrow> \<exists>from. nt_world st n = run_remote_hook hk c from (nt_world st0 n)"
  using assms unfolding delivery_inv_def by auto

lemma delivery_start:
  "(\<And>n. n \<in> N \<Longrightarrow> \<not> has_taken c (nt_server st n)) \<Longrightarrow> delivery_inv hk route t0 N c st st"
  by (auto simp: delivery_inv_def)

lemma in_remove_nth: "k < length xs \<Longrightarrow> x \<in> set xs \<Longrightarrow> x \<in> set (remove_nth k xs) \<or> x = xs ! k"
  using arg_cong [OF id_take_nth_drop [of k xs], of set] by (auto simp: remove_nth_def)

lemma on_its_way_removed:
  "k < length (nt_flight st) \<Longrightarrow> nt_flight st ! k = (m, i, f) \<Longrightarrow> on_its_way n st \<Longrightarrow> n \<noteq> m \<Longrightarrow>
   on_its_way n (st\<lparr>nt_flight := remove_nth k (nt_flight st)\<rparr>)"
proof -
  assume k: "k < length (nt_flight st)" "nt_flight st ! k = (m, i, f)" and "on_its_way n st" and nm: "n \<noteq> m"
  then obtain y where y: "y \<in> set (nt_flight st)" "fst y = n"
    by (auto simp only: on_its_way_def)
  then have "y \<in> set (remove_nth k (nt_flight st))"
    using in_remove_nth [OF k(1) y(1)] k(2) nm by auto
  with y(2) show "on_its_way n (st\<lparr>nt_flight := remove_nth k (nt_flight st)\<rparr>)"
    unfolding on_its_way_def by auto
qed

lemma has_taken_noteIncoming [simp]: "has_taken c (noteIncoming e i k s) = has_taken c s"
  by (simp add: has_taken_def)

lemma has_taken_relayed [simp]:
  "has_taken c (relayed e i c from s)" "sv_lastBroadcastT (relayed e i c from s) = now e"
  by (simp_all add: has_taken_def relayed_def Broadcast_append)

lemma relay_reaches:
  assumes "(m, n) \<in> links route st" and "\<not> too_big (nt_server st m) c" and "\<And>p. pok e p"
  shows "\<exists>x \<in> set (forward route m (relay_frames e c from (nt_server st m))). fst x = n"
proof -
  obtain p where "(p, True) \<in> set (sv_peers (nt_server st m))" "fst (route m p) = n"
    using assms(1) by (auto simp: links_def)
  then show ?thesis
    using assms(2,3) by (force simp: forward_def relay_frames_def)
qed

text \<open>One delivery.\<close>

lemma delivery_step:
  assumes step: "reliable_step hk route t0 st st'" and c: "stable c"
    and fl: "flood route N c st" and inv: "delivery_inv hk route t0 N c st0 st"
    and small: "\<And>n. n \<in> N \<Longrightarrow> \<not> too_big (nt_server st0 n) c"
  shows "delivery_inv hk route t0 N c st0 st'"
  using step
proof cases
  case (delivering_reliably k x e)
  obtain n i f where x: "x = (n, i, f)"
    by (cases x)
  let ?fl = "remove_nth k (nt_flight st)"
  let ?st = "st\<lparr>nt_flight := ?fl\<rparr>"
  have "x \<in> set (nt_flight st)"
    using delivering_reliably(2,3) nth_mem by blast
  then have n: "n \<in> N" and f: "frame_of c f"
    using fl x by (auto simp: flood_def)
  have rest: "m \<noteq> n \<Longrightarrow> on_its_way m st \<Longrightarrow> \<exists>y \<in> set ?fl. fst y = m" for m
    using on_its_way_removed [of k st n i f m] delivering_reliably(2,3) x by (auto simp: on_its_way_def)
  show ?thesis
  proof (cases "is_echo e (ContentKey c) (nt_server st n)")
    case True
    then have taken: "has_taken c (nt_server st n)"
      by (simp add: is_echo_def has_taken_def)
    have st': "st' = ?st\<lparr>nt_server := (nt_server st)(n := noteIncoming e i (ContentKey c) (nt_server st n))\<rparr>"
      using delivering_reliably(1) arrive_echo [OF c f, of e ?st n hk route i] True by (simp add: x)
    have "links route st' = links route st"
      by (auto simp: st' links_def split: if_splits)
    moreover have "on_its_way m st \<Longrightarrow> has_taken c (nt_server st' m) \<or> on_its_way m st'" for m
      using rest taken by (cases "m = n") (auto simp: st' on_its_way_def)
    ultimately show ?thesis
      using inv by (fastforce simp: st' delivery_inv_def)
  next
    case False
    then have fresh: "\<not> has_taken c (nt_server st n)"
      using inv n delivering_reliably(4,5) taken_key_echo [of "ContentKey c" t0 "nt_server st n" e]
      by (auto simp: delivery_inv_def has_taken_def taken_key_def x)
    obtain from' where st': "st' = ?st\<lparr>nt_server := (nt_server st)(n := relayed e i c from' (nt_server st n)),
        nt_world := (nt_world st)(n := run_remote_hook hk c from' (nt_world st n)),
        nt_flight := ?fl @ forward route n (relay_frames e c from' (nt_server st n))\<rparr>"
      using delivering_reliably(1) arrive_first [OF c f, of e ?st n hk route i] False x by auto
    have links: "links route st' = links route st"
      by (auto simp: st' links_def split: if_splits)
    have "\<not> too_big (nt_server st n) c"
      using small [OF n] inv by (simp add: delivery_inv_def too_big_def)
    then have sent: "(n, m) \<in> links route st \<Longrightarrow> on_its_way m st'" for m
      using relay_reaches [of n m route st c e from'] delivering_reliably(7)
      by (auto simp: st' on_its_way_def)
    have kept: "on_its_way m st \<Longrightarrow> has_taken c (nt_server st' m) \<or> on_its_way m st'" for m
      using rest by (cases "m = n") (auto simp: st' on_its_way_def)
    show ?thesis
      unfolding delivery_inv_def
    proof (intro conjI ballI allI impI)
      fix m k'
      assume m: "m \<in> N" "has_taken c (nt_server st' m)" "(m, k') \<in> links route st0"
      show "has_taken c (nt_server st' k') \<or> on_its_way k' st'"
      proof (cases "m = n")
        case True
        then show ?thesis
          using sent [of k'] m(3) delivery_invD(1) [OF inv] by simp
      next
        case False
        then have "has_taken c (nt_server st m)"
          using m(2) by (simp add: st')
        then have "has_taken c (nt_server st k') \<or> on_its_way k' st"
          using delivery_invD(2) [OF inv] m by blast
        then show ?thesis
          using kept [of k'] by (auto simp: st')
      qed
    next
      fix m
      assume "m \<in> N"
      then show "if has_taken c (nt_server st' m)
          then \<exists>from. nt_world st' m = run_remote_hook hk c from (nt_world st0 m)
          else nt_world st' m = nt_world st0 m"
        using inv fresh by (cases "m = n") (auto simp: delivery_inv_def st')
    next
      fix m
      assume "on_its_way m st0"
      then have "has_taken c (nt_server st m) \<or> on_its_way m st"
        using delivery_invD(3) [OF inv] by blast
      then show "has_taken c (nt_server st' m) \<or> on_its_way m st'"
        using kept [of m] by (auto simp: st')
    qed (use inv links delivering_reliably(4) in \<open>auto simp: delivery_inv_def st'\<close>)
  qed
qed

lemma delivery_run:
  assumes "(reliable_step hk route t0 ^^ k) st st'" and "finite N" "stable c" "flood route N c st"
    and "\<And>n. n \<in> N \<Longrightarrow> \<not> too_big (nt_server st n) c" and "delivery_inv hk route t0 N c st st"
  shows "delivery_inv hk route t0 N c st st' \<and> flood route N c st'"
  using assms(1)
proof (induction k arbitrary: st')
  case (Suc k)
  then obtain st1 where st1: "(reliable_step hk route t0 ^^ k) st st1" "reliable_step hk route t0 st1 st'"
    by auto
  show ?case
    using Suc.IH [OF st1(1)] delivery_step [OF st1(2) assms(3)] flood_step [OF reliable_net_step [OF st1(2)] assms(2,3)]
      assms(5) by blast
qed (simp add: assms)

lemma reliable_next:
  assumes "flood route N c st" and "nt_flight st \<noteq> []" and "in_int64 (UnixMilli t0)"
  shows "\<exists>st'. reliable_step hk route t0 st st'"
proof -
  have "fst (nt_flight st ! 0) \<in> N"
    using assms(1,2) nth_mem [of 0 "nt_flight st"] by (auto simp: flood_def)
  then show ?thesis
    using assms reliable_step.delivering_reliably [of 0 st "nt_flight st ! 0" t0
        "\<lparr>now = t0, wok = (\<lambda>_. True), pok = (\<lambda>_. True)\<rparr>" hk route]
    by (auto simp: flood_def)
qed

lemma reliable_finishes:
  assumes "flood route N c st" and "finite N" "stable c" "in_int64 (UnixMilli t0)"
  shows "\<exists>k st'. (reliable_step hk route t0 ^^ k) st st' \<and> nt_flight st' = []"
  using assms(1)
proof (induction "potential (ContentKey c) t0 N st" arbitrary: st rule: less_induct)
  case less
  show ?case
  proof (cases "nt_flight st = []")
    case True
    then show ?thesis
      using relpowp_0_I by fastforce
  next
    case False
    obtain st1 where st1: "reliable_step hk route t0 st st1"
      using reliable_next [OF less.prems False assms(4)] by blast
    then obtain k st' where "(reliable_step hk route t0 ^^ k) st1 st'" "nt_flight st' = []"
      using less.hyps flood_step [OF reliable_net_step [OF st1] assms(2,3) less.prems] by blast
    then show ?thesis
      using relpowp_Suc_I2 [of "reliable_step hk route t0", OF st1] by blast
  qed
qed

text \<open>
  One content that is on its way to a daemon gets to every daemon which that one leads to, in
  whatever order the frames are delivered, and the network gets on until no frame is left.
\<close>

lemma flood_delivered:
  assumes "stable c" "finite N" "flood route N c st" "in_int64 (UnixMilli t0)"
    and "\<And>n. n \<in> N \<Longrightarrow> \<not> has_taken c (nt_server st n) \<and> \<not> too_big (nt_server st n) c"
    and "(reliable_step hk route t0 ^^ k) st st'"
    and "x \<in> set (nt_flight st)" and "(fst x, n) \<in> (links route st)\<^sup>*"
  shows "if nt_flight st' = [] then \<exists>from. nt_world st' n = run_remote_hook hk c from (nt_world st n)
    else \<exists>st''. reliable_step hk route t0 st' st''"
proof -
  have inv: "delivery_inv hk route t0 N c st st'" and fl: "flood route N c st'"
    using delivery_run [OF assms(6,2,1,3)] delivery_start [of N c st hk route t0] assms(5) by blast+
  show ?thesis
  proof (cases "nt_flight st' = []")
    case True
    then have none: "\<not> on_its_way m st'" for m
      by (simp add: on_its_way_def)
    from assms(8) have "n \<in> N \<and> has_taken c (nt_server st' n)"
    proof induction
      case base
      have "fst x \<in> N" "on_its_way (fst x) st"
        using assms(3,7) by (auto simp: flood_def on_its_way_def)
      then show ?case
        using delivery_invD(3) [OF inv] none by blast
    next
      case (step m n)
      then have "n \<in> N"
        using assms(3) by (fastforce simp: flood_def links_def)
      then show ?case
        using delivery_invD(2) [OF inv] step none by blast
    qed
    then show ?thesis
      using delivery_invD(4) [OF inv] True by simp
  next
    case False
    then show ?thesis
      using reliable_next [OF fl False assms(4)] by simp
  qed
qed

section \<open>A local copy\<close>

text \<open>What daemon \<open>a\<close> broadcasts of a local change is in flight to where its peers lead.\<close>

definition announce :: "routes \<Rightarrow> env \<Rightarrow> nat \<Rightarrow> content \<Rightarrow> string \<Rightarrow> 'w network \<Rightarrow> 'w network" where
  "announce route e a c from st =
     (let s = nt_server st a;
          s' = BroadcastLocal e c from s;
          new = drop (length (sv_out s)) (sv_out s')
      in st\<lparr>nt_server := (nt_server st)(a := s'), nt_flight := nt_flight st @ forward route a (peer_sends new)\<rparr>)"

lemma announce_eq:
  "announce route e a c from st =
     st\<lparr>nt_server := (nt_server st)(a := BroadcastLocal e c from (nt_server st a)),
        nt_flight := nt_flight st @ map (\<lambda>p. (fst (route a (fst p)), snd (route a (fst p)),
            clipboard_frame c (UnixMilli (now e)) from))
          (filter (\<lambda>p. snd p \<and> pok e (fst p)) (sv_peers (nt_server st a)))\<rparr>"
  by (simp add: announce_def BroadcastLocal_append forward_def Let_def)

lemma links_announce [simp]: "links route (announce route e a c from st) = links route st"
  by (auto simp: announce_eq links_def BroadcastLocal_append split: if_splits)

text \<open>The frame of a content is that of what its receivers make of it.\<close>

lemma stable_received: "sendable c \<Longrightarrow> stable (received c)"
  by (cases "Kind c")
    (auto simp: stable_def sendable_def received_def text_content_def image_content_def zero_content_def)

lemma clipboard_frame_received: "sendable c \<Longrightarrow> clipboard_frame (received c) ts from = clipboard_frame c ts from"
  by (cases "Kind c")
    (auto simp: clipboard_frame_def marshal_clipboard_def ContentMsg_def received_def sendable_def zero_clipboard_msg_def
      omit_empty_def marshal_string_def text_content_def image_content_def zero_content_def)

lemma flood_announce:
  assumes "sendable c" and "in_int64 (UnixMilli (now e))" and "a \<in> N" and "nt_flight st = []"
    and "flood route N (received c) st"
  shows "flood route N (received c) (announce route e a c from st)"
  using assms clipboard_frame_received [OF assms(1), symmetric]
  by (auto simp: flood_def announce_eq frame_of_def BroadcastLocal_append)

text \<open>
  What is copied on one desktop is handed to the clipboard of every daemon its own is linked to,
  once each, in whatever order the frames are delivered; the network gets on until no frame is
  left.
\<close>

lemma copied_reaches:
  assumes "sendable c" "finite N" "flood route N (received c) st" "nt_flight st = []"
    and "\<And>n. n \<in> N \<Longrightarrow> \<not> has_taken (received c) (nt_server st n) \<and> \<not> too_big (nt_server st n) (received c)"
    and "a \<in> N" "in_int64 (UnixMilli (now e))" "in_int64 (UnixMilli t0)" "\<And>p. pok e p"
    and "(reliable_step hk route t0 ^^ k) (announce route e a c from st) st'"
    and "(a, n) \<in> (links route st)\<^sup>+"
  shows "if nt_flight st' = [] then \<exists>from'. nt_world st' n = run_remote_hook hk (received c) from' (nt_world st n)
    else \<exists>st''. reliable_step hk route t0 st' st''"
proof -
  let ?st = "announce route e a c from st"
  have fl: "flood route N (received c) ?st"
    by (rule flood_announce) fact+
  have fresh: "m \<in> N \<Longrightarrow> \<not> has_taken (received c) (nt_server ?st m) \<and> \<not> too_big (nt_server ?st m) (received c)" for m
    using assms(5) [of m] by (auto simp: announce_eq BroadcastLocal_append has_taken_def too_big_def)
  obtain m where m: "(a, m) \<in> links route st" "(m, n) \<in> (links route st)\<^sup>*"
    using assms(11) by (meson tranclD)
  then obtain x where x: "x \<in> set (nt_flight ?st)" "fst x = m"
    using assms(9) by (force simp: links_def announce_eq)
  have "nt_world ?st n = nt_world st n"
    by (simp add: announce_eq)
  then show ?thesis
    using flood_delivered [OF stable_received [OF assms(1)] assms(2) fl assms(8) fresh assms(10) x(1), of n] m(2) x(2)
    by (auto split: if_splits)
qed

end
