(* ===== verification/Urls.thy ===== *)
theory Urls
  imports GoStrings
begin

text \<open>
  What the program uses of Go's \<open>net/url\<close>: escaping a query value, reading a value from a raw
  query. The lemma: a value that was escaped into a query is read back unchanged.
\<close>

text \<open>\<open>url.QueryEscape\<close>, and \<open>url.ParseQuery\<close> with \<open>Get\<close> for the receiving side.\<close>

definition query_plain :: "char \<Rightarrow> bool" where
  "query_plain c \<longleftrightarrow>
     (let n = (of_char c :: nat) in
      48 \<le> n \<and> n \<le> 57 \<or> 65 \<le> n \<and> n \<le> 90 \<or> 97 \<le> n \<and> n \<le> 122 \<or>
      c = CHR ''-'' \<or> c = CHR ''_'' \<or> c = CHR ''.'' \<or> c = CHR ''~'')"

definition hex_char :: "nat \<Rightarrow> char" where
  "hex_char d = char_of (if d < 10 then 48 + d else 55 + d)"

definition hex_val :: "char \<Rightarrow> nat option" where
  "hex_val c =
     (let n = (of_char c :: nat) in
      if 48 \<le> n \<and> n \<le> 57 then Some (n - 48)
      else if 97 \<le> n \<and> n \<le> 102 then Some (n - 87)
      else if 65 \<le> n \<and> n \<le> 70 then Some (n - 55)
      else None)"

definition escape_char :: "char \<Rightarrow> string" where
  "escape_char c =
     (if query_plain c then [c]
      else if c = CHR '' '' then [CHR ''+'']
      else let n = (of_char c :: nat) in [CHR ''%'', hex_char (n div 16), hex_char (n mod 16)])"

definition QueryEscape :: "string \<Rightarrow> string" where
  "QueryEscape s = concat (map escape_char s)"

fun QueryUnescape :: "string \<Rightarrow> string option" where
  "QueryUnescape [] = Some []"
| "QueryUnescape (c # s) =
     (if c = CHR ''%'' then
        (case s of
           a # b # t \<Rightarrow>
             (case (hex_val a, hex_val b, QueryUnescape t) of
                (Some h, Some l, Some r) \<Rightarrow> Some (char_of (16 * h + l) # r)
              | _ \<Rightarrow> None)
         | _ \<Rightarrow> None)
      else map_option (Cons (if c = CHR ''+'' then CHR '' '' else c)) (QueryUnescape s))"

text \<open>The value of a key in a raw query: pairs between ampersands; a pair with a semicolon or a
  bad escape is skipped.\<close>

definition cut_eq :: "string \<Rightarrow> string \<times> string" where
  "cut_eq s =
     (takeWhile (\<lambda>c. c \<noteq> CHR ''='') s,
      case dropWhile (\<lambda>c. c \<noteq> CHR ''='') s of [] \<Rightarrow> [] | _ # v \<Rightarrow> v)"

fun query_get :: "string \<Rightarrow> string list \<Rightarrow> string" where
  "query_get key [] = []"
| "query_get key (p # ps) =
     (if CHR '';'' \<in> set p then query_get key ps
      else case (QueryUnescape (fst (cut_eq p)), QueryUnescape (snd (cut_eq p))) of
             (Some k, Some v) \<Rightarrow> if k = key then v else query_get key ps
           | _ \<Rightarrow> query_get key ps)"

definition Query_Get :: "string \<Rightarrow> string \<Rightarrow> string" where
  "Query_Get rawQuery key = query_get key (Split rawQuery CHR ''&'')"

lemma hex_val_char [simp]: "d < 16 \<Longrightarrow> hex_val (hex_char d) = Some d"
  by (auto simp: hex_val_def hex_char_def Let_def)

lemma high_nibble_lt [simp]: "(of_char c :: nat) div 16 < 16"
  by (rule less_mult_imp_div_less) simp

lemma char_of_nibbles [simp]:
  "char_of (16 * ((of_char c :: nat) div 16) + of_char c mod 16) = c"
  by simp

lemma QueryUnescape_escape_char [simp]:
  "QueryUnescape (escape_char c @ s) = map_option (Cons c) (QueryUnescape s)"
proof -
  have "query_plain c \<Longrightarrow> c \<noteq> CHR ''%'' \<and> c \<noteq> CHR ''+''"
    by (auto simp: query_plain_def)
  then show ?thesis
    by (cases "QueryUnescape s") (auto simp: escape_char_def Let_def)
qed

lemma QueryUnescape_QueryEscape [simp]: "QueryUnescape (QueryEscape s) = Some s"
  by (induction s) (simp_all add: QueryEscape_def)

lemma escape_char_no_separator:
  "x \<in> set (escape_char c) \<Longrightarrow> x \<noteq> CHR ''&'' \<and> x \<noteq> CHR '';'' \<and> x \<noteq> CHR ''=''"
proof -
  have "hex_char d \<noteq> CHR ''&'' \<and> hex_char d \<noteq> CHR '';'' \<and> hex_char d \<noteq> CHR ''=''" if "d < 16" for d
    using that hex_val_char [of d] by (auto simp: hex_val_def)
  moreover assume "x \<in> set (escape_char c)"
  ultimately show ?thesis
    by (auto simp: escape_char_def Let_def query_plain_def split: if_splits)
qed

lemma QueryEscape_no_separator:
  "CHR ''&'' \<notin> set (QueryEscape s)" "CHR '';'' \<notin> set (QueryEscape s)" "CHR ''='' \<notin> set (QueryEscape s)"
  using escape_char_no_separator by (auto simp: QueryEscape_def)

lemma Query_Get_single:
  assumes "QueryUnescape k = Some k" and "CHR ''&'' \<notin> set k" and "CHR '';'' \<notin> set k"
    and "CHR ''='' \<notin> set k"
  shows "Query_Get (k @ CHR ''='' # QueryEscape v) k = v"
proof -
  have cut: "cut_eq (k @ CHR ''='' # QueryEscape v) = (k, QueryEscape v)"
    using assms(4) by (auto simp: cut_eq_def takeWhile_append dropWhile_append)
  have "Split (k @ CHR ''='' # QueryEscape v) CHR ''&'' = [k @ CHR ''='' # QueryEscape v]"
    by (rule Split_single) (use assms(2) QueryEscape_no_separator in auto)
  then show ?thesis
    using assms QueryEscape_no_separator [of v] by (simp add: Query_Get_def cut)
qed

end
