(* ===== verification/Peer.thy ===== *)
theory Peer
  imports Handshake Urls
begin

text \<open>
  \<open>websocket/peer.go\<close>: the connections the daemon makes to other daemons. One peer is a
  state machine: dial, wait and retry with a growing backoff, read until the connection
  fails, wait, dial again; each connection starts a keepalive goroutine. The dials, reads and
  timers are the events; the durations the goroutine waited and the frames it wrote are kept.
  The lemmas: the backoff schedule, which goroutines run, when the peer is registered.
\<close>

section \<open>Where a peer is dialed\<close>

definition peer_addr :: "config \<Rightarrow> string \<Rightarrow> string" where
  "peer_addr cfg host =
     (if ContainsChar host CHR '':'' then host
      else host @ CHR '':'' # Itoa (srv_Port (cfg_Server cfg)))"

definition peer_scheme :: "config \<Rightarrow> string" where
  "peer_scheme cfg = (if tls_Enabled (cfg_TLS cfg) then ''wss'' else ''ws'')"

definition peer_query :: "config \<Rightarrow> string" where
  "peer_query cfg = (if cfg_Token cfg \<noteq> [] then ''token='' @ QueryEscape (cfg_Token cfg) else [])"

text \<open>The hosts \<open>RunPeers\<close> starts a goroutine for.\<close>

definition peer_hosts :: "config \<Rightarrow> string list" where
  "peer_hosts cfg = filter (\<lambda>h. h \<noteq> []) (map TrimSpace (cfg_Peers cfg))"

section \<open>One peer\<close>

text \<open>Where the goroutine of \<open>run\<close> is.\<close>

datatype phase = Dialing | RetryWait | Reading | Pause | Stopped

text \<open>
  \<open>pr_conn\<close> is the connection of \<open>PeerClient\<close>, connections being numbered as they are made;
  \<open>pr_keepalives\<close> the running keepalive goroutines, by connection; \<open>pr_waits\<close> the
  durations waited; \<open>pr_out\<close> the frames written.
\<close>

record peer =
  pr_num :: nat
  pr_phase :: phase
  pr_backoff :: duration
  pr_dialed :: nat
  pr_conn :: "nat option"
  pr_keepalives :: "nat list"
  pr_waits :: "duration list"
  pr_out :: "(nat \<times> json) list"

definition new_peer :: "config \<Rightarrow> nat \<Rightarrow> peer" where
  "new_peer cfg n =
     \<lparr>pr_num = n, pr_phase = Dialing, pr_backoff = PeerBackoffInitial (cfg_Timing cfg), pr_dialed = 0,
      pr_conn = None, pr_keepalives = [], pr_waits = [], pr_out = []\<rparr>"

definition RunPeers :: "config \<Rightarrow> (string \<times> peer) list" where
  "RunPeers cfg = map (\<lambda>(n, h). (peer_addr cfg h, new_peer cfg n)) (enumerate 0 (peer_hosts cfg))"

definition grow_backoff :: "config \<Rightarrow> duration \<Rightarrow> duration" where
  "grow_backoff cfg b = (if b < PeerBackoffMax (cfg_Timing cfg) then int64 (b * 2) else b)"

definition start_wait :: "phase \<Rightarrow> peer \<Rightarrow> peer" where
  "start_wait ph pr = pr\<lparr>pr_phase := ph, pr_waits := pr_waits pr @ [pr_backoff pr]\<rparr>"

text \<open>\<open>close\<close>: no connection any more, so \<open>Send\<close> does nothing.\<close>

definition pc_close :: "peer \<times> server \<Rightarrow> peer \<times> server" where
  "pc_close ps =
     ((fst ps)\<lparr>pr_conn := None\<rparr>,
      (snd ps)\<lparr>sv_peers := alist_adjust (pr_num (fst ps)) (\<lambda>_. False) (sv_peers (snd ps))\<rparr>)"

definition close_and_unregister :: "peer \<times> server \<Rightarrow> peer \<times> server" where
  "close_and_unregister ps =
     (let ps1 = pc_close ps in (fst ps1, unregisterPeer (pr_num (fst ps1)) (snd ps1)))"

definition peer_hello :: "config \<Rightarrow> string \<Rightarrow> hello" where
  "peer_hello cfg v =
     \<lparr>h_Name = cfg_DeviceName cfg, h_Platform = PlatformDesktop, h_Version = v\<rparr>"

text \<open>A successful dial; \<open>hello_written\<close> tells whether the hello could be written.\<close>

definition dial_ok :: "config \<Rightarrow> string \<Rightarrow> bool \<Rightarrow> peer \<times> server \<Rightarrow> peer \<times> server" where
  "dial_ok cfg v hello_written ps =
     (let pr = fst ps; n = pr_dialed pr;
          pr1 = pr\<lparr>pr_backoff := PeerBackoffInitial (cfg_Timing cfg), pr_dialed := n + 1, pr_conn := Some n\<rparr>;
          s1 = registerPeer (pr_num pr) (snd ps)
      in if \<not> hello_written then close_and_unregister (pr1, s1)
         else (pr1\<lparr>pr_phase := Reading, pr_keepalives := pr_keepalives pr @ [n],
                   pr_out := pr_out pr @ [(n, hello_frame (peer_hello cfg v))]\<rparr>, s1))"

text \<open>One message in \<open>readLoop\<close>: anything but a clipboard message with a content is dropped.\<close>

definition readLoop_msg ::
    "(content \<Rightarrow> string \<Rightarrow> 'w \<Rightarrow> 'w) option \<Rightarrow> json option \<Rightarrow> 'w \<Rightarrow> 'w" where
  "readLoop_msg onRemote txt w =
     (case unmarshal_envelope txt of
        None \<Rightarrow> w
      | Some env \<Rightarrow>
          if env_Type env \<noteq> MsgClipboard then w
          else
            (case unmarshal_clipboard (env_Data env) of
               None \<Rightarrow> w
             | Some cm \<Rightarrow>
                 (case (MsgToContent cm, onRemote) of
                    (Some c, Some f) \<Rightarrow> f c (cm_From cm) w
                  | _ \<Rightarrow> w)))"

definition keepalive_tick :: "nat \<Rightarrow> peer \<Rightarrow> peer" where
  "keepalive_tick n pr =
     (if n \<in> set (pr_keepalives pr) then pr\<lparr>pr_out := pr_out pr @ [(n, bare_frame MsgPing)]\<rparr> else pr)"

text \<open>What happens to the goroutines of a peer.\<close>

datatype peer_event =
    DialFails
  | DialOk bool
  | Receives read_result
  | Elapses
  | Cancelled
  | Ticks nat

text \<open>
  One step. When the context is cancelled a pending dial or read fails and the loop returns at
  its next select; the keepalive goroutines return too.
\<close>

fun peer_step ::
    "config \<Rightarrow> string \<Rightarrow> (content \<Rightarrow> string \<Rightarrow> 'w \<Rightarrow> 'w) option \<Rightarrow> peer_event
     \<Rightarrow> (peer \<times> server) \<times> 'w \<Rightarrow> (peer \<times> server) \<times> 'w" where
  "peer_step cfg v cb DialFails ((pr, s), w) =
     (if pr_phase pr = Dialing then ((start_wait RetryWait pr, s), w) else ((pr, s), w))"
| "peer_step cfg v cb (DialOk written) ((pr, s), w) =
     (if pr_phase pr = Dialing then (dial_ok cfg v written (pr, s), w) else ((pr, s), w))"
| "peer_step cfg v cb (Receives r) ((pr, s), w) =
     (if pr_phase pr = Reading then
        (case r of
           Frame txt \<Rightarrow> ((pr, s), readLoop_msg cb txt w)
         | ReadError \<Rightarrow>
             let ps = close_and_unregister (pr, s) in ((start_wait Pause (fst ps), snd ps), w))
      else ((pr, s), w))"
| "peer_step cfg v cb Elapses ((pr, s), w) =
     (if pr_phase pr = RetryWait then
        ((pr\<lparr>pr_phase := Dialing, pr_backoff := grow_backoff cfg (pr_backoff pr)\<rparr>, s), w)
      else if pr_phase pr = Pause then ((pr\<lparr>pr_phase := Dialing\<rparr>, s), w)
      else ((pr, s), w))"
| "peer_step cfg v cb Cancelled ((pr, s), w) =
     (let ps = (if pr_phase pr = Reading then close_and_unregister (pr, s) else (pr, s))
      in (((fst ps)\<lparr>pr_phase := Stopped, pr_keepalives := []\<rparr>, snd ps), w))"
| "peer_step cfg v cb (Ticks n) ((pr, s), w) = ((keepalive_tick n pr, s), w)"

definition peer_run ::
    "config \<Rightarrow> string \<Rightarrow> (content \<Rightarrow> string \<Rightarrow> 'w \<Rightarrow> 'w) option \<Rightarrow> peer_event list
     \<Rightarrow> (peer \<times> server) \<times> 'w \<Rightarrow> (peer \<times> server) \<times> 'w" where
  "peer_run cfg v cb es st = fold (peer_step cfg v cb) es st"

end
