(* ===== verification/PeerProps.thy ===== *)
theory PeerProps
  imports Peer
begin

text \<open>
  Properties of the outgoing connections: the backoff, the registration with the server, the
  keepalive goroutines, what a pushed message does, and that a daemon lets in a peer with the
  same token.
\<close>

section \<open>The invariant of a peer\<close>

text \<open>The durations the loop may wait: the initial one, doubled while it is below the maximum.\<close>

inductive backoff_value :: "config \<Rightarrow> duration \<Rightarrow> bool" for cfg where
  initial: "backoff_value cfg (PeerBackoffInitial (cfg_Timing cfg))"
| double: "backoff_value cfg b \<Longrightarrow> b < PeerBackoffMax (cfg_Timing cfg) \<Longrightarrow>
    backoff_value cfg (int64 (b * 2))"

lemma backoff_value_grow: "backoff_value cfg b \<Longrightarrow> backoff_value cfg (grow_backoff cfg b)"
  by (auto simp: grow_backoff_def intro: backoff_value.double)

definition sane_backoff :: "config \<Rightarrow> bool" where
  "sane_backoff cfg \<longleftrightarrow>
     0 < PeerBackoffInitial (cfg_Timing cfg) \<and> PeerBackoffInitial (cfg_Timing cfg) < 2 ^ 62 \<and>
     0 < PeerBackoffMax (cfg_Timing cfg) \<and> PeerBackoffMax (cfg_Timing cfg) < 2 ^ 62"

lemma backoff_value_bounds:
  assumes "backoff_value cfg b" and "sane_backoff cfg"
  shows "PeerBackoffInitial (cfg_Timing cfg) \<le> b \<and>
    b \<le> max (PeerBackoffInitial (cfg_Timing cfg)) (2 * PeerBackoffMax (cfg_Timing cfg) - 2)"
  using assms(1)
proof induction
  case (double b)
  then have "in_int64 (b * 2)"
    using assms(2) by (simp add: in_int64_def sane_backoff_def)
  with double assms(2) show ?case
    by (simp add: sane_backoff_def)
qed simp

text \<open>How the server has a peer: not at all, registered, registered with its connection set.\<close>

definition peer_flag :: "nat \<Rightarrow> server \<Rightarrow> bool option" where
  "peer_flag p s = map_of (sv_peers s) p"

lemma peer_flag_absent: "p \<notin> set (keys (sv_peers s)) \<Longrightarrow> peer_flag p s = None"
  by (simp add: peer_flag_def map_of_eq_None_iff)

lemma peer_flag_ops [simp]:
  "peer_flag q (registerPeer p s) = (if q = p then Some True else peer_flag q s)"
  "peer_flag q (unregisterPeer p s) = (if q = p then None else peer_flag q s)"
  by (simp_all add: peer_flag_def registerPeer_def unregisterPeer_def)

lemma distinct_peers_ops [simp]:
  "distinct (keys (sv_peers s)) \<Longrightarrow> distinct (keys (sv_peers (registerPeer p s)))"
  "distinct (keys (sv_peers s)) \<Longrightarrow> distinct (keys (sv_peers (unregisterPeer p s)))"
  by (simp_all add: registerPeer_def unregisterPeer_def)

lemma close_and_unregister_parts [simp]:
  "fst (close_and_unregister (pr, s)) = pr\<lparr>pr_conn := None\<rparr>"
  "peer_flag q (snd (close_and_unregister (pr, s))) = (if q = pr_num pr then None else peer_flag q s)"
  "distinct (keys (sv_peers s)) \<Longrightarrow> distinct (keys (sv_peers (snd (close_and_unregister (pr, s)))))"
  by (simp_all add: close_and_unregister_def pc_close_def unregisterPeer_def peer_flag_def)

definition peer_inv :: "config \<Rightarrow> peer \<times> server \<Rightarrow> bool" where
  "peer_inv cfg ps \<longleftrightarrow>
     (let pr = fst ps in
      distinct (keys (sv_peers (snd ps))) \<and>
      peer_flag (pr_num pr) (snd ps) = (if pr_phase pr = Reading then Some True else None) \<and>
      (pr_phase pr = Reading) = (pr_conn pr \<noteq> None) \<and>
      backoff_value cfg (pr_backoff pr) \<and> list_all (backoff_value cfg) (pr_waits pr))"

lemma peer_inv_dial_ok:
  "peer_inv cfg (pr, s) \<Longrightarrow> pr_phase pr = Dialing \<Longrightarrow> peer_inv cfg (dial_ok cfg v b (pr, s))"
  by (auto simp: peer_inv_def dial_ok_def Let_def intro: backoff_value.initial)

lemma peer_inv_step:
  assumes "peer_inv cfg (fst st)"
  shows "peer_inv cfg (fst (peer_step cfg v cb x st))"
proof -
  obtain pr s w where st: "st = ((pr, s), w)" by (metis prod.collapse)
  show ?thesis
  proof (cases x)
    case (DialOk b)
    then show ?thesis using assms st by (simp add: peer_inv_dial_ok)
  next
    case (Receives r)
    then show ?thesis
      using assms st by (auto simp: peer_inv_def Let_def start_wait_def split: read_result.split)
  next
    case Elapses
    then show ?thesis
      using assms st by (auto simp: peer_inv_def Let_def intro: backoff_value_grow)
  qed (use assms st in \<open>auto simp: peer_inv_def Let_def start_wait_def keepalive_tick_def\<close>)
qed

definition fresh_peer :: "config \<Rightarrow> (peer \<times> server) \<times> 'w \<Rightarrow> bool" where
  "fresh_peer cfg st \<longleftrightarrow>
     (\<exists>n. fst (fst st) = new_peer cfg n \<and> n \<notin> set (keys (sv_peers (snd (fst st))))) \<and>
     distinct (keys (sv_peers (snd (fst st))))"

lemma peer_inv_fresh: "fresh_peer cfg st \<Longrightarrow> peer_inv cfg (fst st)"
  by (auto simp: fresh_peer_def peer_inv_def new_peer_def Let_def peer_flag_absent
      intro: backoff_value.initial simp del: set_map)

interpretation peer: machine "fresh_peer cfg" "peer_step cfg v cb" "\<lambda>st. peer_inv cfg (fst st)"
    for cfg v cb
  by unfold_locales (auto intro: peer_inv_fresh peer_inv_step)

section \<open>The backoff\<close>


definition ex_state :: "(peer \<times> server) \<times> unit" where
  "ex_state = ((new_peer ex_config 0, New ex_env ex_config ''1''), ())"

definition dial_failures :: "nat \<Rightarrow> peer_event list" where
  "dial_failures n = concat (replicate n [DialFails, Elapses])"

lemma ex_timing [simp]:
  "PeerBackoffInitial (cfg_Timing ex_config) = second"
  "PeerBackoffMax (cfg_Timing ex_config) = 30 * second"
  by (simp_all add: ex_config_def Default_def Let_def default_timing_def)

lemma ex_fresh [simp]: "fresh_peer ex_config ex_state"
  by (auto simp: fresh_peer_def ex_state_def New_def)

lemma ex_waits: "pr_waits (fst (fst (peer_run ex_config ''1'' None (dial_failures 7) ex_state))) =
    map (\<lambda>n. n * second) [1, 2, 4, 8, 16, 32, 32]"
  by (simp add: peer_run_def dial_failures_def eval_nat_numeral ex_state_def new_peer_def start_wait_def
      grow_backoff_def second_def int64_def)


text \<open>The configured maximum is not a maximum of the waits: with the default timing (from one
  second, at most thirty) a peer that stays down is waited for 1, 2, 4, 8, 16 and then 32
  seconds, since the doubling tests the value before it is doubled.\<close>

lemma backoff_exceeds_max:
  "32 * second \<in> set (pr_waits (fst (fst (peer_run ex_config ''1'' None (dial_failures 7) ex_state))))
   \<and> PeerBackoffMax (cfg_Timing ex_config) = 30 * second"
  by (simp add: ex_waits)

section \<open>Registration and broadcasts\<close>

definition sent_to_peer :: "nat \<Rightarrow> out_event list \<Rightarrow> json list" where
  "sent_to_peer p xs =
     List.map_filter (\<lambda>x. case x of SentPeer q m \<Rightarrow> if q = p then Some m else None | _ \<Rightarrow> None) xs"

lemma sent_to_peer_append [simp]: "sent_to_peer p (xs @ ys) = sent_to_peer p xs @ sent_to_peer p ys"
  by (simp add: sent_to_peer_def List.map_filter_def)

lemma sent_to_peer_single: "sent_to_peer p [SentPeer q m] = (if q = p then [m] else [])"
  by (simp add: sent_to_peer_def List.map_filter_def)

lemma sent_to_peer_Nil [simp]: "sent_to_peer p [] = []"
  by (simp add: sent_to_peer_def List.map_filter_def)

lemma sent_to_peer_clients [simp]: "sent_to_peer p (sent_events e m ids) = []"
  by (simp add: sent_to_peer_def sent_events_def List.map_filter_def)

lemma sent_to_peer_absent: "p \<notin> set (keys ps) \<Longrightarrow> sent_to_peer p (peer_events e m ps) = []"
  by (induction ps) (auto simp: sent_to_peer_def peer_events_def List.map_filter_def)

lemma sent_to_peer_fan_out:
  "distinct (keys ps) \<Longrightarrow>
   sent_to_peer p (peer_events e m ps) = (if map_of ps p = Some True \<and> pok e p then [m] else [])"
proof (induction ps)
  case (Cons q ps)
  have eq: "peer_events e m (q # ps) =
      (if snd q \<and> pok e (fst q) then [SentPeer (fst q) m] else []) @ peer_events e m ps"
    by (simp add: peer_events_def)
  show ?case
    using Cons sent_to_peer_absent [of p ps e m] unfolding eq
    by (cases "fst q = p") (auto simp: sent_to_peer_single)
qed (simp add: peer_events_def)



section \<open>Keepalives\<close>

definition reconnects :: "nat \<Rightarrow> peer_event list" where
  "reconnects n = concat (replicate n [DialOk True, Receives ReadError, Elapses])"

lemma reconnect_once:
  assumes "pr_phase pr = Dialing"
  shows "\<exists>pr' s'. fold (peer_step cfg v cb) [DialOk True, Receives ReadError, Elapses] ((pr, s), w) = ((pr', s'), w)
    \<and> pr_phase pr' = Dialing \<and> pr_conn pr' = None \<and> pr_dialed pr' = pr_dialed pr + 1
    \<and> pr_keepalives pr' = pr_keepalives pr @ [pr_dialed pr]"
  using assms
  by (auto simp: dial_ok_def Let_def start_wait_def close_and_unregister_def pc_close_def)

lemma reconnects_keepalives:
  assumes "pr_phase pr = Dialing"
  shows "\<exists>pr' s'. peer_run cfg v cb (reconnects n) ((pr, s), w) = ((pr', s'), w)
    \<and> pr_phase pr' = Dialing \<and> pr_conn pr' = (if n = 0 then pr_conn pr else None)
    \<and> pr_dialed pr' = pr_dialed pr + n
    \<and> pr_keepalives pr' = pr_keepalives pr @ [pr_dialed pr..<pr_dialed pr + n]"
proof (induction n)
  case (Suc n)
  then obtain pr1 s1 where 1: "peer_run cfg v cb (reconnects n) ((pr, s), w) = ((pr1, s1), w)"
      "pr_phase pr1 = Dialing" "pr_dialed pr1 = pr_dialed pr + n"
      "pr_keepalives pr1 = pr_keepalives pr @ [pr_dialed pr..<pr_dialed pr + n]"
    by blast
  have "reconnects (Suc n) = reconnects n @ [DialOk True, Receives ReadError, Elapses]"
    by (simp add: reconnects_def replicate_append_same [symmetric] del: replicate_append_same)
  then show ?case
    using 1 reconnect_once [OF 1(2), of cfg v cb s1 w] by (auto simp: peer_run_def)
qed (simp add: reconnects_def peer_run_def assms)

text \<open>Keepalive goroutines are never stopped when their connection ends: after \<open>n\<close> connections
  have been made and lost there is no connection, and \<open>n\<close> goroutines still run, each writing
  its pings to a connection that is closed.\<close>

lemma keepalives_accumulate:
  "pr_conn (fst (fst (peer_run cfg v cb (reconnects n) ((new_peer cfg p, s), w)))) = None \<and>
   pr_keepalives (fst (fst (peer_run cfg v cb (reconnects n) ((new_peer cfg p, s), w)))) = [0..<n]"
  using reconnects_keepalives [of "new_peer cfg p" cfg v cb n s w]
  by (auto simp: new_peer_def)

section \<open>What arrives\<close>

lemma envelope_not_type: "\<forall>d. env \<noteq> \<lparr>env_Type = t, env_Data = d\<rparr> \<Longrightarrow> env_Type env \<noteq> t"
  by (metis envelope.surjective old.unit.exhaust)

text \<open>A clipboard frame that one daemon writes is handed by the receiving peer to its program
  with the same content (text as valid UTF-8, an image with its MIME type filled in) and the
  name of its origin; every other kind of message, and anything malformed, is ignored.\<close>

lemma peer_delivers_frames:
  assumes "sendable c" and "in_int64 ts"
  shows "readLoop_msg (Some f) (Some (clipboard_frame c ts from)) w = f (received c) (to_valid_utf8 from) w
    \<and> (\<forall>txt. (\<forall>d. unmarshal_envelope txt \<noteq> Some \<lparr>env_Type = MsgClipboard, env_Data = d\<rparr>) \<longrightarrow>
         readLoop_msg (Some f) txt w = w)"
proof -
  obtain cm where cm: "unmarshal_clipboard (Some (marshal_clipboard (ContentMsg c ts from))) = Some cm"
      "MsgToContent cm = Some (received c)"
    using unmarshal_ContentMsg [OF assms, of "from"] by (auto simp: bind_eq_Some_conv)
  have "cm_From cm = to_valid_utf8 from"
    using cm(1) assms(2) by auto
  moreover have "readLoop_msg (Some f) x w = w"
    if "\<forall>d. unmarshal_envelope x \<noteq> Some \<lparr>env_Type = MsgClipboard, env_Data = d\<rparr>" for x
    using that by (auto simp: readLoop_msg_def split: option.split dest!: envelope_not_type)
  ultimately show ?thesis
    using cm by (simp add: readLoop_msg_def del: unmarshal_marshal_clipboard)
qed

lemma peer_delivers_frames_example:
  "readLoop_msg (Some (\<lambda>c from w. w @ [c])) (Some (clipboard_frame ex_content 1 ''desk'')) [] =
     [received ex_content]"
  using peer_delivers_frames [of ex_content 1 "\<lambda>c from w. w @ [c]" "''desk''" "[]"]
  by (simp add: in_int64_def)

section \<open>Getting in\<close>

lemma token_key: "QueryUnescape ''token'' = Some ''token''"
  by simp

text \<open>Two daemons with the same token let each other in: the token a peer puts into the URL it
  dials, escaped, is the one the server reads from the query, whatever bytes it has; so with
  room for a client the connection is accepted.\<close>

lemma same_token_accepted:
  assumes "cfg_Token (sv_cfg s) = cfg_Token cfg" and "sv_maxClients s = 0"
  shows "snd (handleWS (Query_Get (peer_query cfg) ''token'') addr True s) = Some (fst (newID s))"
proof -
  have "cfg_Token cfg \<noteq> [] \<Longrightarrow> Query_Get (peer_query cfg) ''token'' = cfg_Token cfg"
    using Query_Get_single [OF token_key, of "cfg_Token cfg"] by (simp add: peer_query_def)
  moreover have "sv_maxClients (snd (newID s)) = 0"
    using assms(2) by simp
  ultimately show ?thesis
    using assms by (auto simp: handleWS_def Let_def case_prod_beta)
qed

lemma same_token_accepted_example:
  "snd (handleWS (Query_Get (peer_query (ex_config\<lparr>cfg_Token := ''a b&c''\<rparr>)) ''token'') ''10.0.0.9:5000'' True
     (New ex_env (ex_config\<lparr>cfg_Token := ''a b&c''\<rparr>) ''1'')) = Some ''1''"
  using same_token_accepted [of "New ex_env (ex_config\<lparr>cfg_Token := ''a b&c''\<rparr>) ''1''"
      "ex_config\<lparr>cfg_Token := ''a b&c''\<rparr>" "''10.0.0.9:5000''"]
  by (simp add: New_def newID_def Let_def)

end
