(* ===== verification/Watcher.thy ===== *)
theory Watcher
  imports Clip
begin

text \<open>
  \<open>internal/clip/watch.go\<close>: the watcher that polls (or is notified of) the clipboard and
  reports external changes, with its loop protection. The clipboard is the Go interface
  \<open>clip.Interface\<close>: \<open>Read\<close> and \<open>Write\<close> on the desktop's state, whose type is a
  parameter. The locale states the contract of that interface; in it, the watcher never
  reports what it wrote itself. The second half models the event loop with its settle window.
\<close>

section \<open>State and operations\<close>

text \<open>
  \<open>Read\<close> returns an error (\<open>Inl\<close>) or the content; \<open>Write\<close> an optional error and
  the new state of the desktop.
\<close>

type_synonym 'w read_fn = "'w \<Rightarrow> string + content"
type_synonym 'w write_fn = "content \<Rightarrow> 'w \<Rightarrow> string option \<times> 'w"

record watcher =
  lastHash :: u64
  skipHash :: u64
  interval :: duration
  notified :: bool

definition NewWatcher :: "duration \<Rightarrow> bool \<Rightarrow> watcher" where
  "NewWatcher ival evented = \<lparr>lastHash = 0, skipHash = 0, interval = ival, notified = evented\<rparr>"

definition snapshot :: "'w read_fn \<Rightarrow> 'w \<Rightarrow> u64" where
  "snapshot rd w = (case rd w of Inl e \<Rightarrow> 0 | Inr c \<Rightarrow> hashContent c)"

text \<open>What \<open>Run\<close> does before its loop.\<close>

definition run_start :: "'w read_fn \<Rightarrow> 'w \<Rightarrow> watcher \<Rightarrow> watcher" where
  "run_start rd w wt = wt\<lparr>lastHash := snapshot rd w\<rparr>"

text \<open>\<open>check\<close>: the content for which \<open>onChange\<close> is called, if any, and the new state.\<close>

definition check :: "'w read_fn \<Rightarrow> 'w \<Rightarrow> watcher \<Rightarrow> content option \<times> watcher" where
  "check rd w wt =
     (case rd w of
        Inl e \<Rightarrow> (None, wt)
      | Inr c \<Rightarrow>
          let h = hashContent c;
              fire = (h \<noteq> lastHash wt \<and> h \<noteq> skipHash wt)
          in (if fire then Some c else None, wt\<lparr>lastHash := h\<rparr>))"

definition LocalWrite :: "'w write_fn \<Rightarrow> content \<Rightarrow> watcher \<times> 'w \<Rightarrow> watcher \<times> 'w" where
  "LocalWrite wr c s =
     (case wr c (snd s) of
        (Some e, w') \<Rightarrow> (fst s, w')
      | (None, w') \<Rightarrow> ((fst s)\<lparr>skipHash := hashContent c, lastHash := hashContent c\<rparr>, w'))"

definition Track :: "content \<Rightarrow> watcher \<Rightarrow> watcher" where
  "Track c wt = wt\<lparr>skipHash := hashContent c, lastHash := hashContent c\<rparr>"

section \<open>Lemmas on single operations\<close>

lemma check_error [simp]: "rd w = Inl e \<Longrightarrow> check rd w wt = (None, wt)"
  by (simp add: check_def)

lemma check_fires_iff:
  "rd w = Inr c \<Longrightarrow>
     fst (check rd w wt) = Some c \<longleftrightarrow> hashContent c \<noteq> lastHash wt \<and> hashContent c \<noteq> skipHash wt"
  by (simp add: check_def Let_def)

lemma check_quiet_iff:
  "fst (check rd w wt) = None \<longleftrightarrow>
     (case rd w of Inl e \<Rightarrow> True | Inr c \<Rightarrow> hashContent c = lastHash wt \<or> hashContent c = skipHash wt)"
  by (simp add: check_def Let_def split: sum.splits)

lemma check_fired:
  "fst (check rd w wt) = Some c \<Longrightarrow>
     rd w = Inr c \<and> hashContent c \<noteq> lastHash wt \<and> hashContent c \<noteq> skipHash wt"
  by (auto simp: check_def Let_def split: sum.splits if_splits)

lemma check_lastHash:
  "rd w = Inr c \<Longrightarrow> lastHash (snd (check rd w wt)) = hashContent c"
  by (simp add: check_def Let_def)

lemma check_skipHash [simp]: "skipHash (snd (check rd w wt)) = skipHash wt"
  by (simp add: check_def Let_def split: sum.splits)

lemma check_again_quiet: "fst (check rd w (snd (check rd w wt))) = None"
  by (simp add: check_def Let_def split: sum.splits)

section \<open>The clipboard interface\<close>

text \<open>
  What a clipboard promises: a content written with success is what is read next, up to the
  key; a write that fails leaves what is read. \<open>writable\<close> are the contents for which a
  clipboard keeps the promise.
\<close>

locale clip_interface =
  fixes rd :: "'w read_fn"
    and wr :: "'w write_fn"
    and writable :: "content \<Rightarrow> bool"
  assumes read_back:
      "writable c \<Longrightarrow> wr c w = (None, w') \<Longrightarrow> \<exists>d. rd w' = Inr d \<and> hashContent d = hashContent c"
    and write_error: "wr c w = (Some e, w') \<Longrightarrow> rd w' = rd w"
begin

text \<open>The watcher agrees with the desktop: what is there is what it last saw.\<close>

definition in_step :: "watcher \<times> 'w \<Rightarrow> bool" where
  "in_step s \<longleftrightarrow> (case rd (snd s) of Inl e \<Rightarrow> True | Inr c \<Rightarrow> hashContent c = lastHash (fst s))"

lemma in_step_start: "in_step (run_start rd w wt, w)"
  by (simp add: in_step_def run_start_def snapshot_def split: sum.splits)

lemma in_step_quiet: "in_step s \<Longrightarrow> fst (check rd (snd s) (fst s)) = None"
  by (auto simp: in_step_def check_quiet_iff split: sum.splits)

lemma in_step_check: "in_step (snd (check rd w wt), w)"
  by (simp add: in_step_def check_def Let_def split: sum.splits)

lemma in_step_LocalWrite:
  assumes "in_step s" and "writable c"
  shows "in_step (LocalWrite wr c s)"
proof (cases "wr c (snd s)")
  case (Pair r w')
  show ?thesis
  proof (cases r)
    case None
    with Pair obtain d where "rd w' = Inr d" "hashContent d = hashContent c"
      using read_back [of c "snd s" w'] assms by auto
    with None Pair show ?thesis
      by (simp add: in_step_def LocalWrite_def)
  next
    case (Some e)
    with Pair have "rd w' = rd (snd s)"
      using write_error by simp
    with Some Pair assms show ?thesis
      by (simp add: in_step_def LocalWrite_def split: sum.splits)
  qed
qed

text \<open>After a write of its own the watcher is quiet at the next check.\<close>

lemma LocalWrite_quiet:
  assumes "writable c" and "wr c w = (None, w')"
  shows "fst (check rd w' (fst (LocalWrite wr c (wt, w)))) = None"
  using read_back [OF assms] assms by (auto simp: LocalWrite_def check_quiet_iff)

end

section \<open>Runs of the watcher\<close>

text \<open>
  What happens to a watcher in some order: a check, a write by the daemon, a content tracked
  without writing, and a change made by another program, which is a new desktop state.
\<close>

datatype 'w watch_op =
    Poll
  | WriteLocal content
  | TrackRemote content
  | External 'w

fun watch_step ::
    "'w read_fn \<Rightarrow> 'w write_fn \<Rightarrow> 'w watch_op \<Rightarrow> watcher \<times> 'w \<Rightarrow> content list \<times> watcher \<times> 'w" where
  "watch_step rd wr Poll (wt, w) =
     (case check rd w wt of
        (None, wt') \<Rightarrow> ([], wt', w)
      | (Some c, wt') \<Rightarrow> ([c], wt', w))"
| "watch_step rd wr (WriteLocal c) s = ([], LocalWrite wr c s)"
| "watch_step rd wr (TrackRemote c) (wt, w) = ([], Track c wt, w)"
| "watch_step rd wr (External w') (wt, w) = ([], wt, w')"

fun watch_run ::
    "'w read_fn \<Rightarrow> 'w write_fn \<Rightarrow> 'w watch_op list \<Rightarrow> watcher \<times> 'w \<Rightarrow> content list \<times> watcher \<times> 'w" where
  "watch_run rd wr [] s = ([], s)"
| "watch_run rd wr (x # xs) s =
     (let (out1, s1) = watch_step rd wr x s; (out2, s2) = watch_run rd wr xs s1
      in (out1 @ out2, s2))"

definition reports :: "'w read_fn \<Rightarrow> 'w write_fn \<Rightarrow> 'w watch_op list \<Rightarrow> watcher \<times> 'w \<Rightarrow> content list" where
  "reports rd wr xs s = fst (watch_run rd wr xs s)"

lemma reports_Nil [simp]: "reports rd wr [] s = []"
  by (simp add: reports_def)

lemma reports_Cons:
  "reports rd wr (x # xs) s =
     fst (watch_step rd wr x s) @ reports rd wr xs (snd (watch_step rd wr x s))"
  by (simp add: reports_def Let_def split: prod.splits)

text \<open>Every report is of a content that neither the last check nor the last own write saw.\<close>

lemma watch_step_report:
  assumes "c \<in> set (fst (watch_step rd wr x s))"
  shows "x = Poll \<and> rd (snd s) = Inr c \<and> hashContent c \<noteq> lastHash (fst s) \<and>
    hashContent c \<noteq> skipHash (fst s)"
proof (cases x)
  case Poll
  with assms have "fst (check rd (snd s) (fst s)) = Some c"
    by (cases s; cases "check rd (snd s) (fst s)") (auto split: option.splits)
  with Poll show ?thesis by (blast dest: check_fired)
qed (use assms in \<open>cases s; simp\<close>)+

context clip_interface
begin

definition own_op :: "'w watch_op \<Rightarrow> bool" where
  "own_op x \<longleftrightarrow> (case x of Poll \<Rightarrow> True | WriteLocal c \<Rightarrow> writable c | _ \<Rightarrow> False)"

lemma in_step_step:
  assumes "in_step s" and "own_op x"
  shows "in_step (snd (watch_step rd wr x s)) \<and> fst (watch_step rd wr x s) = []"
proof (cases x)
  case Poll
  obtain wt w where s: "s = (wt, w)" by (cases s)
  have "fst (check rd w wt) = None"
    using in_step_quiet [OF assms(1)] s by simp
  with Poll s in_step_check [of w wt] show ?thesis
    by (cases "check rd w wt") simp
next
  case (WriteLocal c)
  with assms show ?thesis
    by (simp add: own_op_def in_step_LocalWrite)
qed (use assms(2) in \<open>simp_all add: own_op_def\<close>)

lemma own_ops_quiet: "in_step s \<Longrightarrow> list_all own_op xs \<Longrightarrow> reports rd wr xs s = []"
proof (induction xs arbitrary: s)
  case (Cons x xs)
  then have "in_step (snd (watch_step rd wr x s)) \<and> fst (watch_step rd wr x s) = []"
    by (intro in_step_step) simp_all
  with Cons show ?case by (simp add: reports_Cons)
qed simp

text \<open>An external change is reported by the next check exactly when its key is new.\<close>

lemma external_reported:
  assumes "rd w' = Inr c"
  shows "reports rd wr [External w', Poll] s =
    (if hashContent c \<noteq> lastHash (fst s) \<and> hashContent c \<noteq> skipHash (fst s) then [c] else [])"
  using assms by (cases s) (simp add: reports_Cons check_def Let_def)

end

section \<open>The event loop\<close>

text \<open>
  \<open>runEvents\<close> and \<open>settle\<close> over the times at which notifications arrive and the context
  is cancelled. \<open>settle\<close> waits until no notification has come for \<open>eventSettleDelay\<close>;
  the loop then checks the clipboard. A check takes no time here.
\<close>

definition eventSettleDelay :: duration where
  "eventSettleDelay = 50 * millisecond"

datatype signal = Notify | Cancel

text \<open>
  \<open>settle\<close> with the timer set to \<open>deadline\<close>: \<open>None\<close> when the context is cancelled
  first, otherwise the time the timer fires and the signals still to come.
\<close>

fun settle :: "time \<Rightarrow> (time \<times> signal) list \<Rightarrow> (time \<times> (time \<times> signal) list) option" where
  "settle deadline [] = Some (deadline, [])"
| "settle deadline ((t, x) # xs) =
     (if t < deadline then
        (case x of Cancel \<Rightarrow> None | Notify \<Rightarrow> settle (t + eventSettleDelay) xs)
      else Some (deadline, (t, x) # xs))"

lemma settle_length: "settle d xs = Some (d', ys) \<Longrightarrow> length ys \<le> length xs"
  by (induction d xs rule: settle.induct) (auto split: if_splits signal.splits)

text \<open>The times at which the loop checks the clipboard.\<close>

function run_events :: "(time \<times> signal) list \<Rightarrow> time list" where
  "run_events [] = []"
| "run_events ((t, x) # xs) =
     (case x of
        Cancel \<Rightarrow> []
      | Notify \<Rightarrow>
          (case settle (t + eventSettleDelay) xs of
             None \<Rightarrow> []
           | Some (d, ys) \<Rightarrow> d # run_events ys))"
  by pat_completeness auto
termination
  by (relation "measure length") (auto dest: settle_length)

text \<open>Every settled notification is followed by a check at least the delay later.\<close>

lemma settle_covers:
  assumes "settle d xs = Some (d', ys)" and "sorted (map fst xs)"
  shows "\<forall>e \<in> set xs. (fst e + eventSettleDelay \<le> d' \<or> e \<in> set ys)"
    and "d \<le> d' \<or> (\<exists>e \<in> set xs. fst e < d \<and> fst e + eventSettleDelay \<le> d')"
    and "sorted (map fst ys)" and "set ys \<subseteq> set xs"
proof -
  have "(\<forall>e \<in> set xs. (fst e + eventSettleDelay \<le> d' \<or> e \<in> set ys)) \<and>
    (d \<le> d' \<or> (\<exists>e \<in> set xs. fst e < d \<and> fst e + eventSettleDelay \<le> d')) \<and>
    sorted (map fst ys) \<and> set ys \<subseteq> set xs"
    using assms
  proof (induction d xs rule: settle.induct)
    case (2 d t x xs)
    show ?case
    proof (cases "t < d \<and> x = Notify")
      case True
      with "2.prems" have "settle (t + eventSettleDelay) xs = Some (d', ys)" "sorted (map fst xs)"
        by auto
      with True "2.IH" have IH: "(\<forall>e \<in> set xs. (fst e + eventSettleDelay \<le> d' \<or> e \<in> set ys))"
          "t + eventSettleDelay \<le> d' \<or>
            (\<exists>e \<in> set xs. fst e < t + eventSettleDelay \<and> fst e + eventSettleDelay \<le> d')"
          "sorted (map fst ys)" "set ys \<subseteq> set xs"
        by auto
      have "t + eventSettleDelay \<le> d'"
        using IH(2) "2.prems"(2) by fastforce
      with IH True show ?thesis by auto
    next
      case False
      with "2.prems" show ?thesis
        by (cases x) (auto split: if_splits)
    qed
  qed auto
  then show "\<forall>e \<in> set xs. (fst e + eventSettleDelay \<le> d' \<or> e \<in> set ys)"
    and "d \<le> d' \<or> (\<exists>e \<in> set xs. fst e < d \<and> fst e + eventSettleDelay \<le> d')"
    and "sorted (map fst ys)" and "set ys \<subseteq> set xs"
    by blast+
qed

lemma settle_Some: "\<forall>e \<in> set xs. snd e = Notify \<Longrightarrow> \<exists>d' ys. settle d xs = Some (d', ys)"
  by (induction d xs rule: settle.induct) auto

lemma run_events_covers:
  assumes "sorted (map fst xs)" and "\<forall>e \<in> set xs. snd e = Notify" and "e \<in> set xs"
  shows "\<exists>d \<in> set (run_events xs). fst e + eventSettleDelay \<le> d"
  using assms
proof (induction xs arbitrary: e rule: run_events.induct)
  case (2 t x xs)
  then have x: "x = Notify" by simp
  have nots: "\<forall>e \<in> set xs. snd e = Notify" and srt: "sorted (map fst xs)"
    using "2.prems" by auto
  obtain d' ys where st: "settle (t + eventSettleDelay) xs = Some (d', ys)"
    using settle_Some [OF nots] by blast
  note cov = settle_covers [OF st srt]
  have head: "t + eventSettleDelay \<le> d'"
    using cov(2) "2.prems"(1) by fastforce
  have run: "run_events ((t, x) # xs) = d' # run_events ys"
    using x st by simp
  show ?case
  proof (cases "fst e + eventSettleDelay \<le> d'")
    case True
    with run show ?thesis by simp
  next
    case False
    then have "e \<noteq> (t, x)" using head by auto
    then have "e \<in> set ys" using "2.prems"(3) cov(1) False by auto
    moreover have "\<forall>e \<in> set ys. snd e = Notify" using nots cov(4) by auto
    ultimately have "\<exists>d \<in> set (run_events ys). fst e + eventSettleDelay \<le> d"
      using "2.IH" [OF x st refl cov(3)] by blast
    with run show ?thesis by simp
  qed
qed simp

lemma length_run_events: "length (run_events xs) \<le> length xs"
proof (induction xs rule: run_events.induct)
  case (2 t x xs)
  then show ?case
    by (cases x) (fastforce split: option.splits dest: settle_length)+
qed simp

text \<open>A burst: each notification comes before the window of the previous one has passed.\<close>

fun burst :: "time \<Rightarrow> time list \<Rightarrow> bool" where
  "burst t [] = True"
| "burst t (u # us) = (u < t + eventSettleDelay \<and> burst u us)"

lemma settle_burst:
  "burst t us \<Longrightarrow>
   settle (t + eventSettleDelay) (map (\<lambda>u. (u, Notify)) us) =
     Some (last (t # us) + eventSettleDelay, [])"
  by (induction us arbitrary: t) auto

section \<open>Properties\<close>

text \<open>In event mode no notification is lost: as long as the watcher is not cancelled, every
  notification is followed by a check at least the settle delay later, so the last change of a
  burst is always read; and there is never more than one check per notification.\<close>

lemma run_events_no_loss:
  assumes "sorted (map fst xs)" and "\<forall>e \<in> set xs. snd e = Notify"
  shows "(\<forall>e \<in> set xs. \<exists>d \<in> set (run_events xs). fst e + eventSettleDelay \<le> d) \<and>
    length (run_events xs) \<le> length xs"
  using run_events_covers [OF assms] length_run_events by blast

lemma run_events_no_loss_example:
  "\<exists>d \<in> set (run_events [(0, Notify), (10 * millisecond, Notify), (200 * millisecond, Notify)]).
     200 * millisecond + eventSettleDelay \<le> d"
  using run_events_no_loss
    [of "[(0, Notify), (10 * millisecond, Notify), (200 * millisecond, Notify)]"]
  by (simp add: millisecond_def)

text \<open>A burst of notifications, however long, makes the watcher read the clipboard exactly
  once, one settle delay after the last of them.\<close>

lemma run_events_burst:
  assumes "burst t us"
  shows "run_events ((t, Notify) # map (\<lambda>u. (u, Notify)) us) = [last (t # us) + eventSettleDelay]"
  using settle_burst [OF assms] by simp

lemma run_events_burst_example:
  "run_events ((0, Notify) # map (\<lambda>u. (u, Notify)) [5000000, 10000000, 15000000]) = [65000000]"
  using run_events_burst [of 0 "[5000000, 10000000, 15000000]"]
  by (simp add: eventSettleDelay_def millisecond_def)

text \<open>The watcher reports a content only at a check, only when that content is on the
  clipboard, and never one whose key is that of the previous check or of the daemon's last own
  write; an unchanged clipboard is reported at most once.\<close>

lemma check_reports:
  "(fst (check rd w wt) = Some c \<longleftrightarrow>
      rd w = Inr c \<and> hashContent c \<noteq> lastHash wt \<and> hashContent c \<noteq> skipHash wt) \<and>
   fst (check rd w (snd (check rd w wt))) = None"
  using check_again_quiet check_fired check_fires_iff by metis

text \<open>Once a content has been written locally, the watcher stays silent about it until the
  next local write, even when another program has replaced it in between and the user copies it
  again: the second copy is not reported although it differs from what was reported last.\<close>

lemma recopy_not_reported:
  assumes "wr a w = (None, wa)" and "rd wb = Inr b" and "rd wa' = Inr a'"
    and "hashContent a' = hashContent a" and "hashContent b \<noteq> hashContent a"
  shows "reports rd wr [WriteLocal a, External wb, Poll, External wa', Poll] (wt, w) = [b]"
  using assms by (simp add: reports_Cons LocalWrite_def check_def Let_def)

lemma recopy_not_reported_example:
  "reports (\<lambda>w. Inr w) (\<lambda>c w. (None, c))
     [WriteLocal (text_content ''a''), External (text_content ''b''), Poll,
      External (text_content ''a''), Poll]
     (NewWatcher 300 True, text_content ''z'') = [text_content ''b'']"
proof (rule recopy_not_reported)
  show "hashContent (text_content ''b'') \<noteq> hashContent (text_content ''a'')"
    using hash_text_edit [of "[]" "CHR ''b''" "[]" "CHR ''a''"] by simp
qed simp_all

end
