(* ===== verification/ClipBackends.thy ===== *)
theory ClipBackends
  imports Watcher Protocol Config
begin

text \<open>
  \<open>internal/clip/backend_linux.go\<close>, \<open>clip_linux.go\<close> and \<open>clip_windows.go\<close>: how
  the clipboard interface is implemented on the clipboard tools. The tools (external
  programs) and the Windows clipboard library are parameters: what running a command gives.
  The locales state what the tools promise and what a backend promises; the watcher's
  contract \<open>clip_interface\<close> is proved for the Linux clipboard on Wayland from the first.
\<close>

section \<open>Running a command\<close>

record exec_result =
  x_err :: "string option"
  x_stdout :: bytes
  x_stderr :: string

text \<open>
  What the code asks of the system: whether a command is on the path, the Wayland display,
  running a command for its output, running one with input (which changes the desktop), and
  whether a temporary file for its diagnostics can be made and read back.
\<close>

record 'w tools =
  LookPath :: "string \<Rightarrow> bool"
  WaylandDisplay :: string
  ExecOut :: "string \<Rightarrow> string list \<Rightarrow> 'w \<Rightarrow> exec_result"
  ExecIn :: "string \<Rightarrow> string list \<Rightarrow> bytes \<Rightarrow> 'w \<Rightarrow> exec_result \<times> 'w"
  TempFileOk :: bool
  TempReadOk :: bool

definition haveCmd :: "'w tools \<Rightarrow> string \<Rightarrow> bool" where
  "haveCmd t name = LookPath t name"

definition withStderr :: "string \<Rightarrow> string \<Rightarrow> string" where
  "withStderr err stderr =
     (if TrimSpace stderr \<noteq> [] then err @ '': '' @ TrimSpace stderr else err)"

definition runText :: "'w tools \<Rightarrow> string \<Rightarrow> string list \<Rightarrow> 'w \<Rightarrow> string + string" where
  "runText t name args w =
     (let r = ExecOut t name args w in
      case x_err r of
        Some e \<Rightarrow> Inl (withStderr e (x_stderr r))
      | None \<Rightarrow> Inr (string_of (x_stdout r)))"

definition runBin :: "'w tools \<Rightarrow> string \<Rightarrow> string list \<Rightarrow> 'w \<Rightarrow> string + bytes" where
  "runBin t name args w =
     (let r = ExecOut t name args w in
      case x_err r of Some e \<Rightarrow> Inl (withStderr e (x_stderr r)) | None \<Rightarrow> Inr (x_stdout r))"

definition runStdin ::
    "'w tools \<Rightarrow> string \<Rightarrow> string list \<Rightarrow> bytes \<Rightarrow> 'w \<Rightarrow> string option \<times> 'w" where
  "runStdin t name args input w =
     (case ExecIn t name args input w of
        (r, w') \<Rightarrow>
          (case x_err r of
             None \<Rightarrow> (None, w')
           | Some e \<Rightarrow>
               if TempFileOk t \<and> TempReadOk t then (Some (withStderr e (x_stderr r)), w')
               else (Some e, w')))"

section \<open>MIME types on offer\<close>

definition newline :: char where "newline = CHR 0x0A"

definition parseTypes :: "string \<Rightarrow> string list" where
  "parseTypes out = filter (\<lambda>t. t \<noteq> []) (map TrimSpace (Split out newline))"

definition image_prefix :: string where "image_prefix = ''image/''"

text \<open>The loop of \<open>chooseImageType\<close>; the second result \<open>false\<close> is \<open>None\<close>.\<close>

fun choose_loop :: "string \<Rightarrow> string list \<Rightarrow> string option" where
  "choose_loop preferred [] = (if preferred \<noteq> [] then Some preferred else None)"
| "choose_loop preferred (t # ts) =
     (if t = DefaultImageMime then Some DefaultImageMime
      else if HasPrefix t image_prefix \<and> preferred = [] then choose_loop t ts
      else choose_loop preferred ts)"

definition chooseImageType :: "string list \<Rightarrow> string option" where
  "chooseImageType types = choose_loop [] types"

section \<open>The backends\<close>

datatype backend = WaylandBackend | X11Backend string

text \<open>First command of a list that succeeds.\<close>

fun first_text :: "'w tools \<Rightarrow> (string \<times> string list) list \<Rightarrow> 'w \<Rightarrow> string" where
  "first_text t [] w = []"
| "first_text t ((name, args) # cs) w =
     (case runText t name args w of Inr out \<Rightarrow> out | Inl e \<Rightarrow> first_text t cs w)"

fun first_stdin ::
    "'w tools \<Rightarrow> string \<Rightarrow> (string \<times> string list) list \<Rightarrow> bytes \<Rightarrow> 'w \<Rightarrow> string option \<times> 'w" where
  "first_stdin t err [] input w = (Some err, w)"
| "first_stdin t err ((name, args) # cs) input w =
     (case runStdin t name args input w of
        (None, w') \<Rightarrow> (None, w')
      | (Some e, w') \<Rightarrow> first_stdin t err cs input w')"

definition xclip_args :: "string list" where
  "xclip_args = [''-selection'', ''clipboard'']"

fun readText :: "'w tools \<Rightarrow> backend \<Rightarrow> 'w \<Rightarrow> string" where
  "readText t WaylandBackend w =
     first_text t [(''wl-paste'', [''--no-newline'']), (''xclip'', xclip_args @ [''-o'']),
       (''xsel'', [''--clipboard'', ''--output''])] w"
| "readText t (X11Backend bin) w =
     (if bin = ''xclip'' then first_text t [(''xclip'', xclip_args @ [''-o''])] w
      else first_text t [(''xsel'', [''--clipboard'', ''--output''])] w)"

fun readImage :: "'w tools \<Rightarrow> backend \<Rightarrow> 'w \<Rightarrow> (bytes \<times> string) option" where
  "readImage t WaylandBackend w =
     (case runText t ''wl-paste'' [''--list-types''] w of
        Inl e \<Rightarrow> None
      | Inr types \<Rightarrow>
          (case chooseImageType (parseTypes types) of
             None \<Rightarrow> None
           | Some mime \<Rightarrow>
               (case runBin t ''wl-paste'' [''--type'', mime] w of
                  Inl e \<Rightarrow> None
                | Inr img \<Rightarrow> if img = [] then None else Some (img, mime))))"
| "readImage t (X11Backend bin) w =
     (if bin \<noteq> ''xclip'' then None
      else
        (case runText t ''xclip'' (xclip_args @ [''-t'', ''TARGETS'', ''-o'']) w of
           Inl e \<Rightarrow> None
         | Inr out \<Rightarrow>
             (case chooseImageType (parseTypes out) of
                None \<Rightarrow> None
              | Some mime \<Rightarrow>
                  (case runBin t ''xclip'' (xclip_args @ [''-t'', mime, ''-o'']) w of
                     Inl e \<Rightarrow> None
                   | Inr img \<Rightarrow> if img = [] then None else Some (img, mime)))))"

fun writeText :: "'w tools \<Rightarrow> backend \<Rightarrow> string \<Rightarrow> 'w \<Rightarrow> string option \<times> 'w" where
  "writeText t WaylandBackend txt w =
     first_stdin t ''wl-copy failed and no xclip/xsel fallback''
       [(''wl-copy'', []), (''xclip'', xclip_args), (''xsel'', [''--clipboard'', ''--input''])]
       (bytes_of txt) w"
| "writeText t (X11Backend bin) txt w =
     (if bin = ''xclip'' then runStdin t ''xclip'' xclip_args (bytes_of txt) w
      else runStdin t ''xsel'' [''--clipboard'', ''--input''] (bytes_of txt) w)"

fun writeImage :: "'w tools \<Rightarrow> backend \<Rightarrow> bytes \<Rightarrow> string \<Rightarrow> 'w \<Rightarrow> string option \<times> 'w" where
  "writeImage t WaylandBackend img mime w =
     first_stdin t ''wl-copy failed and no xclip fallback''
       [(''wl-copy'', [''--type'', mime]), (''xclip'', xclip_args @ [''-t'', mime])] img w"
| "writeImage t (X11Backend bin) img mime w =
     (if bin \<noteq> ''xclip'' then (Some ''xsel cannot write images'', w)
      else runStdin t ''xclip'' (xclip_args @ [''-t'', mime]) img w)"

section \<open>Choosing a backend\<close>

definition selectBackend :: "'w tools \<Rightarrow> config option \<Rightarrow> string + backend" where
  "selectBackend t cfg =
     (let forced = (case cfg of None \<Rightarrow> [] | Some c \<Rightarrow> cb_Backend (cfg_Clipboard c)) in
      if forced = ''wayland'' then
        (if haveCmd t ''wl-copy'' \<and> haveCmd t ''wl-paste'' then Inr WaylandBackend
         else Inl ''clipboard backend 'wayland' requested but wl-copy/wl-paste not found'')
      else if forced = ''xclip'' then
        (if haveCmd t ''xclip'' then Inr (X11Backend ''xclip'')
         else Inl ''clipboard backend 'xclip' requested but xclip not found'')
      else if forced = ''xsel'' then
        (if haveCmd t ''xsel'' then Inr (X11Backend ''xsel'')
         else Inl ''clipboard backend 'xsel' requested but xsel not found'')
      else if WaylandDisplay t \<noteq> [] \<and> haveCmd t ''wl-copy'' \<and> haveCmd t ''wl-paste'' then
        Inr WaylandBackend
      else if haveCmd t ''xclip'' then Inr (X11Backend ''xclip'')
      else if haveCmd t ''xsel'' then Inr (X11Backend ''xsel'')
      else Inl ''no clipboard tool found (need wl-copy/wl-paste or xclip)'')"

section \<open>The Linux clipboard\<close>

definition linux_Read :: "'w tools \<Rightarrow> backend \<Rightarrow> 'w read_fn" where
  "linux_Read t b w =
     (case readImage t b w of
        Some (img, mime) \<Rightarrow> Inr (image_content img mime)
      | None \<Rightarrow> Inr (text_content (readText t b w)))"

definition linux_Write :: "'w tools \<Rightarrow> backend \<Rightarrow> 'w write_fn" where
  "linux_Write t b c w =
     (if Kind c = KindImage then
        writeImage t b (Image c) (if Mime c = [] then DefaultImageMime else Mime c) w
      else writeText t b (Text c) w)"

section \<open>The Windows clipboard\<close>

text \<open>The library's calls: reading a format (empty when it is not there) and writing one.\<close>

record 'w win_lib =
  ReadFmtImage :: "'w \<Rightarrow> bytes"
  ReadFmtText :: "'w \<Rightarrow> bytes"
  WriteFmtImage :: "bytes \<Rightarrow> 'w \<Rightarrow> 'w"
  WriteFmtText :: "bytes \<Rightarrow> 'w \<Rightarrow> 'w"

definition win_Read :: "'w win_lib \<Rightarrow> 'w read_fn" where
  "win_Read l w =
     (let img = ReadFmtImage l w in
      if img \<noteq> [] then Inr (image_content img DefaultImageMime)
      else Inr (text_content (string_of (ReadFmtText l w))))"

definition win_Write :: "'w win_lib \<Rightarrow> 'w write_fn" where
  "win_Write l c w =
     (if Kind c = KindImage then (None, WriteFmtImage l (Image c) w)
      else (None, WriteFmtText l (bytes_of (Text c)) w))"

section \<open>Opening the clipboard\<close>

text \<open>\<open>NewForConfig\<close> of both systems: an error, or \<open>Read\<close> and \<open>Write\<close>; \<open>Close\<close> does nothing on either.\<close>

type_synonym 'w clipboard = "'w read_fn \<times> 'w write_fn"

definition linux_NewForConfig :: "'w tools \<Rightarrow> config option \<Rightarrow> string + 'w clipboard" where
  "linux_NewForConfig t cfg =
     (case selectBackend t cfg of
        Inl err \<Rightarrow> Inl err
      | Inr b \<Rightarrow> Inr (linux_Read t b, linux_Write t b))"

text \<open>\<open>init_error\<close> is what \<open>clipboard.Init\<close> gives.\<close>

definition win_NewForConfig :: "string option \<Rightarrow> 'w win_lib \<Rightarrow> config option \<Rightarrow> string + 'w clipboard" where
  "win_NewForConfig init_error l cfg =
     (case init_error of
        Some err \<Rightarrow> Inl (''clipboard init: '' @ err)
      | None \<Rightarrow> Inr (win_Read l, win_Write l))"

section \<open>Choosing an image type\<close>

lemma choose_loop_preferred:
  "p \<noteq> [] \<Longrightarrow>
   choose_loop p ts = (if DefaultImageMime \<in> set ts then Some DefaultImageMime else Some p)"
  by (induction ts) auto

lemma chooseImageType_eq:
  "chooseImageType ts =
     (if DefaultImageMime \<in> set ts then Some DefaultImageMime
      else find (\<lambda>t. HasPrefix t image_prefix) ts)"
proof (induction ts)
  case (Cons t ts)
  have "HasPrefix t image_prefix \<Longrightarrow> t \<noteq> []"
    by (auto simp: HasPrefix_def image_prefix_def)
  with Cons show ?case
    by (auto simp: chooseImageType_def choose_loop_preferred)
qed (simp add: chooseImageType_def)

lemma DefaultImageMime_prefix [simp]: "HasPrefix DefaultImageMime image_prefix"
  by (simp add: HasPrefix_def DefaultImageMime_def image_prefix_def)

lemma chooseImageType_image:
  "chooseImageType ts = Some m \<Longrightarrow> HasPrefix m image_prefix \<and> m \<in> set ts"
  by (auto simp: chooseImageType_eq find_Some_iff split: if_splits)

lemma chooseImageType_None_iff:
  "chooseImageType ts = None \<longleftrightarrow> (\<forall>t \<in> set ts. \<not> HasPrefix t image_prefix)"
  by (auto simp: chooseImageType_eq find_None_iff intro: bexI [of _ DefaultImageMime])

section \<open>What a backend promises\<close>

text \<open>
  The Go interface \<open>backend\<close>: the image it returns is not empty and its type is an image
  type. The clipboard built on any such backend reads contents that can be sent as they are.
\<close>

locale image_backend =
  fixes rd_image :: "'w \<Rightarrow> (bytes \<times> string) option"
    and rd_text :: "'w \<Rightarrow> string"
  assumes image_data: "rd_image w = Some (img, mime) \<Longrightarrow> img \<noteq> []"
    and image_mime_type: "rd_image w = Some (img, mime) \<Longrightarrow> HasPrefix mime image_prefix"
begin

definition clip_read :: "'w \<Rightarrow> content" where
  "clip_read w =
     (case rd_image w of
        Some (img, mime) \<Rightarrow> image_content img mime
      | None \<Rightarrow> text_content (rd_text w))"

lemma clip_read_sendable: "clip_read w = text_content [] \<or> sendable (clip_read w)"
  by (auto simp: clip_read_def sendable_def split: option.splits dest: image_data)

lemma clip_read_mime: "Kind (clip_read w) = KindImage \<Longrightarrow> HasPrefix (Mime (clip_read w)) image_prefix"
  by (auto simp: clip_read_def split: option.splits dest: image_mime_type)

end

lemma readImage_Some:
  "readImage t b w = Some (img, mime) \<Longrightarrow> img \<noteq> [] \<and> HasPrefix mime image_prefix"
  by (cases b)
    (auto split: sum.splits option.splits if_splits dest: chooseImageType_image)

interpretation be: image_backend "readImage t b" "readText t b" for t b
  by unfold_locales (auto dest: readImage_Some)

lemma linux_Read_eq: "linux_Read t b w = Inr (be.clip_read t b w)"
  by (simp add: linux_Read_def be.clip_read_def split: option.split)

section \<open>What the Wayland tools promise\<close>

text \<open>
  The documented behaviour of \<open>wl-copy\<close> and \<open>wl-paste\<close>: a copy succeeds; what was copied
  is what is pasted; a copy with \<open>--type\<close> is offered under exactly that type. Without
  \<open>--type\<close> the tool infers the types it offers from the data; \<open>plain\<close> are the texts for
  which none of them is an image type.
\<close>

definition lists_as :: "'w tools \<Rightarrow> 'w \<Rightarrow> string list \<Rightarrow> bool" where
  "lists_as t w types \<longleftrightarrow>
     (case runText t ''wl-paste'' [''--list-types''] w of
        Inl e \<Rightarrow> False | Inr out \<Rightarrow> parseTypes out = types)"

definition mime_name :: "string \<Rightarrow> bool" where
  "mime_name m \<longleftrightarrow> parseTypes m = [m]"

text \<open>The contents a Wayland clipboard gives back as they were written.\<close>

definition wl_writable :: "(string \<Rightarrow> bool) \<Rightarrow> content \<Rightarrow> bool" where
  "wl_writable plain c \<longleftrightarrow>
     sendable c \<and>
     (case Kind c of
        KindText \<Rightarrow> plain (Text c)
      | KindImage \<Rightarrow> mime_name (Mime c) \<and> HasPrefix (Mime c) image_prefix)"

lemma sendable_cases:
  assumes "sendable c"
  obtains "c = text_content (Text c)" "Kind c = KindText"
    | "c = image_content (Image c) (Mime c)" "Image c \<noteq> []" "Kind c = KindImage"
  using assms
  by (cases c; cases "Kind c")
    (simp_all add: sendable_def text_content_def image_content_def zero_content_def)

locale wl_clipboard =
  fixes t :: "'w tools"
    and plain :: "string \<Rightarrow> bool"
  assumes copy_ok: "x_err (fst (ExecIn t ''wl-copy'' args input w)) = None"
    and paste_text: "plain txt \<Longrightarrow> ExecIn t ''wl-copy'' [] (bytes_of txt) w = (r, w') \<Longrightarrow>
      runText t ''wl-paste'' [''--no-newline''] w' = Inr txt"
    and text_types: "plain txt \<Longrightarrow> ExecIn t ''wl-copy'' [] (bytes_of txt) w = (r, w') \<Longrightarrow>
      \<exists>types. lists_as t w' types \<and> chooseImageType types = None"
    and paste_image: "mime_name m \<Longrightarrow> ExecIn t ''wl-copy'' [''--type'', m] img w = (r, w') \<Longrightarrow>
      runBin t ''wl-paste'' [''--type'', m] w' = Inr img"
    and image_types: "mime_name m \<Longrightarrow> ExecIn t ''wl-copy'' [''--type'', m] img w = (r, w') \<Longrightarrow>
      lists_as t w' [m]"
begin

lemma run_copy:
  "runStdin t ''wl-copy'' args input w = (None, snd (ExecIn t ''wl-copy'' args input w))"
  using copy_ok [of args input w]
  by (cases "ExecIn t ''wl-copy'' args input w") (simp add: runStdin_def)

lemma write_ok: "fst (linux_Write t WaylandBackend c w) = None"
  by (simp add: linux_Write_def run_copy)

lemma read_text_back:
  assumes "plain txt" and "linux_Write t WaylandBackend (text_content txt) w = (None, w')"
  shows "linux_Read t WaylandBackend w' = Inr (text_content txt)"
proof -
  obtain r where w': "ExecIn t ''wl-copy'' [] (bytes_of txt) w = (r, w')"
    using assms(2) by (cases "ExecIn t ''wl-copy'' [] (bytes_of txt) w")
      (simp add: linux_Write_def run_copy)
  obtain types where types: "lists_as t w' types" "chooseImageType types = None"
    using text_types [OF assms(1) w'] by blast
  then have "readImage t WaylandBackend w' = None"
    by (auto simp: lists_as_def split: sum.splits)
  with paste_text [OF assms(1) w'] show ?thesis
    by (simp add: linux_Read_def)
qed

lemma read_image_back:
  assumes "img \<noteq> []" "mime_name m" "HasPrefix m image_prefix"
    and "linux_Write t WaylandBackend (image_content img m) w = (None, w')"
  shows "linux_Read t WaylandBackend w' = Inr (image_content img m)"
proof -
  have "m \<noteq> []" using assms(3) by (auto simp: HasPrefix_def image_prefix_def)
  then obtain r where w': "ExecIn t ''wl-copy'' [''--type'', m] img w = (r, w')"
    using assms(4) by (cases "ExecIn t ''wl-copy'' [''--type'', m] img w")
      (simp add: linux_Write_def run_copy)
  have "chooseImageType [m] = Some m"
    using assms(3) by (simp add: chooseImageType_eq)
  then have "readImage t WaylandBackend w' = Some (img, m)"
    using image_types [OF assms(2) w'] paste_image [OF assms(2) w'] assms(1)
    by (auto simp: lists_as_def split: sum.splits)
  then show ?thesis
    by (simp add: linux_Read_def)
qed

sublocale wl: clip_interface "linux_Read t WaylandBackend" "linux_Write t WaylandBackend"
  "wl_writable plain"
proof
  fix c w w'
  assume w: "wl_writable plain c" and ok: "linux_Write t WaylandBackend c w = (None, w')"
  have "sendable c" using w by (simp add: wl_writable_def)
  then show "\<exists>d. linux_Read t WaylandBackend w' = Inr d \<and> hashContent d = hashContent c"
  proof (cases rule: sendable_cases)
    case 1
    with w ok show ?thesis
      using read_text_back [of "Text c" w w'] by (auto simp: wl_writable_def)
  next
    case 2
    with w ok show ?thesis
      using read_image_back [of "Image c" "Mime c" w w'] by (auto simp: wl_writable_def)
  qed
next
  fix c w e w'
  assume "linux_Write t WaylandBackend c w = (Some e, w')"
  then show "linux_Read t WaylandBackend w' = linux_Read t WaylandBackend w"
    using write_ok [of c w] by simp
qed

lemma no_echo:
  assumes "list_all (\<lambda>x. x = Poll \<or> (\<exists>c. x = WriteLocal c \<and> wl_writable plain c)) xs"
  shows "reports (linux_Read t WaylandBackend) (linux_Write t WaylandBackend) xs
    (run_start (linux_Read t WaylandBackend) w wt, w) = []"
proof (rule wl.own_ops_quiet [OF wl.in_step_start])
  show "list_all wl.own_op xs"
    using assms by (auto simp: list_all_iff wl.own_op_def)
qed

end

section \<open>A selection store\<close>

text \<open>
  A concrete pair of tools with that behaviour: the desktop is the list of types on offer
  with their data. It shows that the promises can be kept, and the watcher runs on it.
\<close>

type_synonym selection = "(string \<times> bytes) list"

definition store_ok :: "bytes \<Rightarrow> exec_result" where
  "store_ok out = \<lparr>x_err = None, x_stdout = out, x_stderr = []\<rparr>"

definition store_fail :: exec_result where
  "store_fail = \<lparr>x_err = Some ''exit status 1'', x_stdout = [], x_stderr = []\<rparr>"

definition store_lookup :: "string \<Rightarrow> selection \<Rightarrow> exec_result" where
  "store_lookup m w = (case map_of w m of None \<Rightarrow> store_fail | Some d \<Rightarrow> store_ok d)"

definition store_tools :: "selection tools" where
  "store_tools =
     \<lparr>LookPath = (\<lambda>n. n = ''wl-copy'' \<or> n = ''wl-paste''),
      WaylandDisplay = ''wayland-0'',
      ExecOut = (\<lambda>name args w.
        if name = ''wl-paste'' then
          (case args of
             [a] \<Rightarrow> if a = ''--no-newline'' then store_lookup ''text/plain'' w
                    else if a = ''--list-types'' then store_ok (bytes_of (Join (keys w) [newline]))
                    else store_fail
           | [a, m] \<Rightarrow> if a = ''--type'' then store_lookup m w else store_fail
           | _ \<Rightarrow> store_fail)
        else store_fail),
      ExecIn = (\<lambda>name args input w.
        if name = ''wl-copy'' then
          (case args of
             [a, m] \<Rightarrow> (store_ok [], [(m, input)])
           | _ \<Rightarrow> (store_ok [], [(''text/plain'', input)]))
        else (store_fail, w)),
      TempFileOk = True, TempReadOk = True\<rparr>"

lemma string_of_comp [simp]: "map (char_of_byte \<circ> byte_of_char) s = s"
  by (induction s) simp_all

lemma text_plain_name [simp]: "parseTypes ''text/plain'' = [''text/plain'']"
  by code_simp

interpretation store: wl_clipboard store_tools "\<lambda>_. True"
proof
  fix args input w
  show "x_err (fst (ExecIn store_tools ''wl-copy'' args input w)) = None"
    by (simp add: store_tools_def store_ok_def split: list.split)
next
  fix s w r w'
  assume w': "ExecIn store_tools ''wl-copy'' [] (bytes_of s) w = (r, w')"
  show "runText store_tools ''wl-paste'' [''--no-newline''] w' = Inr s"
    using w' by (auto simp: store_tools_def runText_def store_lookup_def store_ok_def)
  have "lists_as store_tools w' [''text/plain'']"
    using w' by (auto simp: lists_as_def store_tools_def runText_def store_ok_def)
  moreover have "chooseImageType [''text/plain''] = None"
    by (simp add: chooseImageType_eq HasPrefix_def image_prefix_def DefaultImageMime_def)
  ultimately show "\<exists>types. lists_as store_tools w' types \<and> chooseImageType types = None"
    by blast
next
  fix m img w r w'
  assume m: "mime_name m" and w': "ExecIn store_tools ''wl-copy'' [''--type'', m] img w = (r, w')"
  show "runBin store_tools ''wl-paste'' [''--type'', m] w' = Inr img"
    using w' by (auto simp: store_tools_def runBin_def store_lookup_def store_ok_def)
  show "lists_as store_tools w' [m]"
    using w' m by (auto simp: lists_as_def store_tools_def runText_def store_ok_def mime_name_def)
qed

section \<open>Properties\<close>

text \<open>The image type that is read is \<open>image/png\<close> whenever it is on offer, otherwise the
  first image type on offer; nothing is read as an image exactly when no image type is offered.\<close>

lemma chooseImageType_spec:
  "chooseImageType ts =
     (if DefaultImageMime \<in> set ts then Some DefaultImageMime
      else find (\<lambda>t. HasPrefix t image_prefix) ts)"
  by (rule chooseImageType_eq)

text \<open>A backend is selected only if its commands are installed, and a backend forced by the
  configuration is never replaced by another: it is that one or an error. Without a forced
  backend selection fails only if no complete set of tools is usable.\<close>

lemma selectBackend_installed:
  "case selectBackend t cfg of
     Inr WaylandBackend \<Rightarrow> haveCmd t ''wl-copy'' \<and> haveCmd t ''wl-paste'' \<and>
       (case cfg of None \<Rightarrow> True | Some c \<Rightarrow> cb_Backend (cfg_Clipboard c) \<notin> {''xclip'', ''xsel''})
   | Inr (X11Backend bin) \<Rightarrow> haveCmd t bin \<and> bin \<in> {''xclip'', ''xsel''} \<and>
       (case cfg of None \<Rightarrow> True
        | Some c \<Rightarrow> cb_Backend (cfg_Clipboard c) \<notin> {''wayland'', ''xclip'', ''xsel''} - {bin})
   | Inl e \<Rightarrow> \<not> (haveCmd t ''wl-copy'' \<and> haveCmd t ''wl-paste'' \<and> haveCmd t ''xclip'' \<and> haveCmd t ''xsel'')"
  by (simp add: selectBackend_def Let_def split: option.split)

text \<open>On Linux, whatever the tools return, reading the clipboard gives a text or an image that
  can be sent as it is, and an image always carries an image type; only an empty text is not
  sendable.\<close>

lemma linux_Read_wellformed:
  "\<exists>c. linux_Read t b w = Inr c \<and> (c = text_content [] \<or> sendable c) \<and>
     (Kind c = KindText \<or> HasPrefix (Mime c) image_prefix)"
  using be.clip_read_sendable [of t b w] be.clip_read_mime [of t b w]
  by (cases "Kind (be.clip_read t b w)") (simp_all add: linux_Read_eq)



text \<open>On Windows the loop protection of the watcher does not cover an image whose type is not
  \<open>image/png\<close>: the clipboard library reads every image back as PNG, the key differs, and
  the check after the daemon's own write reports the image as a local change.\<close>

lemma windows_foreign_mime_echo:
  assumes "\<And>img w. ReadFmtImage l (WriteFmtImage l img w) = img"
    and "img \<noteq> []"
    and "hashContent (image_content img m) \<noteq> hashContent (image_content img DefaultImageMime)"
  shows "reports (win_Read l) (win_Write l) [WriteLocal (image_content img m), Poll] (wt, w) =
    [image_content img DefaultImageMime]"
  using assms
  by (simp add: reports_Cons LocalWrite_def win_Write_def win_Read_def check_def Let_def)

definition store_win_lib :: "(bytes \<times> bytes) win_lib" where
  "store_win_lib =
     \<lparr>ReadFmtImage = fst, ReadFmtText = snd,
      WriteFmtImage = (\<lambda>img w. (img, [])), WriteFmtText = (\<lambda>txt w. ([], txt))\<rparr>"

lemma jpeg_png_keys:
  "hashContent (image_content [1, 2] ''image/jpeg'') \<noteq> hashContent (image_content [1, 2] DefaultImageMime)"
  by code_simp

lemma windows_foreign_mime_echo_example:
  "reports (win_Read store_win_lib) (win_Write store_win_lib)
     [WriteLocal (image_content [1, 2] ''image/jpeg''), Poll] (NewWatcher 300 True, ([], [])) =
     [image_content [1, 2] DefaultImageMime]"
  by (rule windows_foreign_mime_echo)
    (use jpeg_png_keys in \<open>simp_all add: store_win_lib_def NewWatcher_def\<close>)

end
