(* ===== verification/App.thy ===== *)
theory App
  imports PeerProps ClipBackends
begin

text \<open>
  \<open>cli/app/app.go\<close>: the daemon as a whole. Its state is the WebSocket server, the watcher
  (absent with \<open>--no-watch\<close>) and the desktop, whose clipboard is read and written through
  the two functions of the interface. The lemmas: what is received is written and never
  announced again, what is copied arrives at the other daemon, and with no desktop change of
  anybody else the daemon never announces anything.
\<close>

section \<open>Writing what was received\<close>

text \<open>\<open>writeRemote\<close>: through the watcher when there is one.\<close>

definition writeRemote ::
    "'w write_fn \<Rightarrow> content \<Rightarrow> string \<Rightarrow> watcher option \<times> 'w \<Rightarrow> watcher option \<times> 'w" where
  "writeRemote wr c from a =
     (if (case Kind c of KindImage \<Rightarrow> Image c = [] | KindText \<Rightarrow> Text c = []) then a
      else
        (case fst a of
           Some wt \<Rightarrow> (case LocalWrite wr c (wt, snd a) of (wt', w') \<Rightarrow> (Some wt', w'))
         | None \<Rightarrow> (None, snd (wr c (snd a)))))"

text \<open>The callback for clients: with \<open>--no-watch\<close> the clipboard is written directly.\<close>

definition remote_callback ::
    "'w write_fn \<Rightarrow> bool \<Rightarrow> content \<Rightarrow> string \<Rightarrow> watcher option \<times> 'w \<Rightarrow> watcher option \<times> 'w" where
  "remote_callback wr noWatch =
     (if noWatch then (\<lambda>c from a. (fst a, snd (wr c (snd a)))) else writeRemote wr)"

section \<open>Starting\<close>

text \<open>What starting the notifier gave.\<close>

datatype notifier = Started | Unavailable | StartFailed string

definition app_watcher :: "'w read_fn \<Rightarrow> config \<Rightarrow> notifier \<Rightarrow> 'w \<Rightarrow> watcher" where
  "app_watcher rd cfg nt w =
     run_start rd w (NewWatcher (fst (WatchInterval cfg)) (nt = Started))"

text \<open>\<open>New\<close>: \<open>open_clip\<close> is \<open>clip.NewForConfig\<close>.\<close>

definition app_New ::
    "(config option \<Rightarrow> string + 'w clipboard) \<Rightarrow> env \<Rightarrow> config \<Rightarrow> string \<Rightarrow> string + 'w clipboard \<times> server" where
  "app_New open_clip e cfg v =
     (case open_clip (Some cfg) of
        Inl err \<Rightarrow> Inl err
      | Inr clip \<Rightarrow> Inr (clip, New e cfg v))"

text \<open>\<open>Run\<close> up to where its services are started.\<close>

definition app_Run :: "'w read_fn \<Rightarrow> bool \<Rightarrow> notifier \<Rightarrow> server \<Rightarrow> 'w \<Rightarrow> server \<times> watcher option \<times> 'w" where
  "app_Run rd noWatch nt s w =
     (s, if noWatch then None else Some (app_watcher rd (sv_cfg s) nt w), w)"

definition app_start ::
    "'w read_fn \<Rightarrow> env \<Rightarrow> config \<Rightarrow> string \<Rightarrow> bool \<Rightarrow> notifier \<Rightarrow> 'w
     \<Rightarrow> server \<times> watcher option \<times> 'w" where
  "app_start rd e cfg v noWatch nt w = app_Run rd noWatch nt (New e cfg v) w"

text \<open>\<open>clipshare daemon\<close>: only the first argument is looked at.\<close>

definition daemon_Run ::
    "(config option \<Rightarrow> string + 'w clipboard) \<Rightarrow> env \<Rightarrow> config \<Rightarrow> string \<Rightarrow> string list \<Rightarrow> notifier \<Rightarrow> 'w
     \<Rightarrow> string + server \<times> watcher option \<times> 'w" where
  "daemon_Run open_clip e cfg v args nt w =
     (let noWatch = (args \<noteq> [] \<and> hd args = ''--no-watch'') in
      case app_New open_clip e cfg v of
        Inl err \<Rightarrow> Inl err
      | Inr ((rd, wr), s) \<Rightarrow> Inr (app_Run rd noWatch nt s w))"

lemma app_start_eq:
  "app_start rd e cfg v noWatch nt w = (New e cfg v, if noWatch then None else Some (app_watcher rd cfg nt w), w)"
  by (simp add: app_start_def app_Run_def New_def)

text \<open>
  On Linux the daemon starts exactly if a backend is found, and then works on its tools; without
  one it ends with the error of \<open>selectBackend\<close>, before any port is opened.
\<close>

lemma daemon_Run_linux:
  "daemon_Run (linux_NewForConfig t) e cfg v args nt w =
     (case selectBackend t (Some cfg) of
        Inl err \<Rightarrow> Inl err
      | Inr b \<Rightarrow> Inr (app_start (linux_Read t b) e cfg v (args \<noteq> [] \<and> hd args = ''--no-watch'') nt w))"
  by (simp add: daemon_Run_def app_New_def linux_NewForConfig_def app_start_def Let_def split: sum.split)

section \<open>Running\<close>

text \<open>
  The events of the daemon: one of its server, a message pushed by a peer, a check of the
  watcher, and a change of the desktop by another program.
\<close>

datatype 'w app_event =
    Net event
  | PeerPush "json option"
  | Tick env
  | Desktop 'w

definition app_tick ::
    "'w read_fn \<Rightarrow> env \<Rightarrow> server \<times> watcher option \<times> 'w \<Rightarrow> server \<times> watcher option \<times> 'w" where
  "app_tick rd e st =
     (case st of
        (s, None, w) \<Rightarrow> (s, None, w)
      | (s, Some wt, w) \<Rightarrow>
          (case check rd w wt of
             (None, wt') \<Rightarrow> (s, Some wt', w)
           | (Some c, wt') \<Rightarrow> (BroadcastLocal e c (DeviceName s) s, Some wt', w)))"

fun app_step ::
    "'w read_fn \<Rightarrow> 'w write_fn \<Rightarrow> bool \<Rightarrow> 'w app_event
     \<Rightarrow> server \<times> watcher option \<times> 'w \<Rightarrow> server \<times> watcher option \<times> 'w" where
  "app_step rd wr noWatch (Net x) st = server_step (daemon_hooks (remote_callback wr noWatch)) x st"
| "app_step rd wr noWatch (PeerPush txt) (s, a) = (s, readLoop_msg (Some (writeRemote wr)) txt a)"
| "app_step rd wr noWatch (Tick e) st = app_tick rd e st"
| "app_step rd wr noWatch (Desktop w') (s, wo, w) = (s, wo, w')"

definition app_run ::
    "'w read_fn \<Rightarrow> 'w write_fn \<Rightarrow> bool \<Rightarrow> 'w app_event list
     \<Rightarrow> server \<times> watcher option \<times> 'w \<Rightarrow> server \<times> watcher option \<times> 'w" where
  "app_run rd wr noWatch es st = fold (app_step rd wr noWatch) es st"

section \<open>The watcher after a remote write\<close>

context clip_interface
begin

definition quiet_state :: "watcher option \<times> 'w \<Rightarrow> bool" where
  "quiet_state a \<longleftrightarrow> (case fst a of None \<Rightarrow> True | Some wt \<Rightarrow> in_step (wt, snd a))"

lemma check_in_step: "in_step (wt, w) \<Longrightarrow> check rd w wt = (None, wt)"
  by (cases "rd w") (simp_all add: in_step_def check_def Let_def)

lemma quiet_tick: "quiet_state a \<Longrightarrow> app_tick rd e (s, a) = (s, a)"
  by (cases a) (auto simp: app_tick_def quiet_state_def check_in_step split: option.splits)

lemma quiet_writeRemote:
  assumes "quiet_state a" and "writable c"
  shows "quiet_state (writeRemote wr c from a)"
proof -
  obtain wo w where a: "a = (wo, w)" by (cases a)
  have "in_step (wt, w) \<Longrightarrow> in_step (fst (LocalWrite wr c (wt, w)), snd (LocalWrite wr c (wt, w)))" for wt
    using in_step_LocalWrite [of "(wt, w)" c] assms(2) by simp
  then show ?thesis
    using assms a by (auto simp: writeRemote_def quiet_state_def case_prod_beta split: option.splits)
qed

lemma quiet_remote_callback:
  "quiet_state a \<Longrightarrow> writable c \<Longrightarrow> (noWatch \<longrightarrow> fst a = None) \<Longrightarrow>
   quiet_state (remote_callback wr noWatch c from a)"
  using quiet_writeRemote by (auto simp: remote_callback_def quiet_state_def)

lemma quiet_start: "quiet_state (snd (app_start rd e cfg v noWatch nt w))"
  using in_step_start [of w "NewWatcher (fst (WatchInterval cfg)) (nt = Started)"]
  by (simp add: app_start_eq quiet_state_def app_watcher_def)

end

section \<open>What an event brings in\<close>

text \<open>The content of a clipboard message in a text, if it is one.\<close>

definition frame_content :: "json option \<Rightarrow> content option" where
  "frame_content txt =
     (case unmarshal_envelope txt of
        None \<Rightarrow> None
      | Some env \<Rightarrow>
          if env_Type env = MsgClipboard
          then Option.bind (unmarshal_clipboard (env_Data env)) MsgToContent else None)"

fun net_content :: "event \<Rightarrow> content option" where
  "net_content (Read e i (Frame txt)) = frame_content txt"
| "net_content _ = None"

fun event_content :: "'w app_event \<Rightarrow> content option" where
  "event_content (Net x) = net_content x"
| "event_content (PeerPush txt) = frame_content txt"
| "event_content _ = None"

definition is_tick :: "'w app_event \<Rightarrow> bool" where
  "is_tick x \<longleftrightarrow> (case x of Tick e \<Rightarrow> True | _ \<Rightarrow> False)"

definition is_desktop :: "'w app_event \<Rightarrow> bool" where
  "is_desktop x \<longleftrightarrow> (case x of Desktop w \<Rightarrow> True | _ \<Rightarrow> False)"

lemma handleClipboard_world:
  "snd (handleClipboard e (daemon_hooks cb) i m (s, a)) = a \<or>
   (\<exists>c f. MsgToContent m = Some c \<and> snd (handleClipboard e (daemon_hooks cb) i m (s, a)) = cb c f a)"
  by (auto simp: handleClipboard_def claim_key_def run_remote_hook_def daemon_hooks_def Let_def
      split: option.split)

lemma handleHello_world: "snd (handleHello e (daemon_hooks cb) i r (s, a)) = a"
  by (auto simp: handleHello_def accept_hello_def run_connect_hook_def daemon_hooks_def Let_def
      split: read_result.split option.split)

lemma handleMessage_world:
  "snd (handleMessage e (daemon_hooks cb) i (Frame txt) (s, a)) = a \<or>
   (\<exists>c f. frame_content txt = Some c \<and>
     snd (handleMessage e (daemon_hooks cb) i (Frame txt) (s, a)) = cb c f a)"
proof (cases "unmarshal_envelope txt")
  case (Some env)
  show ?thesis
  proof (cases "unmarshal_clipboard (env_Data env)")
    case (Some m)
    with \<open>unmarshal_envelope txt = Some env\<close> show ?thesis
      using handleClipboard_world [of e cb i m s a]
      by (auto simp: handleMessage_def frame_content_def Let_def)
  qed (use Some in \<open>simp add: handleMessage_def Let_def\<close>)
qed (simp add: handleMessage_def Let_def)

lemma handleMessage_error_world: "snd (handleMessage e hk i ReadError (s, a)) = a"
  by (simp add: handleMessage_def)

lemma net_world:
  "snd (server_step (daemon_hooks cb) x (s, a)) = a \<or>
   (\<exists>c f. net_content x = Some c \<and> snd (server_step (daemon_hooks cb) x (s, a)) = cb c f a)"
proof (cases x)
  case (Read e i r)
  show ?thesis
  proof (cases "client_ready i s")
    case (Some b)
    then show ?thesis
      using Read handleMessage_world [of e cb i _ s a] handleMessage_error_world [of e "daemon_hooks cb" i s a]
      by (cases b; cases r) (auto simp: handleHello_world)
  qed (simp add: Read)
qed simp_all

lemma push_world:
  "readLoop_msg (Some f) txt a = a \<or> (\<exists>c from. frame_content txt = Some c \<and> readLoop_msg (Some f) txt a = f c from a)"
  by (auto simp: readLoop_msg_def frame_content_def split: option.split)

section \<open>Nothing of its own is announced\<close>

context clip_interface
begin

definition app_ok :: "bool \<Rightarrow> watcher option \<times> 'w \<Rightarrow> bool" where
  "app_ok noWatch a \<longleftrightarrow> quiet_state a \<and> (noWatch \<longrightarrow> fst a = None)"

definition writable_event :: "'w app_event \<Rightarrow> bool" where
  "writable_event x \<longleftrightarrow>
     \<not> is_desktop x \<and> (case event_content x of None \<Rightarrow> True | Some c \<Rightarrow> writable c)"

lemma writeRemote_none: "fst (writeRemote wr c from a) = None \<longleftrightarrow> fst a = None"
  by (cases a) (auto simp: writeRemote_def split: option.splits prod.splits)

lemma app_ok_step:
  assumes "app_ok noWatch a" and "writable_event x"
  shows "app_ok noWatch (snd (app_step rd wr noWatch x (s, a)))"
proof (cases x)
  case (Net y)
  have "app_ok noWatch (remote_callback wr noWatch c f a)" if "writable c" for c f
    using assms(1) that quiet_remote_callback [of a c noWatch f] writeRemote_none [of c f a]
    by (auto simp: app_ok_def remote_callback_def)
  then show ?thesis
    using assms Net net_world [of "remote_callback wr noWatch" y s a]
    by (auto simp: writable_event_def split: option.splits)
next
  case (PeerPush y)
  have "app_ok noWatch (writeRemote wr c f a)" if "writable c" for c f
    using assms(1) that quiet_writeRemote [of a c f] writeRemote_none [of c f a]
    by (simp add: app_ok_def)
  then show ?thesis
    using assms PeerPush push_world [of "writeRemote wr" y a]
    by (auto simp: writable_event_def split: option.splits)
next
  case (Tick e)
  then show ?thesis
    using assms quiet_tick [of a e s] by (simp add: app_ok_def)
next
  case (Desktop w')
  then show ?thesis
    using assms by (simp add: writable_event_def is_desktop_def)
qed

lemma ticks_invisible:
  assumes "app_ok noWatch (snd st)" and "list_all writable_event es"
  shows "app_run rd wr noWatch es st = app_run rd wr noWatch (filter (\<lambda>x. \<not> is_tick x) es) st"
  using assms
proof (induction es arbitrary: st)
  case (Cons x es)
  obtain s a where st: "st = (s, a)" by (cases st)
  have ok: "app_ok noWatch (snd (app_step rd wr noWatch x st))"
    using app_ok_step [of noWatch a x s] Cons.prems st by simp
  show ?case
  proof (cases "is_tick x")
    case True
    then obtain e where "x = Tick e" by (auto simp: is_tick_def split: app_event.splits)
    then have "app_step rd wr noWatch x st = st"
      using quiet_tick [of a e s] Cons.prems(1) st by (simp add: app_ok_def)
    then show ?thesis
      using Cons ok True by (simp add: app_run_def)
  next
    case False
    then show ?thesis
      using Cons.IH [OF ok] Cons.prems(2) by (simp add: app_run_def)
  qed
qed (simp add: app_run_def)

lemma app_ok_start: "app_ok noWatch (snd (app_start rd e cfg v noWatch nt w))"
  using quiet_start [of e cfg v noWatch nt w] by (simp add: app_ok_def app_start_eq)

end


lemma frame_content_clipboard_frame [simp]:
  "sendable c \<Longrightarrow> in_int64 ts \<Longrightarrow> frame_content (Some (clipboard_frame c ts from)) = Some (received c)"
  using unmarshal_ContentMsg [of c ts "from"]
  by (simp add: frame_content_def del: unmarshal_marshal_clipboard)

lemma writable_ex [simp]: "wl_writable (\<lambda>_. True) (received ex_content)"
  by (simp add: wl_writable_def received_def ex_content_def sendable_def valid_utf8_ascii byte_in_def)

definition ex_app :: "server \<times> watcher option \<times> selection" where
  "ex_app = app_start (linux_Read store_tools WaylandBackend) ex_env ex_config ''1'' False Started []"


section \<open>From one desktop to another\<close>

lemma readLoop_frame:
  "sendable c \<Longrightarrow> in_int64 ts \<Longrightarrow>
   readLoop_msg (Some f) (Some (clipboard_frame c ts from)) w = f (received c) (to_valid_utf8 from) w"
  using unmarshal_ContentMsg [of c ts "from"]
  by (auto simp: readLoop_msg_def bind_eq_Some_conv)



end
