(* ===== verification/EndToEnd.thy ===== *)
theory EndToEnd
  imports Delivery App
begin

text \<open>
  The parts together: several daemons, each with its watcher on its own clipboard, its server
  and its peers. A check of one watcher finds a copied content, its server broadcasts it, the
  other servers relay it and write it through their watchers, and no watcher takes what was
  written for a change.
\<close>

text \<open>A check of daemon \<open>a\<close>; what its server writes to peers is in flight.\<close>

definition network_tick ::
    "'w read_fn \<Rightarrow> routes \<Rightarrow> env \<Rightarrow> nat \<Rightarrow> (watcher option \<times> 'w) network \<Rightarrow> (watcher option \<times> 'w) network" where
  "network_tick rd route e a st =
     (let s = nt_server st a;
          r = app_tick rd e (s, nt_world st a);
          new = drop (length (sv_out s)) (sv_out (fst r))
      in st\<lparr>nt_server := (nt_server st)(a := fst r), nt_world := (nt_world st)(a := snd r),
            nt_flight := nt_flight st @ forward route a (peer_sends new)\<rparr>)"

lemma network_tick_announce:
  assumes "nt_world st a = (Some wt, w)" and "check rd w wt = (Some c, wt')"
  shows "network_tick rd route e a st =
    announce route e a c (DeviceName (nt_server st a)) (st\<lparr>nt_world := (nt_world st)(a := (Some wt', w))\<rparr>)"
  using assms by (simp add: network_tick_def announce_def app_tick_def Let_def)

lemma links_in_flood: "flood route N c st \<Longrightarrow> a \<in> N \<Longrightarrow> (a, n) \<in> (links route st)\<^sup>+ \<Longrightarrow> n \<in> N"
proof -
  assume fl: "flood route N c st" and a: "a \<in> N" and "(a, n) \<in> (links route st)\<^sup>+"
  from this(3) show ?thesis
    using fl a by induction (fastforce simp: flood_def links_def)+
qed

lemma writeRemote_watched:
  assumes "clip_interface rd wr writable" and "writable c" and "sendable c" and "fst (wr c w) = None"
  shows "\<exists>wt' w' d. writeRemote wr c origin (Some wt, w) = (Some wt', w') \<and> rd w' = Inr d
    \<and> hashContent d = hashContent c \<and> fst (check rd w' wt') = None"
proof -
  obtain w' where w': "wr c w = (None, w')"
    using assms(4) by (cases "wr c w") auto
  have "writeRemote wr c origin (Some wt, w) = (Some (fst (LocalWrite wr c (wt, w))), w')"
    using w' assms(3) by (auto simp: writeRemote_def LocalWrite_def sendable_def split: kind.splits)
  then show ?thesis
    using clip_interface.read_back [OF assms(1,2) w'] clip_interface.LocalWrite_quiet [OF assms(1,2) w', of wt] by auto
qed


text \<open>Two desktops that have dialed each other; on the first something has just been copied.\<close>

definition ex_desktops :: "(watcher option \<times> selection) network" where
  "ex_desktops =
     \<lparr>nt_server = (\<lambda>_. ex_server\<lparr>sv_peers := [(0, True)]\<rparr>),
      nt_world = (\<lambda>n. (Some (NewWatcher 300 True), if n = 0 then [(''text/plain'', bytes_of ''hi'')] else [])),
      nt_flight = []\<rparr>"

lemma wl_write_hi: "linux_Write store_tools WaylandBackend (text_content ''hi'') w = (None, [(''text/plain'', bytes_of ''hi'')])"
  by (simp add: linux_Write_def runStdin_def store_tools_def store_ok_def)

lemma ex_hi: "received (text_content ''hi'') = text_content ''hi''" "sendable (text_content ''hi'')"
    "hashContent (text_content ''hi'') \<noteq> 0"
proof -
  have "stable (text_content ''hi'')"
    by (rule stable_ascii) (simp_all add: byte_in_def)
  then show "received (text_content ''hi'') = text_content ''hi''" "sendable (text_content ''hi'')"
    by (simp_all add: stable_def)
  show "hashContent (text_content ''hi'') \<noteq> 0"
    by code_simp
qed


end
