(* ===== verification/Log.thy ===== *)
theory Log
  imports Config
begin

text \<open>
  \<open>internal/log/log.go\<close>: the level of the logger, what it lets through, and how the level
  is read from the configuration. The lemmas: a loaded configuration always has a level that
  parses, and which one it is.
\<close>

section \<open>Levels\<close>

datatype level = LevelDebug | LevelInfo | LevelWarn | LevelError

fun level_num :: "level \<Rightarrow> nat" where
  "level_num LevelDebug = 0"
| "level_num LevelInfo = 1"
| "level_num LevelWarn = 2"
| "level_num LevelError = 3"

lemma level_num_inject: "level_num a = level_num b \<Longrightarrow> a = b"
  by (cases a; cases b) simp_all

text \<open>Levels compare as the Go integers they are.\<close>

instantiation level :: linorder
begin

definition less_eq_level :: "level \<Rightarrow> level \<Rightarrow> bool" where
  "less_eq_level a b \<longleftrightarrow> level_num a \<le> level_num b"

definition less_level :: "level \<Rightarrow> level \<Rightarrow> bool" where
  "less_level a b \<longleftrightarrow> level_num a < level_num b"

instance
  by standard (auto simp: less_eq_level_def less_level_def dest: level_num_inject)

end

section \<open>Parsing\<close>

text \<open>
  \<open>strings.ToLower\<close> on the strings that can become a level name: ASCII letters, and the two
  runes outside ASCII whose lower case is an ASCII letter (U+0130 and U+212A).
\<close>

definition lower_char :: "char \<Rightarrow> char" where
  "lower_char c =
     (let n = of_char c :: nat in if 65 \<le> n \<and> n \<le> 90 then char_of (n + 32) else c)"

fun ToLower :: "string \<Rightarrow> string" where
  "ToLower [] = []"
| "ToLower (a # s) =
     (case s of
        b # t \<Rightarrow>
          if a = CHR 0xC4 \<and> b = CHR 0xB0 then CHR ''i'' # ToLower t
          else
            (case t of
               c # u \<Rightarrow>
                 if a = CHR 0xE2 \<and> b = CHR 0x84 \<and> c = CHR 0xAA then CHR ''k'' # ToLower u
                 else lower_char a # ToLower s
             | [] \<Rightarrow> lower_char a # ToLower s)
      | [] \<Rightarrow> [lower_char a])"

text \<open>With an unknown name the level is info and there is an error (\<open>False\<close>).\<close>

definition ParseLevel :: "string \<Rightarrow> level \<times> bool" where
  "ParseLevel s =
     (let v = ToLower (TrimSpace s) in
      if v = [] \<or> v = ''info'' then (LevelInfo, True)
      else if v = ''debug'' then (LevelDebug, True)
      else if v = ''warn'' \<or> v = ''warning'' then (LevelWarn, True)
      else if v = ''error'' then (LevelError, True)
      else (LevelInfo, False))"

section \<open>The logger\<close>

text \<open>Where it writes (\<open>None\<close> is stderr), its threshold, and what has been written.\<close>

record logger =
  lg_file :: "string option"
  lg_current :: level
  lg_lines :: "(string option \<times> string) list"

definition Setup :: "(string \<Rightarrow> bool) \<Rightarrow> level \<Rightarrow> string \<Rightarrow> logger \<Rightarrow> bool \<times> logger" where
  "Setup can_open lv path lg =
     (if path \<noteq> [] \<and> \<not> can_open path then (False, lg)
      else (True, lg\<lparr>lg_file := (if path = [] then None else Some path), lg_current := lv\<rparr>))"

text \<open>\<open>Debugf\<close>, \<open>Infof\<close>, \<open>Warnf\<close>, \<open>Errorf\<close>, with their level and the formatted line.\<close>

definition log_at :: "level \<Rightarrow> string \<Rightarrow> logger \<Rightarrow> logger" where
  "log_at lv msg lg =
     (if lg_current lg > lv then lg else lg\<lparr>lg_lines := lg_lines lg @ [(lg_file lg, msg)]\<rparr>)"

definition Debugf :: "string \<Rightarrow> logger \<Rightarrow> logger" where "Debugf = log_at LevelDebug"
definition Infof :: "string \<Rightarrow> logger \<Rightarrow> logger" where "Infof = log_at LevelInfo"
definition Warnf :: "string \<Rightarrow> logger \<Rightarrow> logger" where "Warnf = log_at LevelWarn"
definition Errorf :: "string \<Rightarrow> logger \<Rightarrow> logger" where "Errorf = log_at LevelError"

lemma log_at_monotone:
  "lv \<le> lv' \<Longrightarrow> lg_lines (log_at lv msg lg) \<noteq> lg_lines lg \<Longrightarrow>
   lg_lines (log_at lv' msg lg) \<noteq> lg_lines lg"
  by (auto simp: log_at_def split: if_splits)

section \<open>The level of a loaded configuration\<close>

lemma ParseLevel_names:
  "ParseLevel [] = (LevelInfo, True)" "ParseLevel ''info'' = (LevelInfo, True)"
  "ParseLevel ''debug'' = (LevelDebug, True)" "ParseLevel ''warn'' = (LevelWarn, True)"
  "ParseLevel ''warning'' = (LevelWarn, True)" "ParseLevel ''error'' = (LevelError, True)"
  by code_simp+

lemma ParseLevel_normalized: "snd (ParseLevel (normalizeLogLevel v))"
  by (auto simp: normalizeLogLevel_def ParseLevel_names)

text \<open>Starting a command never fails for its log level: whatever the file says, the level of a
  loaded configuration parses.\<close>

lemma loaded_level_parses:
  assumes "Load env decode = Inr cfg"
  shows "snd (ParseLevel (log_Level (cfg_Log cfg)))"
proof -
  have "log_Level (cfg_Log cfg) \<in> set log_levels"
    using assms config_ok_normalize
    by (auto simp: Load_def Let_def config_ok_def split: decode_result.splits)
  then show ?thesis
    by (auto simp: log_levels_def ParseLevel_names)
qed

lemma loaded_level_parses_example:
  "snd (ParseLevel (log_Level (cfg_Log (normalize []
     (Default sample_env\<lparr>cfg_Log := \<lparr>log_Level = ''loud'', log_File = []\<rparr>\<rparr>)))))"
  by (rule loaded_level_parses [of sample_env
        "\<lambda>_ c. Decoded (c\<lparr>cfg_Log := \<lparr>log_Level = ''loud'', log_File = []\<rparr>\<rparr>) []"])
    (simp add: Load_def Let_def)

text \<open>The level names the parser takes in any case are lost before they reach it: loading a
  file with level \<open>DEBUG\<close>, which \<open>ParseLevel\<close> reads as debug, gives info.\<close>

lemma upper_case_level_lost:
  "ParseLevel ''DEBUG'' = (LevelDebug, True) \<and>
   ParseLevel (normalizeLogLevel ''DEBUG'') = (LevelInfo, True)"
proof
  show "ParseLevel ''DEBUG'' = (LevelDebug, True)"
    by code_simp
qed (simp add: normalizeLogLevel_def ParseLevel_names)

end
