(* ===== verification/Disk.thy ===== *)
theory Disk
  imports Prelude
begin

text \<open>
  What the program uses of \<open>os\<close>: a file system is a map from paths to files with their mode,
  and a record says which directories can be made and which files opened. Used by the
  certificates and by the writer of the configuration.
\<close>

section \<open>Files\<close>

record disk_file =
  f_data :: bytes
  f_mode :: nat

type_synonym files = "string \<rightharpoonup> disk_file"

definition mode_0644 :: nat where "mode_0644 = 6 * 64 + 4 * 8 + 4"
definition mode_0600 :: nat where "mode_0600 = 6 * 64"

text \<open>What the disk allows: which directories can be made, which paths can be opened to write.\<close>

record disk =
  d_mkdir_ok :: "string \<Rightarrow> bool"
  d_open_ok :: "string \<Rightarrow> bool"

definition read_file :: "files \<Rightarrow> string \<Rightarrow> string + bytes" where
  "read_file fs p = (case fs p of None \<Rightarrow> Inl ''no such file'' | Some f \<Rightarrow> Inr (f_data f))"

text \<open>Opening with \<open>O_CREATE|O_TRUNC\<close> uses the mode for a new file only.\<close>

definition write_file :: "disk \<Rightarrow> string \<Rightarrow> bytes \<Rightarrow> nat \<Rightarrow> files \<Rightarrow> string option \<times> files" where
  "write_file d p bs mode fs =
     (if d_open_ok d p then
        (None, fs(p \<mapsto> \<lparr>f_data = bs, f_mode = (case fs p of None \<Rightarrow> mode | Some f \<Rightarrow> f_mode f)\<rparr>))
      else (Some ''open failed'', fs))"

lemma read_write_file:
  "write_file d p bs mode fs = (None, fs') \<Longrightarrow> read_file fs' q = (if q = p then Inr bs else read_file fs q)"
  by (auto simp: write_file_def read_file_def split: if_splits)

lemma write_file_ok:
  "d_open_ok d p \<Longrightarrow> fs p = None \<Longrightarrow>
   write_file d p bs mode fs = (None, fs(p \<mapsto> \<lparr>f_data = bs, f_mode = mode\<rparr>))"
  by (simp add: write_file_def)

end
