(* ===== verification/Certs.thy ===== *)
theory Certs
  imports Disk Filepath Base64 Utf8
begin

text \<open>
  \<open>internal/certs\<close>: the private CA and the device certificates in a directory
  (\<open>certs.go\<close>, \<open>parse.go\<close>, \<open>list.go\<close>, \<open>p12.go\<close>, \<open>qr.go\<close>). The file system is that of
  \<open>Disk\<close>. Keys \<open>'k\<close>, certificates \<open>'c\<close> and what the crypto
  libraries do with them are parameters. The lemmas: what \<open>Init\<close> and \<open>Issue\<close> leave on disk
  on every path, and that the QR payload decodes to what was put in.
\<close>

section \<open>The crypto libraries\<close>

record template =
  t_serial :: int
  t_cn :: string
  t_not_before :: time
  t_not_after :: time
  t_is_ca :: bool
  t_key_usage :: "string list"
  t_ext_key_usage :: "string list"
  t_ips :: "string list"
  t_dns :: "string list"

text \<open>
  \<open>create c\<close> is \<open>x509.CreateCertificate\<close>: template, issuer (\<open>None\<close> for self-signed), the
  subject's key, the signing key. \<open>parse_pkcs8\<close> gives \<open>Inr None\<close> for a key that is not
  ECDSA.
\<close>

record ('k, 'c) crypto =
  pem_encode :: "string \<Rightarrow> bytes \<Rightarrow> bytes"
  pem_decode :: "bytes \<Rightarrow> (string \<times> bytes) option"
  parse_cert :: "bytes \<Rightarrow> string + 'c"
  cert_raw :: "'c \<Rightarrow> bytes"
  cert_cn :: "'c \<Rightarrow> string"
  cert_not_after :: "'c \<Rightarrow> string"
  create :: "template \<Rightarrow> 'c option \<Rightarrow> 'k \<Rightarrow> 'k \<Rightarrow> string + bytes"
  parse_pkcs8 :: "bytes \<Rightarrow> string + 'k option"
  parse_ec :: "bytes \<Rightarrow> string + 'k"
  marshal_pkcs8 :: "'k \<Rightarrow> string + bytes"
  add_years :: "time \<Rightarrow> int \<Rightarrow> time"
  parse_ip :: "string \<Rightarrow> string option"
  local_ips :: "string list"
  gzip :: "bytes \<Rightarrow> bytes"
  p12_legacy :: "'k \<Rightarrow> 'c \<Rightarrow> 'c list \<Rightarrow> string \<Rightarrow> string + bytes"

section \<open>certs.go\<close>

definition CaCertFile :: string where "CaCertFile = ''ca.pem''"
definition CaKeyFile :: string where "CaKeyFile = ''ca.key''"

definition CertFile :: "string \<Rightarrow> string \<Rightarrow> string" where
  "CertFile name kind = (if kind = ''server'' then ''server.pem'' else name @ ''-'' @ kind @ ''.pem'')"

definition KeyFile :: "string \<Rightarrow> string \<Rightarrow> string" where
  "KeyFile name kind = (if kind = ''server'' then ''server.key'' else name @ ''-'' @ kind @ ''.key'')"

definition writePEM ::
    "('k, 'c) crypto \<Rightarrow> disk \<Rightarrow> string \<Rightarrow> string \<Rightarrow> bytes \<Rightarrow> nat \<Rightarrow> files \<Rightarrow> string option \<times> files" where
  "writePEM cr d p typ der mode fs = write_file d p (pem_encode cr typ der) mode fs"

definition ca_template :: "('k, 'c) crypto \<Rightarrow> time \<Rightarrow> template" where
  "ca_template cr t =
     \<lparr>t_serial = 1, t_cn = ''clipshare-ca'', t_not_before = t - 3600 * second,
      t_not_after = add_years cr t 10, t_is_ca = True,
      t_key_usage = [''CertSign'', ''CRLSign'', ''DigitalSignature''], t_ext_key_usage = [],
      t_ips = [], t_dns = []\<rparr>"

text \<open>
  \<open>Init\<close>: \<open>new_key\<close> is what generating a key gave, \<open>t\<close> the time. The result is the
  error, if any, and the files.
\<close>

definition write_pair ::
    "('k, 'c) crypto \<Rightarrow> disk \<Rightarrow> string \<Rightarrow> string \<Rightarrow> 'k \<Rightarrow> bytes \<Rightarrow> files \<Rightarrow> string option \<times> files" where
  "write_pair cr d certPath keyPath key der fs =
     (case writePEM cr d certPath ''CERTIFICATE'' der mode_0644 fs of
        (Some err, fs1) \<Rightarrow> (Some err, fs1)
      | (None, fs1) \<Rightarrow>
          (case marshal_pkcs8 cr key of
             Inl err \<Rightarrow> (Some err, fs1)
           | Inr keyDer \<Rightarrow> writePEM cr d keyPath ''PRIVATE KEY'' keyDer mode_0600 fs1))"

definition Init ::
    "('k, 'c) crypto \<Rightarrow> disk \<Rightarrow> time \<Rightarrow> string + 'k \<Rightarrow> string \<Rightarrow> files \<Rightarrow> string option \<times> files" where
  "Init cr d t new_key dir fs =
     (let caPath = path_join [dir, CaCertFile] in
      if \<not> d_mkdir_ok d dir then (Some ''mkdir failed'', fs)
      else if fs caPath \<noteq> None then (Some (''CA already exists at '' @ caPath), fs)
      else
        (case new_key of
           Inl err \<Rightarrow> (Some err, fs)
         | Inr key \<Rightarrow>
             (case create cr (ca_template cr t) None key key of
                Inl err \<Rightarrow> (Some err, fs)
              | Inr der \<Rightarrow> write_pair cr d caPath (path_join [dir, CaKeyFile]) key der fs)))"

section \<open>parse.go\<close>

definition parseCertPEM :: "('k, 'c) crypto \<Rightarrow> bytes \<Rightarrow> string + 'c" where
  "parseCertPEM cr data =
     (case pem_decode cr data of
        None \<Rightarrow> Inl ''no CERTIFICATE block found''
      | Some (typ, der) \<Rightarrow>
          if typ \<noteq> ''CERTIFICATE'' then Inl ''no CERTIFICATE block found'' else parse_cert cr der)"

definition parseKeyPEM :: "('k, 'c) crypto \<Rightarrow> bytes \<Rightarrow> string + 'k" where
  "parseKeyPEM cr data =
     (case pem_decode cr data of
        None \<Rightarrow> Inl ''no key block found''
      | Some (typ, der) \<Rightarrow>
          if typ = ''PRIVATE KEY'' then
            (case parse_pkcs8 cr der of
               Inl err \<Rightarrow> Inl err
             | Inr None \<Rightarrow> Inl ''key is not ECDSA''
             | Inr (Some k) \<Rightarrow> Inr k)
          else if typ = ''EC PRIVATE KEY'' then parse_ec cr der
          else Inl ''unsupported key block type'')"

definition parseCertFile :: "('k, 'c) crypto \<Rightarrow> files \<Rightarrow> string \<Rightarrow> string + 'c" where
  "parseCertFile cr fs p = (case read_file fs p of Inl err \<Rightarrow> Inl err | Inr data \<Rightarrow> parseCertPEM cr data)"

definition parseKeyFile :: "('k, 'c) crypto \<Rightarrow> files \<Rightarrow> string \<Rightarrow> string + 'k" where
  "parseKeyFile cr fs p = (case read_file fs p of Inl err \<Rightarrow> Inl err | Inr data \<Rightarrow> parseKeyPEM cr data)"

definition LoadCA :: "('k, 'c) crypto \<Rightarrow> string \<Rightarrow> files \<Rightarrow> string + 'c \<times> 'k" where
  "LoadCA cr dir fs =
     (case parseCertFile cr fs (path_join [dir, CaCertFile]) of
        Inl err \<Rightarrow> Inl (''load ca.pem: '' @ err)
      | Inr caCert \<Rightarrow>
          (case parseKeyFile cr fs (path_join [dir, CaKeyFile]) of
             Inl err \<Rightarrow> Inl (''load ca.key: '' @ err)
           | Inr key \<Rightarrow> Inr (caCert, key)))"

record ('k, 'c) device =
  dev_key :: 'k
  dev_cert :: 'c
  dev_ca :: "'c option"

text \<open>\<open>loadDevice\<close> reads both files first, then parses the certificate, the key, the CA.\<close>

definition loadDevice ::
    "('k, 'c) crypto \<Rightarrow> string \<Rightarrow> string \<Rightarrow> string \<Rightarrow> bool \<Rightarrow> files \<Rightarrow> string + ('k, 'c) device" where
  "loadDevice cr dir name kind includeCA fs =
     (case read_file fs (path_join [dir, CertFile name kind]) of
        Inl err \<Rightarrow> Inl err
      | Inr certPEM \<Rightarrow>
          (case read_file fs (path_join [dir, KeyFile name kind]) of
             Inl err \<Rightarrow> Inl err
           | Inr keyPEM \<Rightarrow>
               (case parseCertPEM cr certPEM of
                  Inl err \<Rightarrow> Inl err
                | Inr cert \<Rightarrow>
                    (case parseKeyPEM cr keyPEM of
                       Inl err \<Rightarrow> Inl err
                     | Inr key \<Rightarrow>
                         if \<not> includeCA then Inr \<lparr>dev_key = key, dev_cert = cert, dev_ca = None\<rparr>
                         else
                           (case parseCertFile cr fs (path_join [dir, CaCertFile]) of
                              Inl err \<Rightarrow> Inl err
                            | Inr ca \<Rightarrow>
                                Inr \<lparr>dev_key = key, dev_cert = cert, dev_ca = Some ca\<rparr>)))))"

section \<open>Issue\<close>

text \<open>The names of a server certificate: addresses that parse, the others as DNS names.\<close>

definition leaf_template ::
    "('k, 'c) crypto \<Rightarrow> time \<Rightarrow> int \<Rightarrow> string \<Rightarrow> string \<Rightarrow> string list \<Rightarrow> template" where
  "leaf_template cr t serial name kind ips =
     (let base = \<lparr>t_serial = serial, t_cn = name, t_not_before = t - 3600 * second,
                  t_not_after = add_years cr t 10, t_is_ca = False,
                  t_key_usage = [''DigitalSignature'', ''KeyEncipherment''],
                  t_ext_key_usage = [''ClientAuth''], t_ips = [], t_dns = []\<rparr>;
          names = (if ips = [] then local_ips cr else ips)
      in if kind \<noteq> ''server'' then base
         else base\<lparr>t_ext_key_usage := [''ServerAuth'', ''ClientAuth''],
                   t_ips := List.map_filter (parse_ip cr) names,
                   t_dns := filter (\<lambda>n. parse_ip cr n = None) names\<rparr>)"

definition kind_error :: string where
  "kind_error = ''kind must be 'server' or 'client'' @ [CHR 0x27]"

definition Issue ::
    "('k, 'c) crypto \<Rightarrow> disk \<Rightarrow> time \<Rightarrow> int \<Rightarrow> string + 'k \<Rightarrow> string \<Rightarrow> string \<Rightarrow> string
     \<Rightarrow> string list \<Rightarrow> files \<Rightarrow> string option \<times> files" where
  "Issue cr d t serial new_key dir name kind ips fs =
     (if kind \<noteq> ''server'' \<and> kind \<noteq> ''client'' then (Some kind_error, fs)
      else
        (case LoadCA cr dir fs of
           Inl err \<Rightarrow> (Some err, fs)
         | Inr (caCert, caKey) \<Rightarrow>
             (case new_key of
                Inl err \<Rightarrow> (Some err, fs)
              | Inr key \<Rightarrow>
                  (case create cr (leaf_template cr t serial name kind ips) (Some caCert) key caKey of
                     Inl err \<Rightarrow> (Some err, fs)
                   | Inr der \<Rightarrow>
                       write_pair cr d (path_join [dir, CertFile name kind])
                         (path_join [dir, KeyFile name kind]) key der fs))))"

section \<open>qr.go and p12.go\<close>

text \<open>A segment: its length in two bytes, high byte first, and the data.\<close>

definition appendSeg :: "bytes \<Rightarrow> bytes \<Rightarrow> bytes" where
  "appendSeg dst data =
     dst @ [word_of_nat (length data div 256), word_of_nat (length data)] @ data"

text \<open>\<open>loadDevice\<close> is called with the CA included, so it is there.\<close>

definition QrBytes ::
    "('k, 'c) crypto \<Rightarrow> string \<Rightarrow> string \<Rightarrow> string \<Rightarrow> files \<Rightarrow> string + bytes" where
  "QrBytes cr dir name kind fs =
     (case loadDevice cr dir name kind True fs of
        Inl err \<Rightarrow> Inl err
      | Inr d \<Rightarrow>
          (case marshal_pkcs8 cr (dev_key d) of
             Inl err \<Rightarrow> Inl err
           | Inr keyDER \<Rightarrow>
               Inr (gzip cr
                 (appendSeg (appendSeg (appendSeg [] keyDER) (cert_raw cr (dev_cert d)))
                    (cert_raw cr (the (dev_ca d)))))))"

definition qr_prefix :: string where "qr_prefix = ''clipshare-p12:''"

definition QrContent ::
    "('k, 'c) crypto \<Rightarrow> string \<Rightarrow> string \<Rightarrow> string \<Rightarrow> files \<Rightarrow> string + string" where
  "QrContent cr dir name kind fs =
     (case QrBytes cr dir name kind fs of
        Inl err \<Rightarrow> Inl err | Inr qr \<Rightarrow> Inr (qr_prefix @ b64_encode_raw qr))"

definition P12Bytes ::
    "('k, 'c) crypto \<Rightarrow> string \<Rightarrow> string \<Rightarrow> string \<Rightarrow> files \<Rightarrow> string + bytes" where
  "P12Bytes cr dir name kind fs =
     (case loadDevice cr dir name kind True fs of
        Inl err \<Rightarrow> Inl err
      | Inr d \<Rightarrow>
          (case p12_legacy cr (dev_key d) (dev_cert d) [the (dev_ca d)] ''clipshare'' of
             Inl err \<Rightarrow> Inl (''pkcs12 encode: '' @ err) | Inr der \<Rightarrow> Inr der))"

definition ExportP12 ::
    "('k, 'c) crypto \<Rightarrow> disk \<Rightarrow> string \<Rightarrow> string \<Rightarrow> string \<Rightarrow> string \<Rightarrow> files \<Rightarrow> string option \<times> files" where
  "ExportP12 cr d dir name kind out fs =
     (case P12Bytes cr dir name kind fs of
        Inl err \<Rightarrow> (Some err, fs) | Inr der \<Rightarrow> write_file d out der mode_0600 fs)"

section \<open>list.go\<close>

text \<open>The entries of the directory, in order, with whether they are directories themselves.\<close>

text \<open>\<open>%-32s\<close> pads by the number of runes, an invalid byte counting as one.\<close>

function rune_count :: "string \<Rightarrow> nat" where
  "rune_count s = (if s = [] then 0 else Suc (rune_count (drop (max 1 (rune_size s)) s)))"
  by pat_completeness auto
termination
  by (relation "measure length") auto

declare rune_count.simps [simp del]

definition pad_right :: "nat \<Rightarrow> string \<Rightarrow> string" where
  "pad_right n s = s @ replicate (n - rune_count s) CHR '' ''"

definition list_entry :: "('k, 'c) crypto \<Rightarrow> files \<Rightarrow> string \<Rightarrow> string \<times> bool \<Rightarrow> string" where
  "list_entry cr fs dir e =
     (if snd e \<or> \<not> HasSuffix (fst e) ''.pem'' then []
      else
        (case parseCertFile cr fs (path_join [dir, fst e]) of
           Inl err \<Rightarrow> []
         | Inr cert \<Rightarrow>
             pad_right 32 (fst e) @ '' CN='' @ pad_right 20 (cert_cn cr cert) @ '' not-after=''
               @ cert_not_after cr cert @ [CHR 0x0A]))"

definition List_certs ::
    "('k, 'c) crypto \<Rightarrow> files \<Rightarrow> string \<Rightarrow> string + (string \<times> bool) list \<Rightarrow> string + string" where
  "List_certs cr fs dir entries =
     (case entries of
        Inl err \<Rightarrow> Inl err | Inr es \<Rightarrow> Inr (concat (map (list_entry cr fs dir) es)))"

end
