(* ===== verification/CertsProps.thy ===== *)
theory CertsProps
  imports Certs
begin

text \<open>
  Properties of the certificate store: what \<open>Init\<close> leaves behind when it succeeds and when it
  fails half-way, that an issued certificate loads back with its key and its CA, and that the QR payload carries the device's identity.
\<close>

section \<open>The crypto libraries\<close>

text \<open>
  What the code relies on: PEM blocks decode to what was encoded, a created certificate parses
  to one with the same DER, and an encoded key parses to itself.
\<close>

definition crypto_laws :: "('k, 'c) crypto \<Rightarrow> bool" where
  "crypto_laws cr \<longleftrightarrow>
     (\<forall>typ der. typ \<in> {''CERTIFICATE'', ''PRIVATE KEY''} \<longrightarrow>
        pem_decode cr (pem_encode cr typ der) = Some (typ, der)) \<and>
     (\<forall>tm iss k sk der. create cr tm iss k sk = Inr der \<longrightarrow>
        (\<exists>c. parse_cert cr der = Inr c \<and> cert_raw cr c = der)) \<and>
     (\<forall>k der. marshal_pkcs8 cr k = Inr der \<longrightarrow> parse_pkcs8 cr der = Inr (Some k))"

lemma crypto_pem:
  "crypto_laws cr \<Longrightarrow> typ = ''CERTIFICATE'' \<or> typ = ''PRIVATE KEY'' \<Longrightarrow>
   pem_decode cr (pem_encode cr typ der) = Some (typ, der)"
  by (auto simp: crypto_laws_def)

lemma crypto_create:
  assumes "crypto_laws cr" and "create cr tm iss k sk = Inr der"
  obtains c where "parse_cert cr der = Inr c" "cert_raw cr c = der"
  using assms unfolding crypto_laws_def by blast

lemma crypto_key: "crypto_laws cr \<Longrightarrow> marshal_pkcs8 cr k = Inr der \<Longrightarrow> parse_pkcs8 cr der = Inr (Some k)"
  by (simp add: crypto_laws_def)

section \<open>Reading back what was written\<close>

text \<open>The two paths of the CA in a directory given by its path elements.\<close>

lemma ca_names [simp]: "plain_name CaCertFile" "plain_name CaKeyFile" "CaCertFile \<noteq> CaKeyFile"
  by (simp_all add: CaCertFile_def CaKeyFile_def plain_name_def slash_def)

lemma ca_paths:
  assumes "es \<noteq> []" and "list_all plain_name es"
  shows "path_join [abs_path es, CaCertFile] \<noteq> path_join [abs_path es, CaKeyFile]"
proof -
  have "abs_path (es @ [CaCertFile]) \<noteq> abs_path (es @ [CaKeyFile])"
    using assms(1) by (simp add: abs_path_def Join_snoc)
  then show ?thesis
    using path_join_abs [OF assms, of "[CaCertFile]"] path_join_abs [OF assms, of "[CaKeyFile]"] by simp
qed

section \<open>Creating the CA\<close>

text \<open>C33: creating the CA in a fresh directory leaves a certificate and a key that load back, the
  key readable by its owner only; doing it again is refused and changes nothing.\<close>

theorem init_creates_ca:
  assumes laws: "crypto_laws cr" and dir: "es \<noteq> []" "list_all plain_name es" "dir = abs_path es"
    and fresh: "fs (path_join [dir, CaCertFile]) = None" "fs (path_join [dir, CaKeyFile]) = None"
    and ok: "d_mkdir_ok d dir" "d_open_ok d (path_join [dir, CaCertFile])"
      "d_open_ok d (path_join [dir, CaKeyFile])"
    and made: "create cr (ca_template cr t) None k k = Inr der" "marshal_pkcs8 cr k = Inr keyDer"
  shows "\<exists>fs' c f. Init cr d t (Inr k) dir fs = (None, fs') \<and> LoadCA cr dir fs' = Inr (c, k) \<and>
    cert_raw cr c = der \<and> fs' (path_join [dir, CaKeyFile]) = Some f \<and> f_mode f = mode_0600 \<and>
    snd (Init cr d t' k' dir fs') = fs' \<and> fst (Init cr d t' k' dir fs') \<noteq> None"
proof -
  let ?p = "path_join [dir, CaCertFile]"
  let ?q = "path_join [dir, CaKeyFile]"
  have ne: "?p \<noteq> ?q"
    using ca_paths [OF dir(1,2)] dir(3) by simp
  let ?fs1 = "fs(?p \<mapsto> \<lparr>f_data = pem_encode cr ''CERTIFICATE'' der, f_mode = mode_0644\<rparr>)"
  let ?fs2 = "?fs1(?q \<mapsto> \<lparr>f_data = pem_encode cr ''PRIVATE KEY'' keyDer, f_mode = mode_0600\<rparr>)"
  have "write_pair cr d ?p ?q k der fs = (None, ?fs2)"
    using fresh ok made ne by (simp add: write_pair_def writePEM_def write_file_ok)
  then have init: "Init cr d t (Inr k) dir fs = (None, ?fs2)"
    using fresh ok made by (simp add: Init_def Let_def)
  obtain c where c: "parse_cert cr der = Inr c" "cert_raw cr c = der"
    using crypto_create [OF laws made(1)] by blast
  have "LoadCA cr dir ?fs2 = Inr (c, k)"
    using ne c crypto_key [OF laws made(2)] crypto_pem [OF laws]
    by (simp add: LoadCA_def parseCertFile_def parseKeyFile_def read_file_def parseCertPEM_def parseKeyPEM_def)
  moreover have "Init cr d t' k' dir ?fs2 = (Some (''CA already exists at '' @ ?p), ?fs2)"
    using ok(1) ne by (simp add: Init_def Let_def)
  ultimately show ?thesis
    using init c(2) by auto
qed

text \<open>A small instance of the libraries: a certificate is its DER, keys are numbers.\<close>

definition toy_crypto :: "(byte, bytes) crypto" where
  "toy_crypto =
     \<lparr>pem_encode = (\<lambda>typ der. (if typ = ''CERTIFICATE'' then 0 else 1) # der),
      pem_decode = (\<lambda>bs. case bs of [] \<Rightarrow> None
        | b # der \<Rightarrow> Some (if b = 0 then ''CERTIFICATE'' else ''PRIVATE KEY'', der)),
      parse_cert = Inr, cert_raw = (\<lambda>c. c), cert_cn = (\<lambda>_. []), cert_not_after = (\<lambda>_. []),
      create = (\<lambda>tm iss k sk. Inr (bytes_of (t_cn tm) @ [k, sk])),
      parse_pkcs8 = (\<lambda>bs. case bs of [k] \<Rightarrow> Inr (Some k) | _ \<Rightarrow> Inl ''bad key''),
      parse_ec = (\<lambda>_. Inl ''no EC key''), marshal_pkcs8 = (\<lambda>k. Inr [k]),
      add_years = (\<lambda>t y. t + y), parse_ip = (\<lambda>_. None), local_ips = [],
      gzip = (\<lambda>bs. bs), p12_legacy = (\<lambda>k c cs pw. Inr [k])\<rparr>"

lemma toy_laws [simp]: "crypto_laws toy_crypto"
  by (auto simp: crypto_laws_def toy_crypto_def)

definition good_disk :: disk where
  "good_disk = \<lparr>d_mkdir_ok = (\<lambda>_. True), d_open_ok = (\<lambda>_. True)\<rparr>"

definition ex_dir :: string where "ex_dir = abs_path [''home'', ''certs'']"

lemma ex_plain [simp]: "plain_name ''home''" "plain_name ''certs''"
  by (simp_all add: plain_name_def slash_def)

lemma ex_dir_plain: "list_all plain_name [''home'', ''certs'']"
  by simp

theorem init_creates_ca_witness:
  "\<exists>fs' c. Init toy_crypto good_disk 0 (Inr 7) ex_dir Map.empty = (None, fs') \<and>
     LoadCA toy_crypto ex_dir fs' = Inr (c, 7)"
proof -
  have "create toy_crypto (ca_template toy_crypto 0) None 7 7 =
      Inr (bytes_of ''clipshare-ca'' @ [7, 7])" and "marshal_pkcs8 toy_crypto 7 = Inr [7]"
    by (simp_all add: toy_crypto_def ca_template_def)
  from init_creates_ca [OF toy_laws _ ex_dir_plain ex_dir_def _ _ _ _ _ this,
      of Map.empty good_disk 0 "Inr 7"]
  show ?thesis
    by (auto simp: good_disk_def)
qed

section \<open>Issuing\<close>

lemma join_plain_inject:
  assumes "es \<noteq> []" "list_all plain_name es" "plain_name x" "plain_name y"
  shows "path_join [abs_path es, x] = path_join [abs_path es, y] \<longleftrightarrow> x = y"
proof -
  have "path_join [abs_path es, x] = abs_path (es @ [x])" "path_join [abs_path es, y] = abs_path (es @ [y])"
    using path_join_abs [OF assms(1,2), of "[x]"] path_join_abs [OF assms(1,2), of "[y]"] assms(3,4) by simp_all
  then show ?thesis
    using assms(1) by (simp add: abs_path_def Join_snoc)
qed

text \<open>The names of the files of a device: proper, and none of them a file of the CA.\<close>

lemma device_names:
  assumes "slash \<notin> set name" and "kind = ''server'' \<or> kind = ''client''"
  shows "plain_name (CertFile name kind)" "plain_name (KeyFile name kind)"
    "CertFile name kind \<noteq> KeyFile name kind"
    "CertFile name kind \<noteq> CaCertFile" "CertFile name kind \<noteq> CaKeyFile"
    "KeyFile name kind \<noteq> CaCertFile" "KeyFile name kind \<noteq> CaKeyFile"
proof -
  have len: "length (name @ s) \<noteq> length t" if "length t < length s" for s t :: string
    using that by simp
  show "plain_name (CertFile name kind)" "plain_name (KeyFile name kind)"
    using assms len [of "''.''" "''-client.pem''"] len [of "''..''" "''-client.pem''"]
      len [of "''.''" "''-client.key''"] len [of "''..''" "''-client.key''"]
    by (auto simp: CertFile_def KeyFile_def plain_name_def slash_def)
  show "CertFile name kind \<noteq> KeyFile name kind"
    using assms(2) by (auto simp: CertFile_def KeyFile_def)
  show "CertFile name kind \<noteq> CaCertFile" "CertFile name kind \<noteq> CaKeyFile"
    "KeyFile name kind \<noteq> CaCertFile" "KeyFile name kind \<noteq> CaKeyFile"
    using assms(2) len [of CaCertFile "''-client.pem''"] len [of CaKeyFile "''-client.pem''"]
      len [of CaCertFile "''-client.key''"] len [of CaKeyFile "''-client.key''"]
    by (auto simp: CertFile_def KeyFile_def CaCertFile_def CaKeyFile_def)
qed

text \<open>What \<open>writeCertKey\<close> leaves, on two paths that can be opened.\<close>

lemma write_pair_ok:
  assumes "d_open_ok d p" "d_open_ok d q" "p \<noteq> q" "marshal_pkcs8 cr k = Inr keyDer"
  shows "\<exists>fs'. write_pair cr d p q k der fs = (None, fs')
    \<and> read_file fs' p = Inr (pem_encode cr ''CERTIFICATE'' der)
    \<and> read_file fs' q = Inr (pem_encode cr ''PRIVATE KEY'' keyDer)
    \<and> (\<forall>x. x \<noteq> p \<and> x \<noteq> q \<longrightarrow> fs' x = fs x)"
  using assms by (auto simp: write_pair_def writePEM_def write_file_def read_file_def)

text \<open>C32: \<open>clipshare cert issue\<close>: with a CA that loads, issuing for any name without a slash leaves a device
  whose key, certificate and CA load back together (what the QR code and the PKCS12 export
  are made of), the certificate being the one the CA signed with the template of its kind;
  every other file, the CA's among them, is left alone. Any other kind is refused.\<close>

theorem issue_creates_device:
  assumes laws: "crypto_laws cr" and dir: "es \<noteq> []" "list_all plain_name es" "dir = abs_path es"
    and ca: "LoadCA cr dir fs = Inr (caCert, caKey)"
    and name: "slash \<notin> set name" "kind = ''server'' \<or> kind = ''client''"
    and ok: "d_open_ok d (path_join [dir, CertFile name kind])" "d_open_ok d (path_join [dir, KeyFile name kind])"
    and made: "create cr (leaf_template cr t serial name kind ips) (Some caCert) k caKey = Inr der"
      "marshal_pkcs8 cr k = Inr keyDer"
  shows "\<exists>fs' c. Issue cr d t serial (Inr k) dir name kind ips fs = (None, fs')
    \<and> loadDevice cr dir name kind True fs' = Inr \<lparr>dev_key = k, dev_cert = c, dev_ca = Some caCert\<rparr>
    \<and> cert_raw cr c = der \<and> LoadCA cr dir fs' = Inr (caCert, caKey)
    \<and> (\<forall>x. x \<noteq> path_join [dir, CertFile name kind] \<and> x \<noteq> path_join [dir, KeyFile name kind] \<longrightarrow> fs' x = fs x)
    \<and> (\<forall>kind'. kind' \<noteq> ''server'' \<and> kind' \<noteq> ''client'' \<longrightarrow>
        Issue cr d t serial (Inr k) dir name kind' ips fs = (Some kind_error, fs))"
proof -
  let ?p = "path_join [dir, CertFile name kind]"
  let ?q = "path_join [dir, KeyFile name kind]"
  note n = device_names [OF name]
  note inj = join_plain_inject [OF dir(1,2), folded dir(3)]
  have ne: "?p \<noteq> ?q"
    using inj [OF n(1,2)] n(3) by simp
  obtain fs' where w: "write_pair cr d ?p ?q k der fs = (None, fs')"
      "read_file fs' ?p = Inr (pem_encode cr ''CERTIFICATE'' der)"
      "read_file fs' ?q = Inr (pem_encode cr ''PRIVATE KEY'' keyDer)"
      "\<forall>x. x \<noteq> ?p \<and> x \<noteq> ?q \<longrightarrow> fs' x = fs x"
    using write_pair_ok [OF ok ne made(2)] by blast
  have "fs' (path_join [dir, CaCertFile]) = fs (path_join [dir, CaCertFile])"
    and "fs' (path_join [dir, CaKeyFile]) = fs (path_join [dir, CaKeyFile])"
    using w(4) inj [OF n(1)] inj [OF n(2)] n(4-7) ca_names by metis+
  then have files: "parseCertFile cr fs' (path_join [dir, CaCertFile]) = parseCertFile cr fs (path_join [dir, CaCertFile])"
      "parseKeyFile cr fs' (path_join [dir, CaKeyFile]) = parseKeyFile cr fs (path_join [dir, CaKeyFile])"
    by (simp_all add: parseCertFile_def parseKeyFile_def read_file_def)
  have same: "LoadCA cr dir fs' = LoadCA cr dir fs"
    unfolding LoadCA_def files ..
  have caFile: "parseCertFile cr fs (path_join [dir, CaCertFile]) = Inr caCert"
    using ca by (auto simp: LoadCA_def split: sum.splits)
  obtain c where c: "parse_cert cr der = Inr c" "cert_raw cr c = der"
    using crypto_create [OF laws made(1)] by blast
  have "loadDevice cr dir name kind True fs' = Inr \<lparr>dev_key = k, dev_cert = c, dev_ca = Some caCert\<rparr>"
    using w(2,3) c(1) crypto_key [OF laws made(2)] crypto_pem [OF laws] files(1) caFile
    by (simp add: loadDevice_def parseCertPEM_def parseKeyPEM_def)
  moreover have "Issue cr d t serial (Inr k) dir name kind ips fs = (None, fs')"
    using name(2) ca made(1) w(1) by (auto simp: Issue_def)
  ultimately show ?thesis
    using c(2) same ca w(4) by (auto simp: Issue_def)
qed

theorem issue_creates_device_witness:
  "\<exists>fs fs' c. LoadCA toy_crypto ex_dir fs = Inr (c, 7)
     \<and> fst (Issue toy_crypto good_disk 0 5 (Inr 9) ex_dir ''pad'' ''client'' [] fs) = None
     \<and> loadDevice toy_crypto ex_dir ''pad'' ''client'' True
         (snd (Issue toy_crypto good_disk 0 5 (Inr 9) ex_dir ''pad'' ''client'' [] fs)) =
       Inr \<lparr>dev_key = 9, dev_cert = bytes_of ''pad'' @ [9, 7], dev_ca = Some c\<rparr>"
proof -
  let ?p = "path_join [ex_dir, CaCertFile]"
  let ?q = "path_join [ex_dir, CaKeyFile]"
  let ?fs = "[?p \<mapsto> \<lparr>f_data = [0, 3], f_mode = 0\<rparr>, ?q \<mapsto> \<lparr>f_data = [1, 7], f_mode = 0\<rparr>]"
  have "?p \<noteq> ?q"
    using ca_paths [OF _ ex_dir_plain] by (simp add: ex_dir_def)
  then have ca: "LoadCA toy_crypto ex_dir ?fs = Inr ([3], 7)"
    by (simp add: LoadCA_def parseCertFile_def parseKeyFile_def read_file_def parseCertPEM_def parseKeyPEM_def
        toy_crypto_def)
  have made: "create toy_crypto (leaf_template toy_crypto 0 5 ''pad'' ''client'' []) (Some [3]) 9 7 =
      Inr (bytes_of ''pad'' @ [9, 7])" "marshal_pkcs8 toy_crypto 9 = Inr [9]"
    by (simp_all add: toy_crypto_def leaf_template_def)
  have "slash \<notin> set ''pad''"
    by (simp add: slash_def)
  then obtain fs' c where "Issue toy_crypto good_disk 0 5 (Inr 9) ex_dir ''pad'' ''client'' [] ?fs = (None, fs')"
      "loadDevice toy_crypto ex_dir ''pad'' ''client'' True fs' = Inr \<lparr>dev_key = 9, dev_cert = c, dev_ca = Some [3]\<rparr>"
      "cert_raw toy_crypto c = bytes_of ''pad'' @ [9, 7]"
    using issue_creates_device [OF toy_laws _ ex_dir_plain ex_dir_def ca _ _ _ _ made, of good_disk]
    by (auto simp: good_disk_def)
  then show ?thesis
    using ca by (intro exI [of _ ?fs] exI [of _ fs'] exI [of _ "[3]"]) (simp add: toy_crypto_def)
qed

text \<open>Creating the CA is not atomic: when the certificate is written and the key is not,
  \<open>Init\<close> fails and leaves the certificate, after which every attempt to create the CA is
  refused as existing and no certificate can be issued, until the file is removed by hand.\<close>

lemma init_half_done_blocks:
  assumes dir: "es \<noteq> []" "list_all plain_name es" "dir = abs_path es"
    and fresh: "fs (path_join [dir, CaCertFile]) = None" "fs (path_join [dir, CaKeyFile]) = None"
    and ok: "d_mkdir_ok d dir" "d_open_ok d (path_join [dir, CaCertFile])"
      "\<not> d_open_ok d (path_join [dir, CaKeyFile])"
    and made: "create cr (ca_template cr t) None k k = Inr der"
    and init: "Init cr d t (Inr k) dir fs = (r, fs')"
  shows "r \<noteq> None \<and> fs' \<noteq> fs \<and>
    (\<forall>d' t' k'. fst (Init cr d' t' k' dir fs') \<noteq> None \<and> snd (Init cr d' t' k' dir fs') = fs') \<and>
    (\<forall>d' t' n k' name kind ips. fst (Issue cr d' t' n k' dir name kind ips fs') \<noteq> None)"
proof -
  let ?p = "path_join [dir, CaCertFile]"
  let ?q = "path_join [dir, CaKeyFile]"
  have ne: "?p \<noteq> ?q"
    using ca_paths [OF dir(1,2)] dir(3) by simp
  have r: "r \<noteq> None \<and> fs' = fs(?p \<mapsto> \<lparr>f_data = pem_encode cr ''CERTIFICATE'' der, f_mode = mode_0644\<rparr>)"
    using init fresh ok made
    by (auto simp: Init_def Let_def write_pair_def writePEM_def write_file_def split: sum.splits)
  then have "fs' ?p \<noteq> None" and q: "fs' ?q = None"
    using ne fresh(2) by auto
  then have again: "fst (Init cr d' t' k' dir fs') \<noteq> None \<and> snd (Init cr d' t' k' dir fs') = fs'" for d' t' k'
    by (auto simp: Init_def Let_def)
  have "\<exists>err. LoadCA cr dir fs' = Inl err"
    using q by (auto simp: LoadCA_def parseKeyFile_def read_file_def split: sum.split)
  then have "fst (Issue cr d' t' n k' dir name kind ips fs') \<noteq> None" for d' t' n k' name kind ips
    by (auto simp: Issue_def)
  moreover have "fs' \<noteq> fs"
    using r fresh(1) by (metis fun_upd_same option.distinct(1))
  ultimately show ?thesis
    using r again by blast
qed

definition bad_disk :: disk where
  "bad_disk = \<lparr>d_mkdir_ok = (\<lambda>_. True), d_open_ok = (\<lambda>p. p \<noteq> path_join [ex_dir, CaKeyFile])\<rparr>"

lemma init_half_done_blocks_example:
  "fst (Init toy_crypto good_disk 1 (Inr 8) ex_dir
     (snd (Init toy_crypto bad_disk 0 (Inr 7) ex_dir Map.empty))) \<noteq> None"
proof -
  have "create toy_crypto (ca_template toy_crypto 0) None 7 7 =
      Inr (bytes_of ''clipshare-ca'' @ [7, 7])"
    by (simp add: toy_crypto_def ca_template_def)
  moreover have "path_join [ex_dir, CaCertFile] \<noteq> path_join [ex_dir, CaKeyFile]"
    unfolding ex_dir_def by (rule ca_paths) simp_all
  ultimately show ?thesis
    using init_half_done_blocks [of "[''home'', ''certs'']" ex_dir Map.empty bad_disk toy_crypto 0 7
        "bytes_of ''clipshare-ca'' @ [7, 7]" "fst (Init toy_crypto bad_disk 0 (Inr 7) ex_dir Map.empty)"
        "snd (Init toy_crypto bad_disk 0 (Inr 7) ex_dir Map.empty)"] ex_dir_plain
    by (simp add: bad_disk_def ex_dir_def)
qed

section \<open>The QR payload\<close>

text \<open>
  What the app does with the payload: take off the prefix, decode the base64, unzip, and split
  three segments by their lengths.
\<close>

fun take_seg :: "bytes \<Rightarrow> (bytes \<times> bytes) option" where
  "take_seg (hi # lo # r) =
     (let n = unat hi * 256 + unat lo in if n \<le> length r then Some (take n r, drop n r) else None)"
| "take_seg _ = None"

definition qr_segments :: "bytes \<Rightarrow> (bytes \<times> bytes \<times> bytes) option" where
  "qr_segments body =
     Option.bind (take_seg body) (\<lambda>(a, r).
       Option.bind (take_seg r) (\<lambda>(b, r').
         Option.bind (take_seg r') (\<lambda>(c, rest). if rest = [] then Some (a, b, c) else None)))"

definition qr_decode :: "(bytes \<Rightarrow> bytes option) \<Rightarrow> string \<Rightarrow> (bytes \<times> bytes \<times> bytes) option" where
  "qr_decode gunzip s =
     (if take (length qr_prefix) s \<noteq> qr_prefix then None
      else
        let b = drop (length qr_prefix) s in
        Option.bind (b64_decode (b @ replicate ((4 - length b mod 4) mod 4) pad_char))
          (\<lambda>z. Option.bind (gunzip z) qr_segments))"

lemma take_seg_append:
  "length d < 2 ^ 16 \<Longrightarrow>
   take_seg (word_of_nat (length d div 256) # word_of_nat (length d) # d @ r) = Some (d, r)"
proof -
  assume "length d < 2 ^ 16"
  then have "length d div 256 < 256"
    by (simp add: less_mult_imp_div_less)
  then have "unat (word_of_nat (length d div 256) :: byte) * 256 + unat (word_of_nat (length d) :: byte) = length d"
    by (simp add: unat_of_nat)
  then show ?thesis
    by (simp add: Let_def)
qed

declare take_seg.simps [simp del]

lemma qr_segments_append:
  assumes "length a < 2 ^ 16" and "length b < 2 ^ 16" and "length c < 2 ^ 16"
  shows "qr_segments (appendSeg (appendSeg (appendSeg [] a) b) c) = Some (a, b, c)"
  using assms take_seg_append [of c "[]"]
  by (simp add: qr_segments_def appendSeg_def take_seg_append)

lemma b64_decode_raw:
  "b64_decode (b64_encode_raw bs @ replicate ((4 - length (b64_encode_raw bs) mod 4) mod 4) pad_char) = Some bs"
proof -
  have "(4 - (8 * n + 5) div 6 mod 4) mod 4 = (3 - n mod 3) mod (3::nat)" for n :: nat
  proof -
    obtain q where "n = 3 * q \<or> n = 3 * q + 1 \<or> n = 3 * q + 2"
    proof (rule that [of "n div 3"])
      show "n = 3 * (n div 3) \<or> n = 3 * (n div 3) + 1 \<or> n = 3 * (n div 3) + 2"
        by arith
    qed
    moreover have "(8 * (3 * q) + 5) div 6 = 4 * q" "(8 * (3 * q + 1) + 5) div 6 = 4 * q + 2"
        "(8 * (3 * q + 2) + 5) div 6 = 4 * q + 3"
      by simp_all
    moreover have "(4 * q) mod 4 = 0" "(4 * q + 2) mod 4 = 2" "(4 * q + 3) mod 4 = 3"
        "(3 * q) mod 3 = 0" "(3 * q + 1) mod 3 = 1" "(3 * q + 2) mod 3 = 2"
      by presburger+
    ultimately show ?thesis
      by auto
  qed
  then show ?thesis
    using b64_decode_encode [of bs] b64_encode_raw_pad [of bs]
    by (simp add: length_b64_encode_raw)
qed

text \<open>C22: scanning the QR code gives the app the device's private key, its certificate and the CA:
  with each of the three under 64 KiB, decoding the payload gives exactly their DER bytes.\<close>

theorem qr_roundtrip:
  assumes "QrContent cr dir name kind fs = Inr s" and "\<And>bs. gunzip (gzip cr bs) = Some bs"
    and "loadDevice cr dir name kind True fs = Inr d" and "dev_ca d = Some ca"
    and "marshal_pkcs8 cr (dev_key d) = Inr keyDER"
    and "length keyDER < 2 ^ 16" and "length (cert_raw cr (dev_cert d)) < 2 ^ 16"
    and "length (cert_raw cr ca) < 2 ^ 16"
  shows "qr_decode gunzip s = Some (keyDER, cert_raw cr (dev_cert d), cert_raw cr ca)"
proof -
  let ?body = "appendSeg (appendSeg (appendSeg [] keyDER) (cert_raw cr (dev_cert d))) (cert_raw cr ca)"
  have s: "s = qr_prefix @ b64_encode_raw (gzip cr ?body)"
    using assms by (simp add: QrContent_def QrBytes_def)
  show ?thesis
    using assms(2) qr_segments_append [OF assms(6-8)] unfolding s
    by (simp add: qr_decode_def Let_def b64_decode_raw)
qed

definition ex_files :: files where
  "ex_files =
     [path_join [ex_dir, ''pad-client.pem''] \<mapsto> \<lparr>f_data = [0, 5, 6], f_mode = mode_0644\<rparr>,
      path_join [ex_dir, ''pad-client.key''] \<mapsto> \<lparr>f_data = [1, 9], f_mode = mode_0600\<rparr>,
      path_join [ex_dir, CaCertFile] \<mapsto> \<lparr>f_data = [0, 3], f_mode = mode_0644\<rparr>]"

lemma ex_path: "plain_name x \<Longrightarrow> path_join [ex_dir, x] = abs_path [''home'', ''certs'', x]"
  using path_join_abs [OF _ ex_dir_plain, of "[x]"] by (simp add: ex_dir_def)

lemma ex_names: "plain_name ''pad-client.pem''" "plain_name ''pad-client.key''"
  by (simp_all add: plain_name_def slash_def)

lemmas ex_paths = ex_path [OF ex_names(1)] ex_path [OF ex_names(2)] ex_path [OF ca_names(1)]

lemma ex_device:
  "loadDevice toy_crypto ex_dir ''pad'' ''client'' True ex_files =
     Inr \<lparr>dev_key = 9, dev_cert = [5, 6], dev_ca = Some [3]\<rparr>"
  unfolding loadDevice_def read_file_def ex_files_def CertFile_def KeyFile_def parseCertFile_def
  by (simp add: ex_paths) (simp add: parseCertPEM_def parseKeyPEM_def toy_crypto_def abs_path_def CaCertFile_def)

theorem qr_roundtrip_witness:
  "\<exists>s. QrContent toy_crypto ex_dir ''pad'' ''client'' ex_files = Inr s \<and>
     qr_decode Some s = Some ([9], [5, 6], [3])"
proof -
  obtain s where s: "QrContent toy_crypto ex_dir ''pad'' ''client'' ex_files = Inr s"
    using ex_device by (simp add: QrContent_def QrBytes_def toy_crypto_def)
  from qr_roundtrip [OF s _ ex_device, of Some "[3]" "[9]"] s show ?thesis
    by (simp add: toy_crypto_def)
qed

end
