(* ===== verification/Quote.thy ===== *)
theory Quote
  imports Utf8
begin

text \<open>
  \<open>strconv.Quote\<close>, which \<open>%q\<close> prints a string with, and the basic strings of the TOML
  specification (1.0), which the configuration file is read with. The lemmas: a basic string
  gives back what was quoted, for every valid UTF-8 string whose control characters TOML
  has an escape for, and a quoted string has no line break in it.
\<close>

section \<open>Runes and their encoding\<close>

text \<open>The code point of the first rune, where there is one.\<close>

definition byte_no :: "char \<Rightarrow> nat" where
  "byte_no c = of_char c"

definition rune_val :: "string \<Rightarrow> nat" where
  "rune_val s =
     (case s of
        [] \<Rightarrow> 0
      | a # r \<Rightarrow>
          (if rune_size s = 1 then byte_no a
           else if rune_size s = 2 then (byte_no a - 0xC0) * 0x40 + (byte_no (r ! 0) - 0x80)
           else if rune_size s = 3 then
             ((byte_no a - 0xE0) * 0x40 + (byte_no (r ! 0) - 0x80)) * 0x40 + (byte_no (r ! 1) - 0x80)
           else
             (((byte_no a - 0xF0) * 0x40 + (byte_no (r ! 0) - 0x80)) * 0x40 + (byte_no (r ! 1) - 0x80)) * 0x40
               + (byte_no (r ! 2) - 0x80)))"

definition is_scalar :: "nat \<Rightarrow> bool" where
  "is_scalar n \<longleftrightarrow> n < 0xD800 \<or> 0xE000 \<le> n \<and> n < 0x110000"

definition cont_of :: "nat \<Rightarrow> char" where
  "cont_of n = char_of (0x80 + n mod 0x40)"

definition encode_rune :: "nat \<Rightarrow> string" where
  "encode_rune n =
     (if n < 0x80 then [char_of n]
      else if n < 0x800 then [char_of (0xC0 + n div 0x40), cont_of n]
      else if n < 0x10000 then [char_of (0xE0 + n div 0x1000), cont_of (n div 0x40), cont_of n]
      else [char_of (0xF0 + n div 0x40000), cont_of (n div 0x1000), cont_of (n div 0x40), cont_of n])"

lemma byte_no_less [simp]: "byte_no c < 256"
  by (simp add: byte_no_def)

lemma char_of_byte_no [simp]: "char_of (byte_no c) = c"
  by (simp add: byte_no_def)

lemma byte_in_byte_no: "byte_in lo hi c \<longleftrightarrow> lo \<le> byte_no c \<and> byte_no c \<le> hi"
  by (simp add: byte_in_def byte_no_def)

lemma cont_byte_byte_no: "cont_byte c \<longleftrightarrow> 0x80 \<le> byte_no c \<and> byte_no c \<le> 0xBF"
  by (simp add: cont_byte_def byte_no_def)

text \<open>The four shapes of a rune.\<close>

lemma rune_cases:
  assumes "0 < rune_size s"
  obtains (one) a r where "s = a # r" "rune_size s = 1" "byte_no a < 0x80"
  | (two) a b r where "s = a # b # r" "rune_size s = 2" "0xC2 \<le> byte_no a" "byte_no a \<le> 0xDF"
      "0x80 \<le> byte_no b" "byte_no b \<le> 0xBF"
  | (three) a b c r where "s = a # b # c # r" "rune_size s = 3" "0xE0 \<le> byte_no a" "byte_no a \<le> 0xEF"
      "0x80 \<le> byte_no b" "byte_no b \<le> 0xBF" "0x80 \<le> byte_no c" "byte_no c \<le> 0xBF"
      "byte_no a = 0xE0 \<longrightarrow> 0xA0 \<le> byte_no b" "byte_no a = 0xED \<longrightarrow> byte_no b \<le> 0x9F"
  | (four) a b c d r where "s = a # b # c # d # r" "rune_size s = 4" "0xF0 \<le> byte_no a"
      "byte_no a \<le> 0xF4" "0x80 \<le> byte_no b" "byte_no b \<le> 0xBF" "0x80 \<le> byte_no c"
      "byte_no c \<le> 0xBF" "0x80 \<le> byte_no d" "byte_no d \<le> 0xBF"
      "byte_no a = 0xF0 \<longrightarrow> 0x90 \<le> byte_no b" "byte_no a = 0xF4 \<longrightarrow> byte_no b \<le> 0x8F"
proof -
  have e: "byte_no CHR 0xE0 = 0xE0" "byte_no CHR 0xED = 0xED" "byte_no CHR 0xF0 = 0xF0"
      "byte_no CHR 0xF4 = 0xF4"
    by (simp_all add: byte_no_def)
  have inj: "byte_no a = byte_no b \<longleftrightarrow> a = b" for a b
    by (metis char_of_byte_no)
  obtain a r where s: "s = a # r"
    using assms by (cases s) auto
  consider "byte_no a < 0x80" | "0xC2 \<le> byte_no a \<and> byte_no a \<le> 0xDF"
    | "0xE0 \<le> byte_no a \<and> byte_no a \<le> 0xEF" | "0xF0 \<le> byte_no a \<and> byte_no a \<le> 0xF4"
    using assms s by (auto simp: byte_in_byte_no split: if_splits)
  then show ?thesis
  proof cases
    case 1
    then show ?thesis
      using one [OF s] s by (simp add: byte_in_byte_no)
  next
    case 2
    then obtain b r' where "r = b # r'" "0x80 \<le> byte_no b" "byte_no b \<le> 0xBF" "rune_size s = 2"
      using assms s by (cases r) (auto simp: byte_in_byte_no cont_byte_byte_no split: if_splits)
    then show ?thesis
      using two s 2 by blast
  next
    case 3
    then obtain b c r' where "r = b # c # r'" "rune_size s = 3"
        "0x80 \<le> byte_no b" "byte_no b \<le> 0xBF" "0x80 \<le> byte_no c" "byte_no c \<le> 0xBF"
        "byte_no a = 0xE0 \<longrightarrow> 0xA0 \<le> byte_no b" "byte_no a = 0xED \<longrightarrow> byte_no b \<le> 0x9F"
      using assms s inj [of a "CHR 0xE0"] inj [of a "CHR 0xED"]
      by (auto simp: byte_in_byte_no cont_byte_byte_no e split: if_splits list.splits)
    then show ?thesis
      using three s 3 by blast
  next
    case 4
    then obtain b c d r' where "r = b # c # d # r'" "rune_size s = 4"
        "0x80 \<le> byte_no b" "byte_no b \<le> 0xBF" "0x80 \<le> byte_no c" "byte_no c \<le> 0xBF"
        "0x80 \<le> byte_no d" "byte_no d \<le> 0xBF"
        "byte_no a = 0xF0 \<longrightarrow> 0x90 \<le> byte_no b" "byte_no a = 0xF4 \<longrightarrow> byte_no b \<le> 0x8F"
      using assms s inj [of a "CHR 0xF0"] inj [of a "CHR 0xF4"]
      by (auto simp: byte_in_byte_no cont_byte_byte_no e split: if_splits list.splits)
    then show ?thesis
      using four s 4 by blast
  qed
qed

lemma byte_split:
  assumes "lo \<le> byte_no c"
  obtains x where "c = char_of (lo + x)" "byte_no c = lo + x"
  using assms by (metis char_of_byte_no le_Suc_ex)

text \<open>Encoding the code point of a rune gives the bytes of the rune, and it is a scalar value.\<close>

lemma cont_of_block [simp]: "y < 0x40 \<Longrightarrow> cont_of (m * 0x40 + y) = char_of (0x80 + y)"
  by (simp add: cont_of_def)

lemma encode_two:
  assumes "2 \<le> x" "x < 0x20" "y < 0x40"
  shows "encode_rune (x * 0x40 + y) = [char_of (0xC0 + x), char_of (0x80 + y)]"
proof -
  have "\<not> x * 0x40 + y < 0x80" "x * 0x40 + y < 0x800"
    using assms by linarith+
  then show ?thesis
    using assms by (simp add: encode_rune_def)
qed

lemma div_blocks: "(n::nat) div 0x1000 = n div 0x40 div 0x40" "n div 0x40000 = n div 0x1000 div 0x40"
  by (simp_all flip: div_mult2_eq)

lemma encode_three:
  assumes "x < 0x10" "y < 0x40" "z < 0x40" "x = 0 \<longrightarrow> 0x20 \<le> y"
  shows "encode_rune ((x * 0x40 + y) * 0x40 + z) = [char_of (0xE0 + x), char_of (0x80 + y), char_of (0x80 + z)]"
proof -
  let ?n = "(x * 0x40 + y) * 0x40 + z"
  have "0x20 \<le> x * 0x40 + y"
    using assms(4) by (cases x) auto
  then have "\<not> ?n < 0x80" "\<not> ?n < 0x800" "?n < 0x10000"
    using assms(1-3) unfolding add_mult_distrib by linarith+
  moreover have "?n div 0x1000 = x"
    using assms by (simp add: div_blocks(1) del: distrib_right_numeral)
  ultimately show ?thesis
    using assms by (simp add: encode_rune_def del: distrib_right_numeral)
qed

lemma encode_four:
  assumes "x < 5" "y < 0x40" "z < 0x40" "u < 0x40" "x = 0 \<longrightarrow> 0x10 \<le> y"
  shows "encode_rune (((x * 0x40 + y) * 0x40 + z) * 0x40 + u) =
    [char_of (0xF0 + x), char_of (0x80 + y), char_of (0x80 + z), char_of (0x80 + u)]"
proof -
  let ?n = "((x * 0x40 + y) * 0x40 + z) * 0x40 + u"
  have "0x10 \<le> x * 0x40 + y"
    using assms(5) by (cases x) auto
  then have "\<not> ?n < 0x80" "\<not> ?n < 0x800" "\<not> ?n < 0x10000"
    unfolding add_mult_distrib by linarith+
  moreover have "?n div 0x1000 = x * 0x40 + y"
    using assms by (simp add: div_blocks(1) del: distrib_right_numeral)
  moreover have "?n div 0x40000 = x"
    using assms by (simp add: div_blocks del: distrib_right_numeral)
  ultimately show ?thesis
    using assms by (simp add: encode_rune_def del: distrib_right_numeral)
qed

lemma encode_rune_val:
  assumes "0 < rune_size s"
  shows "encode_rune (rune_val s) = take (rune_size s) s \<and> is_scalar (rune_val s) \<and>
    (rune_size s \<noteq> 1 \<longrightarrow> 0x80 \<le> rune_val s)"
  using assms
proof (cases rule: rune_cases)
  case (one a r)
  then show ?thesis
    by (simp add: rune_val_def encode_rune_def is_scalar_def)
next
  case (two a b r)
  obtain x where x: "a = char_of (0xC0 + x)" "byte_no a = 0xC0 + x"
    using two(3) by (auto intro: byte_split [of "0xC0" a])
  obtain y where y: "b = char_of (0x80 + y)" "byte_no b = 0x80 + y"
    using two(5) by (auto intro: byte_split [of "0x80" b])
  have "rune_val s = x * 0x40 + y"
    using two(1,2) x(2) y(2) by (simp add: rune_val_def)
  then show ?thesis
    using encode_two [of x y] two x y by (simp add: is_scalar_def)
next
  case (three a b c r)
  obtain x where x: "a = char_of (0xE0 + x)" "byte_no a = 0xE0 + x"
    using three(3) by (auto intro: byte_split [of "0xE0" a])
  obtain y where y: "b = char_of (0x80 + y)" "byte_no b = 0x80 + y"
    using three(5) by (auto intro: byte_split [of "0x80" b])
  obtain z where z: "c = char_of (0x80 + z)" "byte_no c = 0x80 + z"
    using three(7) by (auto intro: byte_split [of "0x80" c])
  have v: "rune_val s = (x * 0x40 + y) * 0x40 + z"
    using three(1,2) x(2) y(2) z(2) by (simp add: rune_val_def)
  have bounds: "x < 0x10" "y < 0x40" "z < 0x40" "x = 0 \<longrightarrow> 0x20 \<le> y" "x = 0xD \<longrightarrow> y < 0x20"
    using three(4,6,8,9,10) x(2) y(2) z(2) by auto
  have "0x20 \<le> x * 0x40 + y"
    using bounds(4) by (cases x) auto
  moreover have "x * 0x40 + y < 0x360 \<or> 0x380 \<le> x * 0x40 + y"
    using bounds(2,5) by (cases "x < 0xD"; cases "x = 0xD") auto
  ultimately have "is_scalar (rune_val s) \<and> 0x80 \<le> rune_val s"
    unfolding v is_scalar_def using bounds(1-3) unfolding add_mult_distrib by linarith
  then show ?thesis
    using encode_three [OF bounds(1-4)] v three(1,2) x(1) y(1) z(1) by simp
next
  case (four a b c d r)
  obtain x where x: "a = char_of (0xF0 + x)" "byte_no a = 0xF0 + x"
    using four(3) by (auto intro: byte_split [of "0xF0" a])
  obtain y where y: "b = char_of (0x80 + y)" "byte_no b = 0x80 + y"
    using four(5) by (auto intro: byte_split [of "0x80" b])
  obtain z where z: "c = char_of (0x80 + z)" "byte_no c = 0x80 + z"
    using four(7) by (auto intro: byte_split [of "0x80" c])
  obtain u where u: "d = char_of (0x80 + u)" "byte_no d = 0x80 + u"
    using four(9) by (auto intro: byte_split [of "0x80" d])
  have v: "rune_val s = ((x * 0x40 + y) * 0x40 + z) * 0x40 + u"
    using four(1,2) x(2) y(2) z(2) u(2) by (simp add: rune_val_def)
  have bounds: "x < 5" "y < 0x40" "z < 0x40" "u < 0x40" "x = 0 \<longrightarrow> 0x10 \<le> y" "x = 4 \<longrightarrow> y < 0x10"
    using four(4,6,8,10,11,12) x(2) y(2) z(2) u(2) by auto
  have "0x10 \<le> x * 0x40 + y"
    using bounds(5) by (cases x) auto
  moreover have "x * 0x40 + y < 0x110"
    using bounds(1,2,6) by (cases "x = 4") auto
  ultimately have "is_scalar (rune_val s) \<and> 0x80 \<le> rune_val s"
    unfolding v is_scalar_def using bounds(3,4) unfolding add_mult_distrib by linarith
  then show ?thesis
    using encode_four [OF bounds(1-5)] v four(1,2) x(1) y(1) z(1) u(1) by simp
qed

lemma rune_high_bytes:
  assumes "0 < rune_size s" and "rune_size s \<noteq> 1"
  shows "list_all (\<lambda>c. 0x80 \<le> byte_no c) (take (rune_size s) s)"
  using assms(1)
proof (cases rule: rune_cases)
  case one
  then show ?thesis using assms(2) by simp
next
  case (two a b r)
  then show ?thesis by (simp del: rune_size.simps)
next
  case (three a b c r)
  then show ?thesis by (simp del: rune_size.simps)
next
  case (four a b c d r)
  then show ?thesis by (simp del: rune_size.simps)
qed

section \<open>Quoting\<close>

text \<open>A number in exactly \<open>k\<close> hexadecimal digits.\<close>

fun hex_fixed :: "nat \<Rightarrow> nat \<Rightarrow> string" where
  "hex_fixed 0 n = []"
| "hex_fixed (Suc k) n = hex_fixed k (n div 16) @ [digit_char (n mod 16)]"

text \<open>
  \<open>appendEscapedRune\<close>. \<open>unicode.IsPrint\<close> past ASCII is a table of the library, a parameter
  here; for ASCII it is written out.
\<close>

definition IsPrint :: "(nat \<Rightarrow> bool) \<Rightarrow> nat \<Rightarrow> bool" where
  "IsPrint pr n \<longleftrightarrow> (if n < 0x80 then 0x20 \<le> n \<and> n < 0x7F else pr n)"

definition control_letters :: "(nat \<times> char) list" where
  "control_letters = [(7, CHR ''a''), (8, CHR ''b''), (12, CHR ''f''), (10, CHR ''n''),
     (13, CHR ''r''), (9, CHR ''t''), (11, CHR ''v'')]"

definition escape_rune :: "(nat \<Rightarrow> bool) \<Rightarrow> nat \<Rightarrow> string" where
  "escape_rune pr n =
     (if n = 0x22 \<or> n = 0x5C then [CHR 0x5C, char_of n]
      else if IsPrint pr n then encode_rune n
      else
        (case map_of control_letters n of
           Some c \<Rightarrow> [CHR 0x5C, c]
         | None \<Rightarrow>
             if n < 0x20 \<or> n = 0x7F then [CHR 0x5C, CHR ''x''] @ hex_fixed 2 n
             else if n < 0x10000 then [CHR 0x5C, CHR ''u''] @ hex_fixed 4 n
             else [CHR 0x5C, CHR ''U''] @ hex_fixed 8 n))"

function quote_body :: "(nat \<Rightarrow> bool) \<Rightarrow> string \<Rightarrow> string" where
  "quote_body pr s =
     (case s of
        [] \<Rightarrow> []
      | c # r \<Rightarrow>
          (if rune_size s = 0 then [CHR 0x5C, CHR ''x''] @ hex_fixed 2 (byte_no c) @ quote_body pr r
           else escape_rune pr (rune_val s) @ quote_body pr (drop (rune_size s) s)))"
  by pat_completeness auto
termination
  by (relation "measure (length \<circ> snd)") (auto simp del: rune_size.simps)

declare quote_body.simps [simp del]

definition Quote :: "(nat \<Rightarrow> bool) \<Rightarrow> string \<Rightarrow> string" where
  "Quote pr s = CHR 0x22 # quote_body pr s @ [CHR 0x22]"

section \<open>Basic strings of TOML\<close>

definition toml_hex :: "char \<Rightarrow> nat" where
  "toml_hex c = (if 65 \<le> byte_no c \<and> byte_no c \<le> 70 then byte_no c - 55 else digit_val c)"

definition hex_value :: "string \<Rightarrow> nat" where
  "hex_value s = foldl (\<lambda>a c. a * 16 + toml_hex c) 0 s"

definition toml_simple :: "char \<Rightarrow> char option" where
  "toml_simple e =
     map_of [(CHR ''b'', CHR 0x08), (CHR ''t'', CHR 0x09), (CHR ''n'', CHR 0x0A),
       (CHR ''f'', CHR 0x0C), (CHR ''r'', CHR 0x0D), (CHR 0x22, CHR 0x22), (CHR 0x5C, CHR 0x5C)] e"

definition toml_unicode :: "char \<Rightarrow> nat" where
  "toml_unicode e = (if e = CHR ''u'' then 4 else if e = CHR ''U'' then 8 else 0)"

definition hex_ok :: "nat \<Rightarrow> string \<Rightarrow> bool" where
  "hex_ok k r \<longleftrightarrow>
     0 < k \<and> k \<le> length r \<and> list_all (\<lambda>c. toml_hex c < 16) (take k r) \<and> is_scalar (hex_value (take k r))"

definition push :: "string \<Rightarrow> (string \<times> string) option \<Rightarrow> (string \<times> string) option" where
  "push x r = map_option (\<lambda>(a, b). (x @ a, b)) r"

text \<open>The string up to the closing quote, and what follows it.\<close>

function toml_body :: "string \<Rightarrow> (string \<times> string) option" where
  "toml_body [] = None"
| "toml_body (c # s) =
     (if c = CHR 0x22 then Some ([], s)
      else if c = CHR 0x5C then
        (case s of
           [] \<Rightarrow> None
         | e # r \<Rightarrow>
             (case toml_simple e of
                Some x \<Rightarrow> push [x] (toml_body r)
              | None \<Rightarrow>
                  if hex_ok (toml_unicode e) r then
                    push (encode_rune (hex_value (take (toml_unicode e) r))) (toml_body (drop (toml_unicode e) r))
                  else None))
      else if byte_no c < 0x20 \<and> byte_no c \<noteq> 9 \<or> byte_no c = 0x7F then None
      else push [c] (toml_body s))"
  by pat_completeness auto
termination
  by (relation "measure length") auto

declare toml_body.simps(2) [simp del]

section \<open>A quoted string is read back\<close>

lemma hex_fixed_length [simp]: "length (hex_fixed k n) = k"
  by (induction k arbitrary: n) auto

lemma toml_hex_digit [simp]: "d < 16 \<Longrightarrow> toml_hex (digit_char d) = d"
  by (simp add: toml_hex_def) (auto simp: digit_char_def byte_no_def)

lemma hex_fixed_digits: "list_all (\<lambda>c. toml_hex c < 16) (hex_fixed k n)"
  by (induction k arbitrary: n) auto

lemma hex_value_fixed: "n < 16 ^ k \<Longrightarrow> hex_value (hex_fixed k n) = n"
proof (induction k arbitrary: n)
  case 0
  then show ?case by (simp add: hex_value_def)
next
  case (Suc k)
  have "n div 16 < 16 ^ k"
    using Suc.prems by (simp add: less_mult_imp_div_less)
  then have "hex_value (hex_fixed k (n div 16)) = n div 16"
    by (rule Suc.IH)
  then show ?case
    by (simp add: hex_value_def)
qed

lemma push_simps [simp]:
  "push [] r = r" "push x (push y r) = push (x @ y) r" "push x (Some (a, b)) = Some (x @ a, b)"
  "push x None = None"
  by (cases r; auto simp: push_def)+

text \<open>What TOML takes as it is, and what \<open>%q\<close> writes in a way TOML can read.\<close>

definition raw_char :: "char \<Rightarrow> bool" where
  "raw_char c \<longleftrightarrow> 0x20 \<le> byte_no c \<and> byte_no c \<noteq> 0x22 \<and> byte_no c \<noteq> 0x5C \<and> byte_no c \<noteq> 0x7F"

definition toml_char :: "char \<Rightarrow> bool" where
  "toml_char c \<longleftrightarrow> 0x20 \<le> byte_no c \<and> byte_no c \<noteq> 0x7F \<or> byte_no c \<in> {8, 9, 10, 12, 13}"

definition toml_text :: "string \<Rightarrow> bool" where
  "toml_text s \<longleftrightarrow> valid_utf8 s \<and> list_all toml_char s"

lemma byte_no_simps [simp]:
  "byte_no CHR 0x22 = 0x22" "byte_no CHR 0x5C = 0x5C"
  by (simp_all add: byte_no_def)

lemma byte_no_inject: "byte_no c = byte_no d \<longleftrightarrow> c = d"
  by (metis char_of_byte_no)

lemma control_byte_no:
  "byte_no CHR 0x08 = 8" "byte_no CHR 0x09 = 9" "byte_no CHR 0x0A = 10" "byte_no CHR 0x0C = 12"
  "byte_no CHR 0x0D = 13"
  by (simp_all add: byte_no_def)

lemma toml_body_raw: "list_all raw_char xs \<Longrightarrow> toml_body (xs @ t) = push xs (toml_body t)"
proof (induction xs)
  case (Cons c xs)
  then have "c \<noteq> CHR 0x22" "c \<noteq> CHR 0x5C"
    by (auto simp: raw_char_def)
  with Cons show ?case
    by (simp add: toml_body.simps(2) raw_char_def)
qed simp

lemma toml_body_unicode:
  assumes "toml_unicode e = k" "0 < k" "n < 16 ^ k" "is_scalar n"
  shows "toml_body (CHR 0x5C # e # hex_fixed k n @ t) = push (encode_rune n) (toml_body t)"
proof -
  have "e = CHR ''u'' \<or> e = CHR ''U''"
    using assms(1,2) by (auto simp: toml_unicode_def split: if_splits)
  then have "toml_simple e = None"
    by (auto simp: toml_simple_def)
  then show ?thesis
    using assms by (simp add: toml_body.simps(2) hex_ok_def hex_value_fixed hex_fixed_digits)
qed

lemma toml_body_simple:
  "toml_simple e = Some x \<Longrightarrow> toml_body (CHR 0x5C # e # t) = push [x] (toml_body t)"
  by (simp add: toml_body.simps(2))

lemma toml_body_ascii:
  assumes "toml_char a" and "byte_no a < 0x80"
  shows "toml_body (escape_rune pr (byte_no a) @ t) = push [a] (toml_body t)"
proof (cases "byte_no a = 0x22 \<or> byte_no a = 0x5C")
  case True
  then have "a = CHR 0x22 \<or> a = CHR 0x5C"
    by (metis byte_no_simps char_of_byte_no)
  then show ?thesis
    by (auto simp: escape_rune_def toml_simple_def intro: toml_body_simple)
next
  case False
  show ?thesis
  proof (cases "0x20 \<le> byte_no a")
    case True
    then have "raw_char a" "IsPrint pr (byte_no a)"
      using False assms by (auto simp: raw_char_def toml_char_def IsPrint_def)
    then show ?thesis
      using False assms toml_body_raw [of "[a]" t] by (simp add: escape_rune_def encode_rune_def)
  next
    case ctrl: False
    then have "byte_no a \<in> {8, 9, 10, 12, 13}"
      using assms by (auto simp: toml_char_def)
    then have "a = CHR 0x08 \<or> a = CHR 0x09 \<or> a = CHR 0x0A \<or> a = CHR 0x0C \<or> a = CHR 0x0D"
      by (simp add: control_byte_no flip: byte_no_inject)
    then show ?thesis
      by (auto simp: escape_rune_def IsPrint_def byte_no_def control_letters_def toml_simple_def
          intro: toml_body_simple)
  qed
qed

lemma toml_body_escape:
  assumes n: "0 < rune_size s" and ok: "list_all toml_char (take (rune_size s) s)"
  shows "toml_body (escape_rune pr (rune_val s) @ t) = push (take (rune_size s) s) (toml_body t)"
proof (cases "rune_size s = 1")
  case True
  from n show ?thesis
  proof (cases rule: rune_cases)
    case (one a r)
    then have "rune_val s = byte_no a" "take (rune_size s) s = [a]"
      by (simp_all add: rune_val_def)
    then show ?thesis
      using toml_body_ascii [of a pr t] ok one(3) by simp
  qed (use True in simp_all)
next
  case False
  let ?v = "rune_val s"
  have v: "encode_rune ?v = take (rune_size s) s" "is_scalar ?v" "0x80 \<le> ?v"
    using encode_rune_val [OF n] False by auto
  have raw: "list_all raw_char (take (rune_size s) s)"
    using rune_high_bytes [OF n False] by (auto simp: list_all_iff raw_char_def)
  have "map_of control_letters ?v = None"
    using v(3) by (simp add: control_letters_def)
  then show ?thesis
    using v toml_body_raw [OF raw, of t] toml_body_unicode [of "CHR ''u''" 4 ?v t]
      toml_body_unicode [of "CHR ''U''" 8 ?v t]
    by (cases "?v < 0x10000") (auto simp: escape_rune_def toml_unicode_def is_scalar_def)
qed

lemma toml_body_quote:
  "toml_text s \<Longrightarrow> toml_body (quote_body pr s @ t) = push s (toml_body t)"
proof (induction pr s rule: quote_body.induct)
  case (1 pr s)
  show ?case
  proof (cases s)
    case Nil
    then show ?thesis by (subst quote_body.simps) simp
  next
    case (Cons c r)
    let ?n = "rune_size s"
    have n: "0 < ?n" and rest: "valid_utf8 (drop ?n s)"
      using "1.prems" Cons unfolding toml_text_def
      by (subst (asm) valid_utf8.simps, simp del: rune_size.simps split: if_splits)+
    have all: "list_all toml_char (take ?n s @ drop ?n s)"
      using "1.prems" by (simp add: toml_text_def)
    then have "toml_text (drop ?n s)" and ok: "list_all toml_char (take ?n s)"
      using rest by (simp_all add: toml_text_def del: append_take_drop_id)
    then have "toml_body (quote_body pr (drop ?n s) @ t) = push (drop ?n s) (toml_body t)"
      using "1.IH"(2) [OF Cons] n Cons by simp
    then show ?thesis
      using Cons n toml_body_escape [OF n ok, of pr] by (subst quote_body.simps) simp
  qed
qed

lemma toml_body_Quote:
  "toml_text s \<Longrightarrow> Quote pr s = CHR 0x22 # q \<Longrightarrow> toml_body (q @ t) = Some (s, t)"
  by (auto simp: Quote_def toml_body_quote toml_body.simps(2))

text \<open>No line break in a quoted string, whatever the string.\<close>

lemma hex_fixed_no_newline: "CHR 0x0A \<notin> set (hex_fixed k n)"
proof (induction k arbitrary: n)
  case (Suc k)
  have "CHR 0x0A \<noteq> digit_char d" if "d < 16" for d
  proof
    assume "CHR 0x0A = digit_char d"
    then have "toml_hex CHR 0x0A = d"
      using toml_hex_digit [OF that] by simp
    then show False
      using that by (simp add: toml_hex_def byte_no_def digit_val_def)
  qed
  from this [of "n mod 16"] show ?case
    using Suc by simp
qed simp

lemma escape_rune_no_newline:
  assumes "0 < rune_size s"
  shows "CHR 0x0A \<notin> set (escape_rune pr (rune_val s))"
proof -
  let ?v = "rune_val s"
  have "CHR 0x0A \<notin> set (encode_rune ?v)" if "IsPrint pr ?v"
  proof (cases "rune_size s = 1")
    case True
    from assms show ?thesis
    proof (cases rule: rune_cases)
      case (one a r)
      then show ?thesis
        using that by (auto simp: rune_val_def encode_rune_def IsPrint_def byte_no_def)
    qed (use True in simp_all)
  next
    case False
    have "encode_rune ?v = take (rune_size s) s"
      using encode_rune_val [OF assms] by simp
    then show ?thesis
      using rune_high_bytes [OF assms False] by (auto simp: list_all_iff byte_no_def)
  qed
  moreover have "c \<noteq> CHR 0x0A" if "map_of control_letters ?v = Some c" for c
    using that by (auto simp: control_letters_def split: if_splits)
  moreover have "CHR 0x0A \<noteq> char_of (0x22 :: nat)" "CHR 0x0A \<noteq> char_of (0x5C :: nat)"
    by (auto dest!: arg_cong [where f = byte_no] simp: byte_no_def)
  ultimately show ?thesis
    by (auto simp: escape_rune_def hex_fixed_no_newline split: option.splits)
qed

lemma Quote_no_newline: "CHR 0x0A \<notin> set (Quote pr s)"
proof -
  have "CHR 0x0A \<notin> set (quote_body pr s)"
  proof (induction pr s rule: quote_body.induct)
    case (1 pr s)
    then show ?case
      by (subst quote_body.simps)
        (auto simp: hex_fixed_no_newline escape_rune_no_newline simp del: rune_size.simps hex_fixed.simps split: list.split)
  qed
  then show ?thesis
    by (simp add: Quote_def)
qed

end
