(* ===== verification/JsonText.thy ===== *)
theory JsonText
  imports Json Quote
begin

text \<open>
  \<open>encoding/json\<close> on texts: the strings and values that \<open>Marshal\<close> writes (compact, with
  the characters of HTML escaped) and the scanner that \<open>Unmarshal\<close> reads with. The lemmas:
  a string is read back with its invalid bytes replaced, and a value is read back,
  whatever blank follows it.
\<close>

section \<open>Strings\<close>

text \<open>\<open>appendString\<close>: one rune, or one invalid byte, at a time.\<close>

definition json_controls :: "(nat \<times> char) list" where
  "json_controls = [(8, CHR ''b''), (12, CHR ''f''), (10, CHR ''n''), (13, CHR ''r''), (9, CHR ''t'')]"

definition json_escape :: "nat \<Rightarrow> string" where
  "json_escape n =
     (if n = 0x22 \<or> n = 0x5C then [CHR 0x5C, char_of n]
      else
        (case map_of json_controls n of
           Some l \<Rightarrow> [CHR 0x5C, l]
         | None \<Rightarrow>
             if n < 0x20 \<or> n \<in> {0x3C, 0x3E, 0x26, 0x2028, 0x2029} then CHR 0x5C # CHR ''u'' # hex_fixed 4 n
             else encode_rune n))"

function json_body :: "string \<Rightarrow> string" where
  "json_body s =
     (case s of
        [] \<Rightarrow> []
      | c # r \<Rightarrow>
          (if rune_size s = 0 then CHR 0x5C # ''ufffd'' @ json_body r
           else json_escape (rune_val s) @ json_body (drop (rune_size s) s)))"
  by pat_completeness auto
termination
  by (relation "measure length") (auto simp del: rune_size.simps)

declare json_body.simps [simp del]

definition json_quote :: "string \<Rightarrow> string" where
  "json_quote s = CHR 0x22 # json_body s @ [CHR 0x22]"

text \<open>
  \<open>unquote\<close>, with what the scanner rejects: the string up to the closing quote and what
  follows it. A surrogate that is not half of a pair stands for U+FFFD.
\<close>

definition json_simple :: "char \<Rightarrow> char option" where
  "json_simple e =
     map_of [(CHR ''b'', CHR 0x08), (CHR ''f'', CHR 0x0C), (CHR ''n'', CHR 0x0A), (CHR ''r'', CHR 0x0D),
       (CHR ''t'', CHR 0x09), (CHR 0x22, CHR 0x22), (CHR 0x5C, CHR 0x5C), (CHR ''/'', CHR ''/'')] e"

definition hex4 :: "string \<Rightarrow> nat option" where
  "hex4 r =
     (if 4 \<le> length r \<and> list_all (\<lambda>c. toml_hex c < 16) (take 4 r) then Some (hex_value (take 4 r)) else None)"

definition low_surrogate :: "nat \<Rightarrow> string \<Rightarrow> nat option" where
  "low_surrogate n r =
     (if n < 0xDC00 \<and> take 2 r = [CHR 0x5C, CHR ''u''] then
        (case hex4 (drop 2 r) of
           Some m \<Rightarrow>
             if 0xDC00 \<le> m \<and> m \<le> 0xDFFF then Some (0x10000 + (n - 0xD800) * 0x400 + (m - 0xDC00)) else None
         | None \<Rightarrow> None)
      else None)"

function json_chars :: "string \<Rightarrow> (string \<times> string) option" where
  "json_chars [] = None"
| "json_chars (c # s) =
     (if c = CHR 0x22 then Some ([], s)
      else if c = CHR 0x5C then
        (case s of
           [] \<Rightarrow> None
         | e # r \<Rightarrow>
             (case json_simple e of
                Some x \<Rightarrow> push [x] (json_chars r)
              | None \<Rightarrow>
                  (case (if e = CHR ''u'' then hex4 r else None) of
                     None \<Rightarrow> None
                   | Some n \<Rightarrow>
                       if is_scalar n then push (encode_rune n) (json_chars (drop 4 r))
                       else
                         (case low_surrogate n (drop 4 r) of
                            Some m \<Rightarrow> push (encode_rune m) (json_chars (drop 10 r))
                          | None \<Rightarrow> push replacement_char (json_chars (drop 4 r))))))
      else if byte_no c < 0x20 then None
      else if rune_size (c # s) = 0 then push replacement_char (json_chars s)
      else push (take (rune_size (c # s)) (c # s)) (json_chars (drop (rune_size (c # s)) (c # s))))"
  by pat_completeness auto
termination
  by (relation "measure length") (auto simp del: rune_size.simps)

declare json_chars.simps(2) [simp del]

lemma push_eq_Some: "push x r = Some (y, t) \<longleftrightarrow> (\<exists>z. r = Some (z, t) \<and> y = x @ z)"
  by (auto simp: push_def)

lemma json_chars_step:
  assumes "json_chars (c # s) = Some (x, t)"
  shows "t = s \<or> (\<exists>k z. 0 < k \<and> json_chars (drop k (c # s)) = Some (z, t))"
proof (cases "c = CHR 0x5C")
  case True
  with assms obtain e r where s: "s = e # r"
    by (cases s) (simp_all add: json_chars.simps(2))
  have "\<exists>k \<in> {2, 6, 12}. \<exists>z. json_chars (drop k (c # s)) = Some (z, t)"
    using assms True
    by (subst (asm) json_chars.simps)
      (auto simp: s push_eq_Some split: option.splits if_splits)
  then obtain k z where "k \<in> {2, 6, 12}" "json_chars (drop k (c # s)) = Some (z, t)"
    by blast
  then show ?thesis
    by (intro disjI2 exI [of _ k] exI [of _ z]) auto
next
  case False
  then have "t = s \<or> (\<exists>z. json_chars s = Some (z, t))
      \<or> 0 < rune_size (c # s) \<and> (\<exists>z. json_chars (drop (rune_size (c # s)) (c # s)) = Some (z, t))"
    using assms
    by (subst (asm) json_chars.simps)
      (auto simp: push_eq_Some simp del: rune_size.simps split: if_splits)
  then show ?thesis
    using drop_Suc_Cons [of 0 c s] by (metis drop0 zero_less_one One_nat_def)
qed

lemma json_chars_shorter: "json_chars s = Some (x, t) \<Longrightarrow> length t < length s"
proof (induction "length s" arbitrary: s x rule: less_induct)
  case less
  show ?case
  proof (cases s)
    case Nil
    then show ?thesis using less.prems by simp
  next
    case (Cons c r)
    consider "t = r" | k z where "0 < k" "json_chars (drop k s) = Some (z, t)"
      using json_chars_step [of c r x t] less.prems Cons by blast
    then show ?thesis
    proof cases
      case 1
      then show ?thesis using Cons by simp
    next
      case (2 k z)
      moreover have "length (drop k s) < length s"
        using 2(1) Cons by simp
      ultimately show ?thesis
        using less.hyps [of "drop k s" z] by linarith
    qed
  qed
qed

section \<open>A string is read back\<close>

lemma json_chars_simple:
  "json_simple e = Some x \<Longrightarrow> json_chars (CHR 0x5C # e # t) = push [x] (json_chars t)"
  by (simp add: json_chars.simps(2))

lemma hex4_fixed: "n < 0x10000 \<Longrightarrow> hex4 (hex_fixed 4 n @ t) = Some n"
  by (simp add: hex4_def hex_fixed_digits hex_value_fixed)

lemma json_chars_unicode:
  assumes "n < 0x10000" "is_scalar n"
  shows "json_chars (CHR 0x5C # CHR ''u'' # hex_fixed 4 n @ t) = push (encode_rune n) (json_chars t)"
proof -
  have "json_simple CHR ''u'' = None"
    by (simp add: json_simple_def)
  then show ?thesis
    using assms by (simp add: json_chars.simps(2) hex4_fixed)
qed

lemma json_chars_rune:
  assumes n: "0 < rune_size s" and plain: "list_all (\<lambda>c. byte_no c \<noteq> 0x22 \<and> byte_no c \<noteq> 0x5C \<and> 0x20 \<le> byte_no c) (take (rune_size s) s)"
  shows "json_chars (take (rune_size s) s @ t) = push (take (rune_size s) s) (json_chars t)"
proof -
  let ?n = "rune_size s"
  let ?s = "take ?n s @ t"
  have len: "length (take ?n s) = ?n"
    using rune_size_le [of s] by simp
  have r: "rune_size ?s = ?n"
    using rune_size_take_append [OF refl n] .
  obtain c r where c: "take ?n s = c # r"
    using len n by (cases "take ?n s") auto
  then have s: "?s = c # r @ t" and plain_c: "c \<noteq> CHR 0x22" "c \<noteq> CHR 0x5C" "\<not> byte_no c < 0x20"
    using plain by auto
  have parts: "take ?n ?s = take ?n s" "drop ?n ?s = t"
    using len by simp_all
  have "json_chars ?s = push (take (rune_size ?s) ?s) (json_chars (drop (rune_size ?s) ?s))"
    unfolding s using plain_c r n s by (subst json_chars.simps(2)) (simp del: rune_size.simps)
  then show ?thesis
    by (simp only: r parts)
qed

lemma json_controls_simple:
  "map_of json_controls n = Some l \<Longrightarrow> json_simple l = Some (char_of n)"
proof -
  assume "map_of json_controls n = Some l"
  then have "(n, l) \<in> set json_controls"
    by (rule map_of_SomeD)
  moreover have "list_all (\<lambda>(n, l). json_simple l = Some (char_of n)) json_controls"
    by code_simp
  ultimately show ?thesis
    by (auto simp: list_all_iff)
qed

lemma quote_chars: "char_of (0x22 :: nat) = CHR 0x22" "char_of (0x5C :: nat) = CHR 0x5C"
  by (metis byte_no_simps char_of_byte_no)+

lemma json_chars_escape:
  assumes n: "0 < rune_size s"
  shows "json_chars (json_escape (rune_val s) @ t) = push (take (rune_size s) s) (json_chars t)"
proof -
  let ?v = "rune_val s"
  have v: "encode_rune ?v = take (rune_size s) s" "is_scalar ?v"
    using encode_rune_val [OF n] by auto
  have ascii: "take (rune_size s) s = [char_of ?v]" if "?v < 0x80"
    using that v(1) by (simp add: encode_rune_def)
  consider (quote) "?v = 0x22 \<or> ?v = 0x5C"
    | (control) l where "map_of json_controls ?v = Some l" "?v < 0x20"
    | (hex) "map_of json_controls ?v = None" "?v < 0x20 \<or> ?v \<in> {0x3C, 0x3E, 0x26, 0x2028, 0x2029}"
    | (plain) "?v \<noteq> 0x22" "?v \<noteq> 0x5C" "map_of json_controls ?v = None" "0x20 \<le> ?v"
        "?v \<notin> {0x3C, 0x3E, 0x26, 0x2028, 0x2029}"
  proof (cases "map_of json_controls ?v")
    case (Some l)
    then have "?v < 0x20"
      by (auto simp: json_controls_def split: if_splits)
    then show ?thesis using Some control by blast
  next
    case None
    then show ?thesis
      by (cases "?v = 0x22 \<or> ?v = 0x5C"; cases "?v < 0x20 \<or> ?v \<in> {0x3C, 0x3E, 0x26, 0x2028, 0x2029}")
        (use quote hex plain in simp_all)
  qed
  then show ?thesis
  proof cases
    case quote
    then have "json_simple (char_of ?v) = Some (char_of ?v)"
      by (auto simp: json_simple_def quote_chars)
    moreover have "?v < 0x80" using quote by auto
    ultimately show ?thesis
      using quote json_chars_simple ascii by (simp add: json_escape_def)
  next
    case (control l)
    then show ?thesis
      using json_chars_simple [OF json_controls_simple [OF control(1)]] ascii
      by (auto simp: json_escape_def)
  next
    case hex
    then have "?v < 0x10000" "?v \<noteq> 0x22 \<and> ?v \<noteq> 0x5C" by auto
    then show ?thesis
      using hex json_chars_unicode [of ?v t] v by (simp add: json_escape_def)
  next
    case plain
    have "list_all (\<lambda>c. byte_no c \<noteq> 0x22 \<and> byte_no c \<noteq> 0x5C \<and> 0x20 \<le> byte_no c) (take (rune_size s) s)"
    proof (cases "?v < 0x80")
      case True
      then show ?thesis
        using plain ascii by (simp add: byte_no_def)
    next
      case False
      have "rune_size s \<noteq> 1"
        using n
      proof (cases rule: rune_cases)
        case (one a r)
        then show ?thesis
          using False by (simp add: rune_val_def)
      qed simp_all
      then show ?thesis
        using rune_high_bytes [OF n] by (auto simp: list_all_iff)
    qed
    then show ?thesis
      using plain v json_chars_rune [OF n] by (auto simp: json_escape_def)
  qed
qed

lemma replacement_escape: "hex_fixed 4 0xFFFD = ''fffd''" "encode_rune 0xFFFD = replacement_char"
proof -
  have four: "(4::nat) = Suc (Suc (Suc (Suc 0)))"
    by simp
  show "hex_fixed 4 0xFFFD = ''fffd''"
    by (subst four) (simp add: digit_char_def char_of_def bit_0)
  show "encode_rune 0xFFFD = replacement_char"
    by (simp add: encode_rune_def cont_of_def replacement_char_def char_of_def bit_0)
qed

lemma json_chars_body: "json_chars (json_body s @ CHR 0x22 # t) = Some (to_valid_utf8 s, t)"
proof (induction s rule: json_body.induct)
  case (1 s)
  show ?case
  proof (cases s)
    case Nil
    then show ?thesis by (subst json_body.simps) (simp add: json_chars.simps(2))
  next
    case (Cons c r)
    show ?thesis
    proof (cases "rune_size s = 0")
      case True
      have "json_chars (CHR 0x5C # ''ufffd'' @ u) = push replacement_char (json_chars u)" for u
        using json_chars_unicode [of "0xFFFD" u] by (simp add: is_scalar_def replacement_escape)
      then show ?thesis
        using 1 Cons True by (subst json_body.simps, subst to_valid_utf8.simps) (simp add: push_def)
    next
      case False
      then show ?thesis
        using 1 Cons json_chars_escape [of s]
        by (subst json_body.simps, subst to_valid_utf8.simps) (simp add: push_def del: rune_size.simps)
    qed
  qed
qed

section \<open>Numbers\<close>

text \<open>A number literal at the start of a text, and what follows it.\<close>

definition scan_digits :: "string \<Rightarrow> (string \<times> string) option" where
  "scan_digits s =
     (if takeWhile is_digit s = [] then None else Some (takeWhile is_digit s, dropWhile is_digit s))"

definition scan_int :: "string \<Rightarrow> (string \<times> string) option" where
  "scan_int s = (case s of c # r \<Rightarrow> (if c = CHR ''0'' then Some ([c], r) else scan_digits s) | [] \<Rightarrow> None)"

definition scan_frac :: "string \<Rightarrow> (string \<times> string) option" where
  "scan_frac s =
     (case s of
        c # r \<Rightarrow> (if c = CHR ''.'' then push [c] (scan_digits r) else Some ([], s))
      | [] \<Rightarrow> Some ([], []))"

definition scan_exp :: "string \<Rightarrow> (string \<times> string) option" where
  "scan_exp s =
     (case s of
        c # r \<Rightarrow>
          (if c = CHR ''e'' \<or> c = CHR ''E'' then
             (case r of
                d # q \<Rightarrow>
                  (if d = CHR ''+'' \<or> d = CHR ''-'' then push [c, d] (scan_digits q)
                   else push [c] (scan_digits r))
              | [] \<Rightarrow> None)
           else Some ([], s))
      | [] \<Rightarrow> Some ([], []))"

definition scan_unsigned :: "string \<Rightarrow> (string \<times> string) option" where
  "scan_unsigned s =
     Option.bind (scan_int s) (\<lambda>(i, r).
     Option.bind (scan_frac r) (\<lambda>(f, q).
     push (i @ f) (scan_exp q)))"

definition scan_number :: "string \<Rightarrow> (string \<times> string) option" where
  "scan_number s =
     (case s of
        c # r \<Rightarrow> (if c = CHR ''-'' then push [c] (scan_unsigned r) else scan_unsigned s)
      | [] \<Rightarrow> None)"

text \<open>A scanner that takes something takes it from the front.\<close>

lemma scan_digits_split: "scan_digits s = Some (x, t) \<Longrightarrow> s = x @ t \<and> x \<noteq> []"
  by (auto simp: scan_digits_def split: if_splits)

lemma scan_int_split: "scan_int s = Some (x, t) \<Longrightarrow> s = x @ t \<and> x \<noteq> []"
  by (auto simp: scan_int_def scan_digits_split split: list.splits if_splits)

lemma scan_frac_split: "scan_frac s = Some (x, t) \<Longrightarrow> s = x @ t"
  by (auto simp: scan_frac_def push_eq_Some dest: scan_digits_split split: list.splits if_splits)

lemma scan_exp_split: "scan_exp s = Some (x, t) \<Longrightarrow> s = x @ t"
  by (auto simp: scan_exp_def push_eq_Some dest: scan_digits_split split: list.splits if_splits)

lemma scan_unsigned_split: "scan_unsigned s = Some (x, t) \<Longrightarrow> s = x @ t \<and> x \<noteq> []"
  by (auto simp: scan_unsigned_def push_eq_Some bind_eq_Some_conv
      dest!: scan_int_split scan_frac_split scan_exp_split)

lemma scan_number_split: "scan_number s = Some (x, t) \<Longrightarrow> s = x @ t \<and> x \<noteq> []"
  by (auto simp: scan_number_def push_eq_Some dest: scan_unsigned_split split: list.splits if_splits)

text \<open>A whole literal is taken whatever comes after it, if that cannot continue a number.\<close>

definition number_char :: "char \<Rightarrow> bool" where
  "number_char c \<longleftrightarrow> is_digit c \<or> c \<in> {CHR ''.'', CHR ''e'', CHR ''E'', CHR ''+'', CHR ''-''}"

definition stops :: "string \<Rightarrow> bool" where
  "stops t \<longleftrightarrow> t = [] \<or> \<not> number_char (hd t)"

lemma scan_digits_append:
  assumes "scan_digits s = Some (x, y)" and "y \<noteq> [] \<or> stops t"
  shows "scan_digits (s @ t) = Some (x, y @ t)"
proof (cases "y = []")
  case True
  then have "list_all is_digit s" "x = s" "s \<noteq> []"
    using assms(1) by (auto simp: scan_digits_def list_all_iff takeWhile_eq_all_conv split: if_splits)
  moreover have "takeWhile is_digit t = []" "dropWhile is_digit t = t"
    using assms(2) True by (cases t; simp add: stops_def number_char_def)+
  ultimately show ?thesis
    using True by (simp add: scan_digits_def list_all_iff)
next
  case False
  then have "\<exists>c \<in> set s. \<not> is_digit c"
    using assms(1) by (metis Pair_inject dropWhile_eq_Nil_conv option.inject option.simps(3) scan_digits_def)
  then show ?thesis
    using assms(1) by (auto simp: scan_digits_def takeWhile_append1 dropWhile_append1 split: if_splits)
qed

lemma scan_int_append:
  "scan_int s = Some (x, y) \<Longrightarrow> y \<noteq> [] \<or> stops t \<Longrightarrow> scan_int (s @ t) = Some (x, y @ t)"
  using scan_digits_append [of s x y t] by (auto simp: scan_int_def split: list.splits if_splits)

lemma scan_frac_append:
  assumes "scan_frac s = Some (x, y)" and "y \<noteq> [] \<or> stops t"
  shows "scan_frac (s @ t) = Some (x, y @ t)"
proof (cases s)
  case Nil
  then show ?thesis
    using assms by (cases t) (auto simp: scan_frac_def stops_def number_char_def)
next
  case (Cons c r)
  then show ?thesis
    using assms scan_digits_append [of r _ y t]
    by (auto simp: scan_frac_def push_eq_Some split: if_splits)
qed

lemma scan_exp_append:
  assumes "scan_exp s = Some (x, y)" and "y \<noteq> [] \<or> stops t"
  shows "scan_exp (s @ t) = Some (x, y @ t)"
proof (cases s)
  case Nil
  then show ?thesis
    using assms by (cases t) (auto simp: scan_exp_def stops_def number_char_def)
next
  case (Cons c r)
  show ?thesis
  proof (cases r)
    case Nil
    then show ?thesis
      using assms Cons by (auto simp: scan_exp_def split: if_splits)
  next
    case (Cons d q)
    then show ?thesis
      using assms \<open>s = c # r\<close> scan_digits_append [of q _ y t] scan_digits_append [of r _ y t]
      by (auto simp: scan_exp_def push_eq_Some split: if_splits)
  qed
qed

lemma scan_unsigned_append:
  assumes "scan_unsigned s = Some (x, y)" and "y \<noteq> [] \<or> stops t"
  shows "scan_unsigned (s @ t) = Some (x, y @ t)"
proof -
  obtain i r f q e where p: "scan_int s = Some (i, r)" "scan_frac r = Some (f, q)" "scan_exp q = Some (e, y)"
      "x = i @ f @ e"
    using assms(1) by (auto simp: scan_unsigned_def push_eq_Some bind_eq_Some_conv)
  have q: "q \<noteq> [] \<or> stops t"
    using p(3) assms(2) by (auto simp: scan_exp_def)
  moreover have "r \<noteq> [] \<or> stops t"
    using p(2) q by (auto simp: scan_frac_def)
  ultimately show ?thesis
    using p scan_int_append [of s i r t] scan_frac_append [of r f q t] scan_exp_append [of q e y t] assms(2)
    by (simp add: scan_unsigned_def)
qed

lemma scan_number_append:
  "scan_number s = Some (x, y) \<Longrightarrow> y \<noteq> [] \<or> stops t \<Longrightarrow> scan_number (s @ t) = Some (x, y @ t)"
  using scan_unsigned_append [of s x y t] scan_unsigned_append [of "tl s" _ y t]
  by (cases s) (auto simp: scan_number_def push_eq_Some split: if_splits)

definition number_literal :: "string \<Rightarrow> bool" where
  "number_literal l \<longleftrightarrow> scan_number l = Some (l, [])"

text \<open>What \<open>Itoa\<close> writes is one: digits with no leading zero.\<close>

lemma format10_no_zero: "0 < n \<Longrightarrow> hd (format_base 10 n) \<noteq> CHR ''0''"
proof (induction "10::nat" n rule: format_base.induct)
  case (1 n)
  show ?case
  proof (cases "n < 10")
    case True
    have "digit_char n \<noteq> CHR ''0''"
    proof
      assume "digit_char n = CHR ''0''"
      then have "digit_val (digit_char n) = 0"
        by (simp only:) (simp add: digit_val_def)
      then show False
        using 1 True by simp
    qed
    then show ?thesis
      using True by (subst format_base.simps) simp
  next
    case False
    then have "0 < n div 10" by simp
    then show ?thesis
      using 1 False by (subst format_base.simps) simp
  qed
qed

lemma scan_unsigned_format: "scan_unsigned (format_base 10 n) = Some (format_base 10 n, [])"
proof -
  obtain c r where f: "format_base 10 n = c # r"
    using format_base_nonempty [of 10 n] by (cases "format_base 10 n") auto
  have "scan_int (format_base 10 n) = Some (format_base 10 n, [])"
  proof (cases "n = 0")
    case True
    then show ?thesis
      by (subst (1 2) format_base.simps) (simp add: scan_int_def digit_char_def char_of_def bit_0)
  next
    case False
    then have "c \<noteq> CHR ''0''"
      using format10_no_zero [of n] f by simp
    moreover have "list_all is_digit (c # r)"
      using format10_digits [of n] f by simp
    then have "takeWhile is_digit (c # r) = c # r" "dropWhile is_digit (c # r) = []"
      by (simp_all add: takeWhile_eq_all_conv list_all_iff)
    ultimately show ?thesis
      by (simp add: scan_int_def f scan_digits_def)
  qed
  then show ?thesis
    by (simp add: scan_unsigned_def scan_frac_def scan_exp_def push_def)
qed

lemma number_literal_Itoa [simp]: "number_literal (Itoa i)"
proof (cases "i < 0")
  case True
  then show ?thesis
    by (simp add: number_literal_def scan_number_def Itoa_def scan_unsigned_format)
next
  case False
  obtain c r where f: "format_base 10 (nat i) = c # r"
    using format_base_nonempty [of 10 "nat i"] by (cases "format_base 10 (nat i)") auto
  moreover have "c \<noteq> CHR ''-''"
    using hd_format10 [of "nat i"] f by auto
  ultimately show ?thesis
    using False scan_unsigned_format [of "nat i"] by (simp add: number_literal_def scan_number_def Itoa_def)
qed

section \<open>Values\<close>

definition is_blank :: "char \<Rightarrow> bool" where
  "is_blank c \<longleftrightarrow> c \<in> {CHR '' '', CHR 0x09, CHR 0x0A, CHR 0x0D}"

abbreviation skip_blank :: "string \<Rightarrow> string" where
  "skip_blank \<equiv> dropWhile is_blank"

lemma skip_blank_length: "length (skip_blank s) \<le> length s"
  by (rule length_dropWhile_le)

definition literals :: "(string \<times> json) list" where
  "literals = [(''true'', JBool True), (''false'', JBool False), (''null'', JNull)]"

definition scan_literal :: "string \<Rightarrow> (json \<times> string) option" where
  "scan_literal s =
     map_option (\<lambda>(w, v). (v, drop (length w) s)) (find (\<lambda>(w, v). take (length w) s = w) literals)"

text \<open>
  The value at the start of a text, at most \<open>d\<close> arrays and objects deep. The lists are
  given without what opens them. The comparisons of lengths never fail; they make it plain
  that every call gets less of the text.
\<close>

function (sequential)
  scan_value :: "nat \<Rightarrow> string \<Rightarrow> (json \<times> string) option" and
  scan_elements :: "nat \<Rightarrow> string \<Rightarrow> (json list \<times> string) option" and
  scan_members :: "nat \<Rightarrow> string \<Rightarrow> ((string \<times> json) list \<times> string) option" where
  "scan_value d [] = None"
| "scan_value d (c # s) =
     (if c = CHR 0x22 then map_option (apfst JStr) (json_chars s)
      else if c = CHR ''['' then
        (if d = 0 then None
         else if take 1 (skip_blank s) = '']'' then Some (JArr [], tl (skip_blank s))
         else map_option (apfst JArr) (scan_elements (d - 1) (skip_blank s)))
      else if c = CHR ''{'' then
        (if d = 0 then None
         else if take 1 (skip_blank s) = ''}'' then Some (JObj [], tl (skip_blank s))
         else map_option (apfst JObj) (scan_members (d - 1) (skip_blank s)))
      else
        (case scan_literal (c # s) of
           Some r \<Rightarrow> Some r
         | None \<Rightarrow> map_option (apfst JNum) (scan_number (c # s))))"
| "scan_elements d s =
     (case scan_value d s of
        None \<Rightarrow> None
      | Some (v, r) \<Rightarrow>
          if length r < length s then
            (case skip_blank r of
               [] \<Rightarrow> None
             | c # t \<Rightarrow>
                 if c = CHR '','' then map_option (apfst (Cons v)) (scan_elements d (skip_blank t))
                 else if c = CHR '']'' then Some ([v], t)
                 else None)
          else None)"
| "scan_members d [] = None"
| "scan_members d (q # s) =
     (if q \<noteq> CHR 0x22 then None
      else
        (case json_chars s of
           None \<Rightarrow> None
         | Some (k, r) \<Rightarrow>
             (case skip_blank r of
                [] \<Rightarrow> None
              | c # t \<Rightarrow>
                  if c \<noteq> CHR '':'' \<or> length t \<ge> length s then None
                  else
                    (case scan_value d (skip_blank t) of
                       None \<Rightarrow> None
                     | Some (v, r') \<Rightarrow>
                         if length r' < length s then
                           (case skip_blank r' of
                              [] \<Rightarrow> None
                            | c' # t' \<Rightarrow>
                                if c' = CHR '','' then
                                  map_option (apfst (Cons (k, v))) (scan_members d (skip_blank t'))
                                else if c' = CHR ''}'' then Some ([(k, v)], t')
                                else None)
                         else None))))"
  by pat_completeness auto
termination
proof (relation "measure (\<lambda>x. case x of Inl (d, s) \<Rightarrow> 2 * length s
    | Inr (Inl (d, s)) \<Rightarrow> 2 * length s + 1 | Inr (Inr (d, s)) \<Rightarrow> 2 * length s)", goal_cases)
  case 1
  show ?case by simp
next
  case (2 d c s)
  then show ?case using skip_blank_length [of s] by simp
next
  case (3 d c s)
  then show ?case using skip_blank_length [of s] by simp
next
  case (4 d s)
  then show ?case by simp
next
  case (5 d s _ v r c t)
  then have "length t < length s"
    using skip_blank_length [of r] by simp
  then show ?case
    using skip_blank_length [of t] by simp
next
  case (6 d q s _ k r c t)
  then show ?case
    using skip_blank_length [of t] by simp
next
  case (7 d q s _ k r c t _ v r' c' t')
  then have "length t' < length s"
    using skip_blank_length [of r'] by simp
  then show ?case
    using skip_blank_length [of t'] by simp
qed

declare scan_value.simps(2) [simp del] scan_elements.simps [simp del] scan_members.simps(2) [simp del]

text \<open>\<open>Unmarshal\<close> as far as the value: one, with blanks around it. \<open>maxNestingDepth\<close> is 10000.\<close>

definition Unmarshal :: "string \<Rightarrow> json option" where
  "Unmarshal s =
     (case scan_value 10000 (skip_blank s) of
        Some (v, r) \<Rightarrow> if skip_blank r = [] then Some v else None
      | None \<Rightarrow> None)"

section \<open>Values as texts\<close>

text \<open>\<open>Marshal\<close>: no blanks.\<close>

fun Marshal :: "json \<Rightarrow> string"
  and marshal_elements :: "json list \<Rightarrow> string"
  and marshal_members :: "(string \<times> json) list \<Rightarrow> string" where
  "Marshal JNull = ''null''"
| "Marshal (JBool b) = (if b then ''true'' else ''false'')"
| "Marshal (JNum l) = l"
| "Marshal (JStr s) = json_quote s"
| "Marshal (JArr vs) = CHR ''['' # marshal_elements vs @ '']''"
| "Marshal (JObj ms) = CHR ''{'' # marshal_members ms @ ''}''"
| "marshal_elements [] = []"
| "marshal_elements (v # vs) = Marshal v @ (if vs = [] then [] else CHR '','' # marshal_elements vs)"
| "marshal_members [] = []"
| "marshal_members ((k, v) # ms) =
     json_quote k @ CHR '':'' # Marshal v @ (if ms = [] then [] else CHR '','' # marshal_members ms)"

text \<open>What is read back: the value with valid strings.\<close>

fun with_valid_strings :: "json \<Rightarrow> json" where
  "with_valid_strings (JStr s) = JStr (to_valid_utf8 s)"
| "with_valid_strings (JArr vs) = JArr (map with_valid_strings vs)"
| "with_valid_strings (JObj ms) = JObj (map (\<lambda>(k, v). (to_valid_utf8 k, with_valid_strings v)) ms)"
| "with_valid_strings v = v"

fun well_formed :: "json \<Rightarrow> bool" where
  "well_formed (JNum l) = number_literal l"
| "well_formed (JArr vs) = list_all well_formed vs"
| "well_formed (JObj ms) = list_all (\<lambda>(k, v). well_formed v) ms"
| "well_formed v = True"

text \<open>At most \<open>d\<close> arrays and objects deep.\<close>

fun within_depth :: "nat \<Rightarrow> json \<Rightarrow> bool" where
  "within_depth d (JArr vs) \<longleftrightarrow> 0 < d \<and> list_all (within_depth (d - 1)) vs"
| "within_depth d (JObj ms) \<longleftrightarrow> 0 < d \<and> list_all (\<lambda>(k, v). within_depth (d - 1) v) ms"
| "within_depth d v \<longleftrightarrow> True"

section \<open>A value is read back\<close>

lemma scan_number_head:
  assumes "scan_number (c # r) = Some x"
  shows "c = CHR ''-'' \<or> is_digit c"
proof -
  have "is_digit CHR ''0''"
    by (simp add: is_digit_def)
  then show ?thesis
    using assms
    by (auto simp: scan_number_def scan_unsigned_def scan_int_def scan_digits_def bind_eq_Some_conv
        split: if_splits)
qed

lemma number_head_simps:
  assumes "c = CHR ''-'' \<or> is_digit c"
  shows "c \<noteq> CHR 0x22" "c \<noteq> CHR ''[''" "c \<noteq> CHR ''{''" "c \<noteq> CHR '']''" "\<not> is_blank c"
    "scan_literal (c # s) = None"
  using assms by (auto simp: is_digit_def is_blank_def scan_literal_def literals_def)

lemma stops_simps [simp]:
  "stops []" "stops (CHR '','' # t)" "stops (CHR '']'' # t)" "stops (CHR ''}'' # t)"
  by (simp_all add: stops_def number_char_def is_digit_def)

lemma blank_simps [simp]:
  "\<not> is_blank CHR 0x22" "\<not> is_blank CHR '',''" "\<not> is_blank CHR '':''" "\<not> is_blank CHR '']''"
  "\<not> is_blank CHR ''}''" "\<not> is_blank CHR ''[''" "\<not> is_blank CHR ''{''" "\<not> is_blank CHR ''t''"
  "\<not> is_blank CHR ''f''" "\<not> is_blank CHR ''n''"
  by (simp_all add: is_blank_def)

lemma Marshal_head:
  assumes "well_formed v"
  obtains c r where "Marshal v = c # r" "\<not> is_blank c" "c \<noteq> CHR '']''"
proof (cases v)
  case (JNum l)
  then have l: "scan_number l = Some (l, [])"
    using assms by (simp add: number_literal_def)
  then obtain c r where "l = c # r"
    by (cases l) (auto dest: scan_number_split)
  then show ?thesis
    using that JNum l scan_number_head number_head_simps by (metis Marshal.simps(3))
next
  case (JBool b)
  then show ?thesis
    using that [of "CHR ''t''"] that [of "CHR ''f''"] by (cases b) simp_all
next
  case JNull
  then show ?thesis using that [of "CHR ''n''"] by simp
next
  case (JStr s)
  then show ?thesis using that [of "CHR 0x22"] by (simp add: json_quote_def)
next
  case (JArr vs)
  then show ?thesis using that [of "CHR ''[''"] by simp
next
  case (JObj ms)
  then show ?thesis using that [of "CHR ''{''"] by simp
qed

lemma scan_value_string: "scan_value d (json_quote s @ t) = Some (JStr (to_valid_utf8 s), t)"
  by (simp add: json_quote_def scan_value.simps(2) json_chars_body)

lemma scan_value_number:
  assumes "number_literal l" and "stops t"
  shows "scan_value d (l @ t) = Some (JNum l, t)"
proof -
  have l: "scan_number l = Some (l, [])"
    using assms by (simp add: number_literal_def)
  then obtain c r where c: "l = c # r"
    by (cases l) (auto dest: scan_number_split)
  have "scan_number (c # r @ t) = Some (c # r, t)"
    using scan_number_append [OF l, of t] assms(2) c by simp
  then show ?thesis
    using number_head_simps [OF scan_number_head, of c r] l c by (simp add: scan_value.simps(2))
qed

lemma scan_value_literals:
  "scan_value d (''true'' @ t) = Some (JBool True, t)" "scan_value d (''false'' @ t) = Some (JBool False, t)"
  "scan_value d (''null'' @ t) = Some (JNull, t)"
  by (simp_all add: scan_value.simps(2) scan_literal_def literals_def)

lemma skip_blank_head: "s = c # r \<Longrightarrow> \<not> is_blank c \<Longrightarrow> skip_blank (s @ t) = s @ t"
  by simp

lemma skip_blank_Marshal: "well_formed v \<Longrightarrow> skip_blank (Marshal v @ t) = Marshal v @ t"
  by (erule Marshal_head) simp

lemma scan_elements_step:
  assumes "scan_value d (s @ c # t) = Some (v, c # t)" and "s \<noteq> []" and "\<not> is_blank c"
  shows "scan_elements d (s @ c # t) =
    (if c = CHR '','' then map_option (apfst (Cons v)) (scan_elements d (skip_blank t))
     else if c = CHR '']'' then Some ([v], t) else None)"
  using assms by (subst scan_elements.simps) simp

lemma scan_members_step:
  assumes "scan_value d (s @ c # t) = Some (v, c # t)" and "s = a # r" and "\<not> is_blank a" and "\<not> is_blank c"
  shows "scan_members d (json_quote k @ CHR '':'' # s @ c # t) =
    (if c = CHR '','' then map_option (apfst (Cons (to_valid_utf8 k, v))) (scan_members d (skip_blank t))
     else if c = CHR ''}'' then Some ([(to_valid_utf8 k, v)], t) else None)"
  using assms by (simp add: json_quote_def scan_members.simps(2) json_chars_body)

lemma marshal_elements_head:
  assumes "well_formed v"
  obtains c r where "marshal_elements (v # vs) = c # r" "\<not> is_blank c" "c \<noteq> CHR '']''"
  using Marshal_head [OF assms] that by (metis append_Cons marshal_elements.simps(2))

lemma scan_value_array:
  assumes "0 < d" and "list_all well_formed vs"
    and "vs \<noteq> [] \<Longrightarrow> scan_elements (d - 1) (marshal_elements vs @ CHR '']'' # t) = Some (ws, t)"
    and "vs = [] \<Longrightarrow> ws = []"
  shows "scan_value d (CHR ''['' # marshal_elements vs @ CHR '']'' # t) = Some (JArr ws, t)"
proof (cases vs)
  case Nil
  then show ?thesis using assms by (simp add: scan_value.simps(2))
next
  case (Cons v us)
  then obtain c r where "marshal_elements vs = c # r" "\<not> is_blank c" "c \<noteq> CHR '']''"
    using marshal_elements_head [of v us] assms(2) by auto
  then show ?thesis
    using assms(1,3) Cons by (simp add: scan_value.simps(2))
qed

lemma scan_value_object:
  assumes "0 < d"
    and "ms \<noteq> [] \<Longrightarrow> scan_members (d - 1) (marshal_members ms @ CHR ''}'' # t) = Some (ns, t)"
    and "ms = [] \<Longrightarrow> ns = []"
  shows "scan_value d (CHR ''{'' # marshal_members ms @ CHR ''}'' # t) = Some (JObj ns, t)"
proof (cases ms)
  case Nil
  then show ?thesis using assms by (simp add: scan_value.simps(2))
next
  case (Cons m us)
  then obtain r where "marshal_members ms = CHR 0x22 # r"
    by (cases m) (simp add: json_quote_def)
  then show ?thesis
    using assms(1,2) Cons by (simp add: scan_value.simps(2))
qed

abbreviation valid_members :: "(string \<times> json) list \<Rightarrow> (string \<times> json) list" where
  "valid_members ms \<equiv> map (\<lambda>(k, v). (to_valid_utf8 k, with_valid_strings v)) ms"

lemma scan_Marshal:
  shows "well_formed v \<Longrightarrow> within_depth d v \<Longrightarrow> stops t \<Longrightarrow>
      scan_value d (Marshal v @ t) = Some (with_valid_strings v, t)"
    and "list_all well_formed vs \<Longrightarrow> list_all (within_depth d) vs \<Longrightarrow> vs \<noteq> [] \<Longrightarrow>
      scan_elements d (marshal_elements vs @ CHR '']'' # t) = Some (map with_valid_strings vs, t)"
    and "list_all (\<lambda>(k, v). well_formed v) ms \<Longrightarrow> list_all (\<lambda>(k, v). within_depth d v) ms \<Longrightarrow> ms \<noteq> [] \<Longrightarrow>
      scan_members d (marshal_members ms @ CHR ''}'' # t) = Some (valid_members ms, t)"
proof (induction v and vs and ms arbitrary: d t and d t and d t
    rule: Marshal_marshal_elements_marshal_members.induct)
  case 1
  then show ?case using scan_value_literals by simp
next
  case (2 b)
  then show ?case using scan_value_literals by simp
next
  case (3 l)
  then show ?case using scan_value_number by simp
next
  case (4 s)
  then show ?case using scan_value_string by simp
next
  case (5 vs)
  then show ?case using scan_value_array [of d vs t "map with_valid_strings vs"] by simp
next
  case (6 ms)
  then show ?case using scan_value_object [of d ms t "valid_members ms"] by simp
next
  case 7
  then show ?case by simp
next
  case (8 v vs)
  have "well_formed v" using 8 by simp
  then obtain c r where c: "Marshal v = c # r"
    by (rule Marshal_head)
  show ?case
  proof (cases "vs = []")
    case True
    then show ?thesis
      using 8 scan_elements_step [of d "Marshal v" "CHR '']''" t] c by simp
  next
    case False
    then obtain u us where u: "vs = u # us"
      by (cases vs) auto
    then have "well_formed u" using 8 by simp
    then have "skip_blank (marshal_elements vs @ CHR '']'' # t) = marshal_elements vs @ CHR '']'' # t"
      unfolding u by (rule marshal_elements_head [of u us]) simp
    then show ?thesis
      using 8 False scan_elements_step [of d "Marshal v" "CHR '',''" "marshal_elements vs @ CHR '']'' # t"] c by simp
  qed
next
  case 9
  then show ?case by simp
next
  case (10 k v ms)
  have "well_formed v" using 10 by simp
  then obtain c r where c: "Marshal v = c # r" "\<not> is_blank c"
    by (rule Marshal_head)
  show ?case
  proof (cases "ms = []")
    case True
    then show ?thesis
      using 10 scan_members_step [of d "Marshal v" "CHR ''}''" t _ c r k] c by simp
  next
    case False
    then obtain m us where "ms = m # us"
      by (cases ms) auto
    then have "skip_blank (marshal_members ms @ CHR ''}'' # t) = marshal_members ms @ CHR ''}'' # t"
      by (cases m) (simp add: json_quote_def)
    then show ?thesis
      using 10 False scan_members_step [of d "Marshal v" "CHR '',''" "marshal_members ms @ CHR ''}'' # t" _ c r k] c
      by simp
  qed
qed

text \<open>
  Whatever value is written, arbitrary bytes in its strings, is read from the text, blanks
  before and after it included, with the invalid bytes of its strings replaced.
\<close>

lemma Unmarshal_Marshal:
  assumes "well_formed v" and "within_depth 10000 v" and "list_all is_blank b" and "list_all is_blank b'"
  shows "Unmarshal (b @ Marshal v @ b') = Some (with_valid_strings v)"
proof -
  have blanks: "dropWhile is_blank (b @ t) = dropWhile is_blank t" for t
    using assms(3) by (simp add: list_all_iff)
  have "stops b'"
    using assms(4) by (cases b') (auto simp: stops_def number_char_def is_blank_def is_digit_def)
  then have "scan_value 10000 (Marshal v @ b') = Some (with_valid_strings v, b')"
    using scan_Marshal(1) assms(1,2) by blast
  then show ?thesis
    using assms(4) by (simp add: Unmarshal_def blanks skip_blank_Marshal [OF assms(1)] list_all_iff)
qed

text \<open>
  \<open>Decoder.Decode\<close> reads the value a stream starts with and leaves the rest; \<open>Encoder.Encode\<close>
  ends the value with a newline.
\<close>

definition Decode :: "string \<Rightarrow> json option" where
  "Decode s = map_option fst (scan_value 10000 (skip_blank s))"

definition Encode :: "json \<Rightarrow> string" where
  "Encode v = Marshal v @ [CHR 0x0A]"

lemma Decode_Marshal:
  "well_formed v \<Longrightarrow> within_depth 10000 v \<Longrightarrow> stops t \<Longrightarrow> Decode (Marshal v @ t) = Some (with_valid_strings v)"
  by (simp add: Decode_def skip_blank_Marshal scan_Marshal(1))

lemma Decode_Encode:
  "well_formed v \<Longrightarrow> within_depth 10000 v \<Longrightarrow> Decode (Encode v) = Some (with_valid_strings v)"
  unfolding Encode_def by (rule Decode_Marshal) (simp_all add: stops_def number_char_def is_digit_def)

lemma Unmarshal_Marshal_example:
  "Unmarshal ('' '' @ Marshal (JObj [(''a'', JArr [JNum ''-1.5e3'', JStr [CHR 0xFF, CHR 0x22]])]) @ [CHR 0x0A]) =
     Some (JObj [(''a'', JArr [JNum ''-1.5e3'', JStr (replacement_char @ [CHR 0x22])])])"
proof -
  have num: "number_literal ''-1.5e3''"
    by code_simp
  have strs: "to_valid_utf8 ''a'' = ''a''" "to_valid_utf8 [CHR 0xFF, CHR 0x22] = replacement_char @ [CHR 0x22]"
    by code_simp+
  show ?thesis
    using Unmarshal_Marshal [of "JObj [(''a'', JArr [JNum ''-1.5e3'', JStr [CHR 0xFF, CHR 0x22]])]" "'' ''" "[CHR 0x0A]"]
      num strs
    by (simp add: is_blank_def)
qed

section \<open>Lengths\<close>

lemma json_escape_length:
  assumes n: "0 < rune_size s"
  shows "rune_size s \<le> length (json_escape (rune_val s))"
proof -
  have "encode_rune (rune_val s) = take (rune_size s) s"
    using encode_rune_val [OF n] by simp
  then have e: "length (encode_rune (rune_val s)) = rune_size s"
    using rune_size_le [of s] by simp
  have one: "rune_val s < 0x80 \<Longrightarrow> rune_size s = 1"
    using e by (simp add: encode_rune_def)
  have "rune_size s \<le> 4"
    using n by (cases rule: rune_cases) simp_all
  moreover have "map_of json_controls (rune_val s) = Some l \<Longrightarrow> rune_val s < 0x80" for l
    by (auto simp: json_controls_def split: if_splits)
  ultimately show ?thesis
    using e one by (auto simp: json_escape_def split: option.splits)
qed

lemma json_body_length: "length s \<le> length (json_body s)"
proof (induction s rule: json_body.induct)
  case (1 s)
  show ?case
  proof (cases s)
    case (Cons c r)
    show ?thesis
    proof (cases "rune_size s = 0")
      case True
      then show ?thesis using 1 Cons by (subst json_body.simps) simp
    next
      case False
      then have "length (drop (rune_size s) s) \<le> length (json_body (drop (rune_size s) s))"
        using 1 Cons by simp
      then show ?thesis
        using json_escape_length [of s] False Cons
        by (subst json_body.simps) (simp del: rune_size.simps)
    qed
  qed simp
qed

text \<open>No byte takes more than six characters.\<close>

lemma json_escape_length_le:
  assumes n: "0 < rune_size s"
  shows "length (json_escape (rune_val s)) \<le> 6"
proof -
  have "encode_rune (rune_val s) = take (rune_size s) s"
    using encode_rune_val [OF n] by simp
  moreover have "rune_size s \<le> 4"
    using n by (cases rule: rune_cases) simp_all
  ultimately show ?thesis
    by (auto simp: json_escape_def hex_fixed_length split: option.split)
qed

lemma json_body_length_le: "length (json_body s) \<le> 6 * length s"
proof (induction s rule: json_body.induct)
  case (1 s)
  show ?case
  proof (cases s)
    case Nil
    then show ?thesis by (subst json_body.simps) simp
  next
    case (Cons c r)
    show ?thesis
    proof (cases "rune_size s = 0")
      case True
      then show ?thesis using 1 Cons by (subst json_body.simps) simp
    next
      case False
      then have "length (json_body (drop (rune_size s) s)) \<le> 6 * length (drop (rune_size s) s)"
        using 1 Cons by simp
      moreover have "length (drop (rune_size s) s) + 1 \<le> length s"
        using False Cons by (simp del: rune_size.simps)
      ultimately show ?thesis
        using json_escape_length_le [of s] False Cons
        by (subst json_body.simps) (simp del: rune_size.simps)
    qed
  qed
qed

lemma Marshal_member_length: "(k, v) \<in> set ms \<Longrightarrow> length (Marshal v) \<le> length (Marshal (JObj ms))"
  by (induction ms rule: list.induct) (fastforce simp: json_quote_def split: if_splits)+

lemma Marshal_string_length: "length s \<le> length (Marshal (JStr s))"
  using json_body_length [of s] by (simp add: json_quote_def)

end
