(* ===== verification/Wire.thy ===== *)
theory Wire
  imports JsonText Relay
begin

text \<open>
  The frames of the protocol as the texts that are written to a connection, and the read
  limit of a connection (\<open>SetReadLimit\<close> in \<open>handlers.go\<close> and \<open>peer.go\<close>). Reading under a limit is the
  WebSocket library's, a parameter with its documented behaviour as the hypothesis
  \<open>respects_limit\<close>. The lemmas: every frame is read back from its text; an image that the
  sender's limit on images lets through may be past the receiver's limit on messages.
\<close>

section \<open>The text of a frame\<close>

text \<open>
  The values as they are before \<open>Marshal\<close> replaces invalid bytes, with the tags of
  \<open>types.go\<close>.
\<close>

definition raw_optional :: "string \<Rightarrow> string \<Rightarrow> (string \<times> json) list" where
  "raw_optional k s = (if s = [] then [] else [(k, JStr s)])"

definition clipboard_value :: "clipboard_msg \<Rightarrow> json" where
  "clipboard_value m =
     JObj (raw_optional ''type'' (cm_Type m) @ raw_optional ''text'' (cm_Text m)
       @ raw_optional ''data'' (cm_Data m) @ raw_optional ''mime'' (cm_Mime m)
       @ [(''ts'', JNum (Itoa (cm_Ts m))), (''from'', JStr (cm_From m))])"

definition hello_value :: "hello \<Rightarrow> json" where
  "hello_value h =
     JObj [(''name'', JStr (h_Name h)), (''platform'', JStr (h_Platform h)), (''version'', JStr (h_Version h))]"

definition error_value :: "error_msg \<Rightarrow> json" where
  "error_value e = JObj [(''code'', JStr (e_Code e)), (''msg'', JStr (e_Msg e))]"

definition envelope_value :: "string \<Rightarrow> json option \<Rightarrow> json" where
  "envelope_value typ d =
     JObj ((''type'', JStr typ) # (case d of None \<Rightarrow> [] | Some v \<Rightarrow> [(''data'', v)]))"

definition clipboard_text :: "content \<Rightarrow> int \<Rightarrow> string \<Rightarrow> string" where
  "clipboard_text c ts from = Marshal (envelope_value MsgClipboard (Some (clipboard_value (ContentMsg c ts from))))"

definition hello_text :: "hello \<Rightarrow> string" where
  "hello_text h = Marshal (envelope_value MsgHello (Some (hello_value h)))"

definition error_text :: "string \<Rightarrow> string \<Rightarrow> string" where
  "error_text code msg = Marshal (envelope_value MsgError (Some (error_value \<lparr>e_Code = code, e_Msg = msg\<rparr>)))"

definition bare_text :: "string \<Rightarrow> string" where
  "bare_text typ = Marshal (envelope_value typ None)"

lemma raw_optional_simps [simp]:
  "list_all (\<lambda>(k, v). well_formed v) (raw_optional k s)"
  "list_all (\<lambda>(k, v). within_depth d v) (raw_optional k s)"
  "is_ascii k \<Longrightarrow> map (\<lambda>(k, v). (to_valid_utf8 k, with_valid_strings v)) (raw_optional k s) = omit_empty k s"
  by (simp_all add: raw_optional_def omit_empty_def marshal_string_def valid_utf8_ascii)

lemma ascii_tags [simp]:
  "is_ascii ''type''" "is_ascii ''text''" "is_ascii ''data''" "is_ascii ''mime''" "is_ascii ''ts''"
  "is_ascii ''from''" "is_ascii ''name''" "is_ascii ''platform''" "is_ascii ''version''" "is_ascii ''code''"
  "is_ascii ''msg''"
  by (simp_all add: byte_in_def)

lemma valid_tag: "is_ascii k \<Longrightarrow> to_valid_utf8 k = k"
  by (simp add: valid_utf8_ascii)

lemma payload_values:
  "with_valid_strings (clipboard_value m) = marshal_clipboard m"
  "with_valid_strings (hello_value h) = marshal_hello h"
  "with_valid_strings (error_value er) = marshal_error er"
  by (simp_all add: clipboard_value_def hello_value_def error_value_def marshal_clipboard_def marshal_hello_def
      marshal_error_def marshal_int_def marshal_string_def member_of_def valid_tag del: is_ascii_simps)

lemma envelope_value_valid:
  "with_valid_strings (envelope_value typ d) =
     marshal_envelope \<lparr>env_Type = typ, env_Data = map_option with_valid_strings d\<rparr>"
  by (cases d) (simp_all add: envelope_value_def marshal_envelope_def member_of_def marshal_string_def valid_tag
      del: is_ascii_simps)

lemma payloads_shallow:
  "well_formed (clipboard_value m)" "well_formed (hello_value h)" "well_formed (error_value er)"
  "0 < d \<Longrightarrow> within_depth d (clipboard_value m)" "0 < d \<Longrightarrow> within_depth d (hello_value h)"
  "0 < d \<Longrightarrow> within_depth d (error_value er)"
  by (simp_all add: clipboard_value_def hello_value_def error_value_def)

lemma envelope_read_back:
  assumes "pred_option (\<lambda>v. well_formed v \<and> within_depth 9999 v) d"
  shows "Unmarshal (Marshal (envelope_value typ d)) = Some (with_valid_strings (envelope_value typ d))"
proof -
  have "well_formed (envelope_value typ d)" "within_depth 10000 (envelope_value typ d)"
    using assms by (cases d; simp add: envelope_value_def)+
  then show ?thesis
    using Unmarshal_Marshal [of "envelope_value typ d" "[]" "[]"] by simp
qed

lemma clipboard_text_read: "Unmarshal (clipboard_text c ts from) = Some (clipboard_frame c ts from)"
  by (simp add: clipboard_text_def envelope_read_back payloads_shallow envelope_value_valid payload_values
      clipboard_frame_def)

lemma hello_text_read: "Unmarshal (hello_text h) = Some (hello_frame h)"
  by (simp add: hello_text_def envelope_read_back payloads_shallow envelope_value_valid payload_values
      hello_frame_def)


section \<open>The read limit\<close>

text \<open>
  \<open>Read\<close> of a connection with a limit: \<open>None\<close> is its error. The library documents that a message
  longer than the limit fails the read and that any other is returned (a negative limit
  means none; \<open>Load\<close> makes the limit positive).
\<close>

type_synonym limited_read = "int \<Rightarrow> string \<Rightarrow> string option"

definition respects_limit :: "limited_read \<Rightarrow> bool" where
  "respects_limit rd \<longleftrightarrow> (\<forall>n t. 0 < n \<longrightarrow> rd n t = (if int (length t) \<le> n then Some t else None))"

text \<open>What the loop of \<open>handleClient\<close> gets for a text that arrives.\<close>

definition read_frame :: "limited_read \<Rightarrow> config \<Rightarrow> string \<Rightarrow> read_result" where
  "read_frame rd cfg t =
     (case rd (cfg_MaxMessageBytes cfg) t of None \<Rightarrow> ReadError | Some b \<Rightarrow> Frame (Unmarshal b))"

lemma image_text_length:
  assumes "Kind c = KindImage"
  shows "4 * ((length (Image c) + 2) div 3) \<le> length (clipboard_text c ts from)"
proof -
  let ?m = "ContentMsg c ts from"
  have "length (b64_encode (Image c)) \<le> length (Marshal (clipboard_value ?m))"
  proof (cases "Image c = []")
    case False
    then have "(''data'', JStr (b64_encode (Image c))) \<in> set (raw_optional ''data'' (cm_Data ?m))"
      using assms by (simp add: raw_optional_def ContentMsg_def)
    then have "length (Marshal (JStr (b64_encode (Image c)))) \<le> length (Marshal (clipboard_value ?m))"
      unfolding clipboard_value_def by (intro Marshal_member_length [of "''data''"]) simp
    then show ?thesis
      using Marshal_string_length order_trans by blast
  qed simp
  also have "\<dots> \<le> length (clipboard_text c ts from)"
    unfolding clipboard_text_def envelope_value_def by (rule Marshal_member_length [of "''data''"]) simp
  finally show ?thesis
    by (simp add: length_b64_encode)
qed

lemma read_frame_short:
  "respects_limit rd \<Longrightarrow> 0 < cfg_MaxMessageBytes cfg \<Longrightarrow> int (length t) \<le> cfg_MaxMessageBytes cfg \<Longrightarrow> read_frame rd cfg t = Frame (Unmarshal t)"
  by (simp add: respects_limit_def read_frame_def)

lemma read_frame_long:
  "respects_limit rd \<Longrightarrow> 0 < cfg_MaxMessageBytes cfg \<Longrightarrow> cfg_MaxMessageBytes cfg < int (length t) \<Longrightarrow> read_frame rd cfg t = ReadError"
  by (simp add: respects_limit_def read_frame_def)

lemma clipboard_text_handled:
  "respects_limit rd \<Longrightarrow> 0 < cfg_MaxMessageBytes cfg \<Longrightarrow>
   int (length (clipboard_text c ts from)) \<le> cfg_MaxMessageBytes cfg \<Longrightarrow>
   handleMessage e hk j (read_frame rd cfg (clipboard_text c ts from)) sw =
     handleMessage e hk j (Frame (Some (clipboard_frame c ts from))) sw"
  by (simp add: read_frame_short clipboard_text_read)

text \<open>C16: The default limits do not fit together: an image over 7.5 MiB and up to the image limit of 10 MiB
  that is copied on one desktop is sent to every connected peer (and a received one is
  relayed), but its base64 text is longer than the 10 MiB a receiver reads, whose loop
  then ends with an error: the image is lost and the connection closed.\<close>

theorem large_image_disconnects:
  assumes "respects_limit rd"
    and "cfg_MaxImageBytes (sv_cfg s) = 10 * 1024 * 1024" and "cfg_MaxMessageBytes (sv_cfg r) = 10 * 1024 * 1024"
    and "Kind c = KindImage" and "7864320 < length (Image c)" and "length (Image c) \<le> 10485760"
    and "(p, True) \<in> set (sv_peers s)" and "pok e p"
  shows "SentPeer p (clipboard_frame c (UnixMilli (now e)) from) \<in> set (sv_out (BroadcastLocal e c from s))
    \<and> SentPeer p (clipboard_frame c (UnixMilli (now e)) from) \<in> set (sv_out (Broadcast e c from i s))
    \<and> handleMessage e' hk j (read_frame rd (sv_cfg r) (clipboard_text c (UnixMilli (now e)) from)) (r, w) = (disconnect j r, w)"
proof -
  let ?t = "clipboard_text c (UnixMilli (now e)) from"
  have "4 * ((7864321 + 2) div 3) \<le> 4 * ((length (Image c) + 2) div 3)"
    using assms(5) by (intro mult_le_mono2 div_le_mono) simp
  also have "\<dots> \<le> length ?t"
    using image_text_length [OF assms(4)] .
  finally have "read_frame rd (sv_cfg r) ?t = ReadError"
    using assms(1,3) by (intro read_frame_long) simp_all
  moreover have "\<not> too_big s c"
    using assms(2,6) by (simp add: too_big_def)
  ultimately show ?thesis
    using assms(7,8) by (force simp: BroadcastLocal_append Broadcast_append peer_events_def handleMessage_def Let_def)
qed

lemma ex_limits: "cfg_MaxMessageBytes ex_config = 10 * 1024 * 1024"
  by (simp add: ex_config_def Default_def Let_def)

theorem large_image_disconnects_witness:
  "handleMessage ex_env ex_hooks ''1''
     (read_frame (\<lambda>n t. if int (length t) \<le> n then Some t else None) ex_config
       (clipboard_text (image_content (replicate 8000000 0) ''image/png'') (UnixMilli (now ex_env)) ''desk''))
     (ex_server, []) = (disconnect ''1'' ex_server, [])"
  using large_image_disconnects [of "\<lambda>n t. if int (length t) \<le> n then Some t else None"
      "ex_server\<lparr>sv_peers := [(0, True)]\<rparr>" ex_server "image_content (replicate 8000000 0) ''image/png''" 0 ex_env
      "''desk''" "[]" ex_env ex_hooks "''1''" "[]"]
  by (simp add: respects_limit_def ex_limits)

end
