(* ===== verification/Api.thy ===== *)
theory Api
  imports Handshake Wire
begin

text \<open>
  \<open>internal/api\<close>: the local HTTP control API (\<open>types.go\<close>, \<open>server.go\<close>) and its client
  (\<open>client.go\<close>). A request has a method, a path and a body, a response a status and a body,
  the bodies as texts. The two Go
  interfaces the server is given are records of functions on a state, their contract a
  locale, and the WebSocket server is shown to meet it. The HTTP transport is a parameter.
\<close>

section \<open>types.go\<close>

record status_response =
  st_Device :: string
  st_Version :: string
  st_Uptime :: string
  st_Peers :: "client_info list"
  st_TokenAuth :: bool
  st_TLS :: bool
  st_Mode :: string

record send_request =
  sr_Text :: string

text \<open>\<open>Broadcaster\<close> and \<open>StatusSource\<close> over a state \<open>'s\<close>.\<close>

record 's broadcaster =
  bc_BroadcastLocal :: "env \<Rightarrow> content \<Rightarrow> string \<Rightarrow> 's \<Rightarrow> 's"

record 's status_source =
  ss_DeviceName :: "'s \<Rightarrow> string"
  ss_Uptime :: "env \<Rightarrow> 's \<Rightarrow> duration"
  ss_Clients :: "'s \<Rightarrow> client_info list"
  ss_TokenAuth :: "'s \<Rightarrow> bool"
  ss_TLS :: "'s \<Rightarrow> bool"
  ss_Mode :: "'s \<Rightarrow> string"

section \<open>Durations as text\<close>

text \<open>\<open>Truncate(time.Second)\<close>, towards zero, and \<open>String\<close> on whole seconds.\<close>

definition truncate_seconds :: "duration \<Rightarrow> int" where
  "truncate_seconds d = (if d < 0 then - ((- d) div second) else d div second)"

definition seconds_string :: "int \<Rightarrow> string" where
  "seconds_string n =
     (if n < 0 then ''-'' else []) @
     (let a = \<bar>n\<bar>; h = a div 3600; m = a div 60 mod 60; s = a mod 60 in
      (if 0 < h then Itoa h @ ''h'' else []) @
      (if 0 < h \<or> 0 < m then Itoa m @ ''m'' else []) @ Itoa s @ ''s'')"

section \<open>JSON of the two messages\<close>

definition status_fields :: "status_response field list" where
  "status_fields =
     [(''device'', string_field (\<lambda>s. st_Device_update (\<lambda>_. s))),
      (''version'', string_field (\<lambda>s. st_Version_update (\<lambda>_. s))),
      (''uptime'', string_field (\<lambda>s. st_Uptime_update (\<lambda>_. s))),
      (''peers'', \<lambda>v r.
         case v of
           JArr vs \<Rightarrow>
             map_option (\<lambda>cs. r\<lparr>st_Peers := cs\<rparr>)
               (those (map (\<lambda>j. unmarshal_client_info (Some j)) vs))
         | JNull \<Rightarrow> Some (r\<lparr>st_Peers := []\<rparr>)
         | _ \<Rightarrow> None),
      (''token_auth'', bool_field (\<lambda>b. st_TokenAuth_update (\<lambda>_. b))),
      (''tls'', bool_field (\<lambda>b. st_TLS_update (\<lambda>_. b))),
      (''mode'', string_field (\<lambda>s. st_Mode_update (\<lambda>_. s)))]"

definition zero_status :: status_response where
  "zero_status =
     \<lparr>st_Device = [], st_Version = [], st_Uptime = [], st_Peers = [], st_TokenAuth = False,
      st_TLS = False, st_Mode = []\<rparr>"

definition marshal_status :: "status_response \<Rightarrow> json" where
  "marshal_status r =
     JObj (member_of ''device'' (marshal_string (st_Device r)) @
           member_of ''version'' (marshal_string (st_Version r)) @
           member_of ''uptime'' (marshal_string (st_Uptime r)) @
           member_of ''peers'' (JArr (map marshal_client_info (st_Peers r))) @
           member_of ''token_auth'' (JBool (st_TokenAuth r)) @
           member_of ''tls'' (JBool (st_TLS r)) @
           member_of ''mode'' (marshal_string (st_Mode r)))"

definition unmarshal_status :: "json option \<Rightarrow> status_response option" where
  "unmarshal_status = unmarshal_raw status_fields zero_status"

definition send_fields :: "send_request field list" where
  "send_fields = [(''text'', string_field (\<lambda>s. sr_Text_update (\<lambda>_. s)))]"

definition marshal_send :: "send_request \<Rightarrow> json" where
  "marshal_send r = JObj (member_of ''text'' (marshal_string (sr_Text r)))"

definition unmarshal_send :: "json option \<Rightarrow> send_request option" where
  "unmarshal_send = unmarshal_raw send_fields \<lparr>sr_Text = []\<rparr>"

text \<open>The values before \<open>Marshal\<close> replaces invalid bytes.\<close>

definition client_info_value :: "client_info \<Rightarrow> json" where
  "client_info_value c =
     JObj [(''id'', JStr (ci_ID c)), (''name'', JStr (ci_Name c)), (''platform'', JStr (ci_Platform c)),
           (''version'', JStr (ci_Version c)), (''ip'', JStr (ci_IP c))]"

definition status_value :: "status_response \<Rightarrow> json" where
  "status_value r =
     JObj [(''device'', JStr (st_Device r)), (''version'', JStr (st_Version r)), (''uptime'', JStr (st_Uptime r)),
           (''peers'', JArr (map client_info_value (st_Peers r))), (''token_auth'', JBool (st_TokenAuth r)),
           (''tls'', JBool (st_TLS r)), (''mode'', JStr (st_Mode r))]"

definition send_value :: "send_request \<Rightarrow> json" where
  "send_value r = JObj [(''text'', JStr (sr_Text r))]"

section \<open>server.go\<close>

record request =
  rq_Method :: string
  rq_Path :: string
  rq_Body :: string

record response =
  rs_Status :: nat
  rs_Body :: string

definition http_error :: "nat \<Rightarrow> string \<Rightarrow> response" where
  "http_error n msg = \<lparr>rs_Status = n, rs_Body = msg @ [CHR 0x0A]\<rparr>"

definition write_json :: "json \<Rightarrow> response" where
  "write_json j = \<lparr>rs_Status = 200, rs_Body = Encode j\<rparr>"

definition handleStatus ::
    "env \<Rightarrow> string \<Rightarrow> 's status_source \<Rightarrow> request \<Rightarrow> 's \<Rightarrow> response" where
  "handleStatus e version src r s =
     (if rq_Method r \<noteq> ''GET'' then http_error 405 ''method not allowed''
      else write_json (status_value
        \<lparr>st_Device = ss_DeviceName src s, st_Version = version,
         st_Uptime = seconds_string (truncate_seconds (ss_Uptime src e s)),
         st_Peers = ss_Clients src s, st_TokenAuth = ss_TokenAuth src s, st_TLS = ss_TLS src s,
         st_Mode = ss_Mode src s\<rparr>))"

definition handleSend ::
    "env \<Rightarrow> 's status_source \<Rightarrow> 's broadcaster \<Rightarrow> request \<Rightarrow> 's \<Rightarrow> response \<times> 's" where
  "handleSend e src bc r s =
     (if rq_Method r \<noteq> ''POST'' then (http_error 405 ''method not allowed'', s)
      else
        (case unmarshal_send (Decode (rq_Body r)) of
           None \<Rightarrow> (http_error 400 ''bad json'', s)
         | Some req \<Rightarrow>
             if sr_Text req = [] then (http_error 400 ''text required'', s)
             else (write_json (JObj [(''ok'', JBool True)]),
                   bc_BroadcastLocal bc e (text_content (sr_Text req)) (ss_DeviceName src s) s)))"

text \<open>\<open>Handler\<close>: the mux with its two exact paths.\<close>

definition Handler ::
    "env \<Rightarrow> string \<Rightarrow> 's status_source \<Rightarrow> 's broadcaster \<Rightarrow> request \<Rightarrow> 's \<Rightarrow> response \<times> 's" where
  "Handler e version src bc r s =
     (if rq_Path r = ''/status'' then (handleStatus e version src r s, s)
      else if rq_Path r = ''/send'' then handleSend e src bc r s
      else (http_error 404 ''404 page not found'', s))"

section \<open>client.go\<close>

text \<open>A transport delivers a request and gives the response, or fails with an error.\<close>

datatype transport_error = ConnRefused | TransportError string

datatype send_result = SendOk | SendFailed transport_error | DaemonError nat string

definition client_Send ::
    "(request \<Rightarrow> 's \<Rightarrow> (transport_error + response) \<times> 's) \<Rightarrow> string \<Rightarrow> 's \<Rightarrow> send_result \<times> 's" where
  "client_Send http t s =
     (case http \<lparr>rq_Method = ''POST'', rq_Path = ''/send'', rq_Body = Marshal (send_value \<lparr>sr_Text = t\<rparr>)\<rparr> s of
        (Inl err, s') \<Rightarrow> (SendFailed err, s')
      | (Inr resp, s') \<Rightarrow>
          (if rs_Status resp \<noteq> 200 then DaemonError (rs_Status resp) (TrimSpace (rs_Body resp)) else SendOk, s'))"

datatype status_error = StatusTransport transport_error | StatusDaemon nat | StatusDecode

definition client_Status ::
    "(request \<Rightarrow> 's \<Rightarrow> (transport_error + response) \<times> 's) \<Rightarrow> 's
     \<Rightarrow> (status_error + status_response) \<times> 's" where
  "client_Status http s =
     (case http \<lparr>rq_Method = ''GET'', rq_Path = ''/status'', rq_Body = []\<rparr> s of
        (Inl err, s') \<Rightarrow> (Inl (StatusTransport err), s')
      | (Inr resp, s') \<Rightarrow>
          (if rs_Status resp \<noteq> 200 then Inl (StatusDaemon (rs_Status resp))
           else case unmarshal_status (Decode (rs_Body resp)) of
             None \<Rightarrow> Inl StatusDecode | Some st \<Rightarrow> Inr st, s'))"

text \<open>The transport to a daemon that is up: its handler answers.\<close>

definition local_http ::
    "env \<Rightarrow> string \<Rightarrow> 's status_source \<Rightarrow> 's broadcaster
     \<Rightarrow> request \<Rightarrow> 's \<Rightarrow> (transport_error + response) \<times> 's" where
  "local_http e version src bc r s = (case Handler e version src bc r s of (resp, s') \<Rightarrow> (Inr resp, s'))"

section \<open>The contract of the two interfaces\<close>

text \<open>
  What the API relies on: broadcasting does not change what the status reports, apart from the
  clock.
\<close>

locale api_backend =
  fixes src :: "'s status_source"
    and bc :: "'s broadcaster"
  assumes broadcast_status:
      "ss_DeviceName src (bc_BroadcastLocal bc e c from s) = ss_DeviceName src s"
      "ss_Uptime src e' (bc_BroadcastLocal bc e c from s) = ss_Uptime src e' s"
      "ss_Clients src (bc_BroadcastLocal bc e c from s) = ss_Clients src s"
      "ss_TokenAuth src (bc_BroadcastLocal bc e c from s) = ss_TokenAuth src s"
      "ss_TLS src (bc_BroadcastLocal bc e c from s) = ss_TLS src s"
      "ss_Mode src (bc_BroadcastLocal bc e c from s) = ss_Mode src s"
begin

lemma send_keeps_status:
  "handleStatus e' v src r (snd (handleSend e src bc r' s)) = handleStatus e' v src r s"
  by (simp add: handleStatus_def handleSend_def broadcast_status split: option.split)

lemma requests_keep_status:
  "handleStatus e' v src r (snd (Handler e v' src bc r' s)) = handleStatus e' v src r s"
  by (simp add: Handler_def send_keeps_status)

end

definition ws_source :: "server status_source" where
  "ws_source =
     \<lparr>ss_DeviceName = DeviceName, ss_Uptime = Uptime, ss_Clients = Clients, ss_TokenAuth = TokenAuth,
      ss_TLS = TLS, ss_Mode = Mode\<rparr>"

definition ws_broadcaster :: "server broadcaster" where
  "ws_broadcaster = \<lparr>bc_BroadcastLocal = BroadcastLocal\<rparr>"

interpretation ws: api_backend ws_source ws_broadcaster
  by unfold_locales
    (simp_all add: ws_source_def ws_broadcaster_def BroadcastLocal_append DeviceName_def Uptime_def
      Clients_def TokenAuth_def TLS_def Mode_def)

section \<open>Properties\<close>

lemma find_status_fields [simp]:
  "find_field status_fields ''device'' = Some (string_field (\<lambda>s. st_Device_update (\<lambda>_. s)))"
  "find_field status_fields ''version'' = Some (string_field (\<lambda>s. st_Version_update (\<lambda>_. s)))"
  "find_field status_fields ''uptime'' = Some (string_field (\<lambda>s. st_Uptime_update (\<lambda>_. s)))"
  "find_field status_fields ''token_auth'' = Some (bool_field (\<lambda>b. st_TokenAuth_update (\<lambda>_. b)))"
  "find_field status_fields ''tls'' = Some (bool_field (\<lambda>b. st_TLS_update (\<lambda>_. b)))"
  "find_field status_fields ''mode'' = Some (string_field (\<lambda>s. st_Mode_update (\<lambda>_. s)))"
  "find_field status_fields ''peers'' =
     Some (\<lambda>v r.
         case v of
           JArr vs \<Rightarrow>
             map_option (\<lambda>cs. r\<lparr>st_Peers := cs\<rparr>)
               (those (map (\<lambda>j. unmarshal_client_info (Some j)) vs))
         | JNull \<Rightarrow> Some (r\<lparr>st_Peers := []\<rparr>)
         | _ \<Rightarrow> None)"
  by (simp_all add: find_field_def status_fields_def fold_char_def Let_def)

lemma find_send_field [simp]:
  "find_field send_fields ''text'' = Some (string_field (\<lambda>s. sr_Text_update (\<lambda>_. s)))"
  by (simp add: find_field_def send_fields_def fold_char_def Let_def)

lemma bool_field_bool [simp]: "bool_field upd (JBool b) r = Some (upd b r)"
  by (simp add: bool_field_def)

definition valid_client_info :: "client_info \<Rightarrow> client_info" where
  "valid_client_info c =
     \<lparr>ci_ID = to_valid_utf8 (ci_ID c), ci_Name = to_valid_utf8 (ci_Name c),
      ci_Platform = to_valid_utf8 (ci_Platform c), ci_Version = to_valid_utf8 (ci_Version c),
      ci_IP = to_valid_utf8 (ci_IP c)\<rparr>"

lemma those_client_infos:
  "those (map (\<lambda>j. unmarshal_client_info (Some j)) (map marshal_client_info cs)) =
     Some (map valid_client_info cs)"
  by (induction cs) (simp_all add: valid_client_info_def)

lemma unmarshal_marshal_status:
  "unmarshal_status (Some (marshal_status r)) =
     Some \<lparr>st_Device = to_valid_utf8 (st_Device r), st_Version = to_valid_utf8 (st_Version r),
           st_Uptime = to_valid_utf8 (st_Uptime r), st_Peers = map valid_client_info (st_Peers r),
           st_TokenAuth = st_TokenAuth r, st_TLS = st_TLS r, st_Mode = to_valid_utf8 (st_Mode r)\<rparr>"
  using those_client_infos [of "st_Peers r"]
  by (simp add: unmarshal_status_def marshal_status_def store_members_append store_member_of
      zero_status_def del: map_map)

lemma unmarshal_marshal_send [simp]:
  "unmarshal_send (Some (marshal_send r)) = Some \<lparr>sr_Text = to_valid_utf8 (sr_Text r)\<rparr>"
  by (simp add: unmarshal_send_def marshal_send_def store_member_of)

text \<open>The texts of the two messages are read back.\<close>

lemma api_values:
  "with_valid_strings (client_info_value c) = marshal_client_info c"
  "with_valid_strings (status_value r) = marshal_status r"
  "with_valid_strings (send_value q) = marshal_send q"
  by (simp_all add: client_info_value_def status_value_def send_value_def marshal_client_info_def
      marshal_status_def marshal_send_def marshal_string_def member_of_def valid_utf8_ascii byte_in_def comp_def)

lemma api_values_shallow:
  "well_formed (client_info_value c)" "0 < d \<Longrightarrow> within_depth d (client_info_value c)"
  "well_formed (status_value r)" "within_depth 10000 (status_value r)"
  "well_formed (send_value q)" "within_depth 10000 (send_value q)"
  by (simp_all add: client_info_value_def status_value_def send_value_def list_all_iff)

lemma Decode_status: "Decode (Encode (status_value r)) = Some (marshal_status r)"
  by (simp add: Decode_Encode api_values_shallow api_values)

lemma Decode_send: "Decode (Marshal (send_value q)) = Some (marshal_send q)"
  using Decode_Marshal [of "send_value q" "[]"] by (simp add: api_values_shallow api_values stops_def)

lemma trimmed_error: "TrimSpace (''text required'' @ [CHR 0x0A]) = ''text required''"
  by code_simp

text \<open>C29: \<open>clipshare send\<close> through a running daemon: the text arrives at the broadcast of local
  changes as valid UTF-8 under the daemon's device name; an empty text is refused and changes
  nothing; a request to another path or with another method changes nothing either.\<close>

theorem send_end_to_end:
  "client_Send (local_http e v ws_source ws_broadcaster) t s =
     (if t = [] then (DaemonError 400 ''text required'', s)
      else (SendOk, BroadcastLocal e (text_content (to_valid_utf8 t)) (DeviceName s) s))
   \<and> (rq_Path r \<noteq> ''/send'' \<or> rq_Method r \<noteq> ''POST'' \<longrightarrow>
        snd (Handler e v ws_source ws_broadcaster r s) = s)"
  by (auto simp: client_Send_def local_http_def Handler_def handleSend_def http_error_def write_json_def
      ws_source_def ws_broadcaster_def Decode_send trimmed_error [simplified])

theorem send_end_to_end_witness:
  "client_Send (local_http ex_env ''1'' ws_source ws_broadcaster) ''hi'' ex_server =
     (SendOk, BroadcastLocal ex_env (text_content (to_valid_utf8 ''hi'')) (DeviceName ex_server) ex_server) \<and>
   snd (Handler ex_env ''1'' ws_source ws_broadcaster
     \<lparr>rq_Method = ''GET'', rq_Path = ''/send'', rq_Body = []\<rparr> ex_server) = ex_server"
  using send_end_to_end [of ex_env "''1''" "''hi''" ex_server
      "\<lparr>rq_Method = ''GET'', rq_Path = ''/send'', rq_Body = []\<rparr>"] by simp

text \<open>The status of the daemon, and that no request of the API changes it.\<close>

lemma status_shown:
  "client_Status (local_http e v ws_source ws_broadcaster) s =
     (Inr \<lparr>st_Device = to_valid_utf8 (cfg_DeviceName (sv_cfg s)), st_Version = to_valid_utf8 v,
           st_Uptime = to_valid_utf8 (seconds_string (truncate_seconds (Uptime e s))),
           st_Peers = map valid_client_info (Clients s), st_TokenAuth = TokenAuth s, st_TLS = TLS s,
           st_Mode = to_valid_utf8 (Mode s)\<rparr>, s)
   \<and> handleStatus e' v ws_source r (snd (Handler e v ws_source ws_broadcaster r' s)) =
       handleStatus e' v ws_source r s"
proof
  show "handleStatus e' v ws_source r (snd (Handler e v ws_source ws_broadcaster r' s)) =
       handleStatus e' v ws_source r s"
    by (rule ws.requests_keep_status)
qed (simp add: client_Status_def local_http_def Handler_def handleStatus_def http_error_def write_json_def
    Decode_status unmarshal_marshal_status, simp add: ws_source_def DeviceName_def)

end
