(* ===== verification/Oneshot.thy ===== *)
theory Oneshot
  imports Api ClipBackends
begin

text \<open>
  The two commands that run a short-lived server: \<open>clipshare send\<close>
  (\<open>cli/commands/send/send.go\<close>) and \<open>clipshare watch\<close> (\<open>cli/commands/watch/watch.go\<close>). The
  server is the one of \<open>Server\<close> with other callbacks. The lemmas: what \<open>send\<close> decides, that a
  one-shot server sends its content once, that \<open>watch\<close> ends with the first content it wrote.
\<close>

section \<open>send: what to do\<close>

text \<open>The arguments: the flag, and the text made of the others.\<close>

definition send_args :: "string list \<Rightarrow> bool \<times> string" where
  "send_args args =
     (''--oneshot'' \<in> set args, Join (filter (\<lambda>a. a \<noteq> ''--oneshot'') args) '' '')"

datatype send_outcome =
    SendError string
  | OneShot content
  | Sent_by_daemon
  | Daemon_refused send_result

text \<open>
  \<open>Run\<close>: \<open>clipboard\<close> is what opening and reading the clipboard gives, \<open>api\<close> what posting
  the text to a daemon gives.
\<close>

definition send_text :: "string + content \<Rightarrow> string \<Rightarrow> string + string" where
  "send_text clipboard t =
     (if TrimSpace t \<noteq> [] then Inr t
      else
        (case clipboard of
           Inl err \<Rightarrow> Inl err
         | Inr c \<Rightarrow>
             if Kind c \<noteq> KindText \<or> TrimSpace (Text c) = [] then Inl ''clipboard is empty''
             else Inr (Text c)))"

definition send_Run :: "string + content \<Rightarrow> (string \<Rightarrow> send_result) \<Rightarrow> string list \<Rightarrow> send_outcome" where
  "send_Run clipboard api args =
     (case send_text clipboard (snd (send_args args)) of
        Inl err \<Rightarrow> SendError err
      | Inr t \<Rightarrow>
          if fst (send_args args) then OneShot (text_content t)
          else
            (case api t of
               SendOk \<Rightarrow> Sent_by_daemon
             | SendFailed err \<Rightarrow>
                 (case err of
                    ConnRefused \<Rightarrow> OneShot (text_content t)
                  | TransportError m \<Rightarrow> Daemon_refused (SendFailed err))
             | DaemonError n b \<Rightarrow> Daemon_refused (DaemonError n b)))"

section \<open>send: the one-shot server\<close>

text \<open>The connect hook with its \<open>sync.Once\<close>; the state is whether \<open>delivered\<close> is closed.\<close>

definition oneshot_hook :: "content \<Rightarrow> env \<Rightarrow> server \<times> bool \<Rightarrow> server \<times> bool" where
  "oneshot_hook c e sd =
     (if snd sd then sd
      else (BroadcastLocal e c (cfg_DeviceName (sv_cfg (fst sd))) (fst sd), True))"

definition oneshot_hooks :: "content \<Rightarrow> bool hooks" where
  "oneshot_hooks c =
     SetConnectHook (Some (oneshot_hook c))
       \<lparr>onRemoteClip = Some (\<lambda>c from d. d), onClientConnect = None\<rparr>"

definition oneshot_start :: "env \<Rightarrow> config \<Rightarrow> string \<Rightarrow> server \<times> bool" where
  "oneshot_start e cfg v = (SetMaxClients 1 (New e cfg v), False)"

text \<open>
  When \<open>runOneShot\<close> returns, counted from its select: after the timeout, or a grace period
  after the delivery if that comes first, or at an interrupt.
\<close>

definition earliest :: "duration \<Rightarrow> duration option \<Rightarrow> duration" where
  "earliest t i = (case i of None \<Rightarrow> t | Some j \<Rightarrow> min t j)"

definition oneshot_end :: "timing \<Rightarrow> duration option \<Rightarrow> duration option \<Rightarrow> duration" where
  "oneshot_end t interrupted delivered =
     (case delivered of
        None \<Rightarrow> earliest (OneShotTimeout t) interrupted
      | Some d \<Rightarrow>
          if d < earliest (OneShotTimeout t) interrupted then earliest (d + OneShotGrace t) interrupted
          else earliest (OneShotTimeout t) interrupted)"

section \<open>watch\<close>

text \<open>
  The arguments; \<open>parse\<close> is \<open>time.ParseDuration\<close>. \<open>None\<close> is the usage or a parse error.
\<close>

fun watch_args :: "(string \<Rightarrow> duration option) \<Rightarrow> duration \<Rightarrow> string list \<Rightarrow> duration option" where
  "watch_args parse d [] = Some d"
| "watch_args parse d [a] = None"
| "watch_args parse d (a # b # xs) =
     (if a = ''--timeout'' then
        (case parse b of None \<Rightarrow> None | Some t \<Rightarrow> watch_args parse t xs)
      else None)"

definition watch_timeout :: "config \<Rightarrow> duration \<Rightarrow> duration" where
  "watch_timeout cfg t = (if t \<le> 0 then WatchRemoteTimeout (cfg_Timing cfg) else t)"

text \<open>
  The callback of \<open>run\<close>: the state is whether \<open>received\<close> is closed, what was printed (the
  origins of the contents written) and the desktop.
\<close>

record 'w watch_state =
  ws_received :: bool
  ws_printed :: "string list"
  ws_desk :: 'w

definition watch_callback ::
    "'w write_fn \<Rightarrow> content \<Rightarrow> string \<Rightarrow> 'w watch_state \<Rightarrow> 'w watch_state" where
  "watch_callback wr c from st =
     (if (case Kind c of KindImage \<Rightarrow> Image c = [] | KindText \<Rightarrow> Text c = []) then st
      else
        (case wr c (ws_desk st) of
           (Some err, w') \<Rightarrow> st\<lparr>ws_desk := w'\<rparr>
         | (None, w') \<Rightarrow>
             st\<lparr>ws_received := True, ws_printed := ws_printed st @ [from], ws_desk := w'\<rparr>))"

definition watch_hooks :: "'w write_fn \<Rightarrow> 'w watch_state hooks" where
  "watch_hooks wr = \<lparr>onRemoteClip = Some (watch_callback wr), onClientConnect = None\<rparr>"

section \<open>The one-shot server sends its content once\<close>

lemma oneshot_hook_ok: "hook_ok (oneshot_hooks c)"
  by (auto simp: hook_ok_def oneshot_hooks_def SetConnectHook_def run_connect_hook_def oneshot_hook_def
      BroadcastLocal_append)

interpretation oneshot: machine "\<lambda>sd. new_server 1 (fst sd)" "server_step (oneshot_hooks c)"
    "\<lambda>sd. server_inv (fst sd)" for c
  by unfold_locales (auto intro: server_inv_new server_inv_step oneshot_hook_ok)

text \<open>The clipboard frames written to clients.\<close>

definition clips :: "out_event list \<Rightarrow> out_event list" where
  "clips xs = filter (\<lambda>x. case x of Sent i m \<Rightarrow> is_clip_frame m | _ \<Rightarrow> False) xs"

lemma clips_simps [simp]:
  "clips [] = []" "clips (xs @ ys) = clips xs @ clips ys"
  "clips [Sent i m] = (if is_clip_frame m then [Sent i m] else [])"
  "clips [Closed i r] = []" "clips [Refused n] = []" "clips (peer_events e m ps) = []"
  by (simp_all add: clips_def peer_events_def filter_map comp_def)

lemma length_clips_sent: "length (clips (sent_events e m ids)) \<le> length ids"
  by (simp add: clips_def sent_events_def filter_map)

text \<open>What can happen to a one-shot server: there is no watcher and no peer.\<close>

fun oneshot_event :: "event \<Rightarrow> bool" where
  "oneshot_event (Connect t a ok) = True"
| "oneshot_event (Read e i r) = True"
| "oneshot_event _ = False"

definition oneshot_step :: "content \<Rightarrow> event \<Rightarrow> server \<times> bool \<Rightarrow> server \<times> bool" where
  "oneshot_step c x sd = (if oneshot_event x then server_step (oneshot_hooks c) x sd else sd)"

definition oneshot_inv :: "server \<times> bool \<Rightarrow> bool" where
  "oneshot_inv sd \<longleftrightarrow>
     server_inv (fst sd) \<and> sv_maxClients (fst sd) = 1 \<and> [] \<notin> client_ids (fst sd) \<and>
     length (clips (sv_out (fst sd))) \<le> (if snd sd then 1 else 0)"

lemma one_client: "oneshot_inv sd \<Longrightarrow> length (sv_clients (fst sd)) \<le> 1"
  by (auto simp: oneshot_inv_def server_inv_def)

lemma no_other_client:
  assumes "length (sv_clients s) \<le> 1" and "i \<in> client_ids s" and "i \<noteq> []"
  shows "relay_ids i s = []"
  using assms
  by (cases "sv_clients s") (auto simp: relay_ids_def client_ids_def)

lemma length_local_ids: "length (local_ids e c s) \<le> length (sv_clients s)"
  by (simp add: local_ids_def)

lemma static_oneshot: "static (fst (server_step (oneshot_hooks c) x sd)) = static (fst sd)"
  by (rule static_step_hook)
    (simp add: run_connect_hook_def oneshot_hooks_def SetConnectHook_def oneshot_hook_def)

text \<open>The frames after a message, a handshake, a connection.\<close>

lemma clips_cl_write [simp]:
  "clips (sv_out (cl_write e i m s)) =
     clips (sv_out s) @ (if wok e i \<and> is_clip_frame m then [Sent i m] else [])"
  by (simp add: cl_write_append)

lemma clips_disconnect [simp]: "clips (sv_out (disconnect i s)) = clips (sv_out s)"
  by simp

lemma clips_reject [simp]: "clips (sv_out (reject e i code msg s)) = clips (sv_out s)"
  by (simp add: reject_def sendError_def)

lemma clips_handleWS [simp]: "clips (sv_out (fst (handleWS t a ok s))) = clips (sv_out s)"
  using newID_fields(5) [of s] by (auto simp: handleWS_def Let_def case_prod_beta)

lemma clips_handleClipboard:
  assumes "length (sv_clients s) \<le> 1" and "i \<in> client_ids s" and "i \<noteq> []"
  shows "clips (sv_out (fst (handleClipboard e (oneshot_hooks c) i m (s, d)))) = clips (sv_out s)
    \<and> snd (handleClipboard e (oneshot_hooks c) i m (s, d)) = d"
proof (cases "MsgToContent m")
  case (Some k)
  then show ?thesis
    using no_other_client [OF assms]
    by (cases "is_echo e (ContentKey k) s")
      (simp_all add: handleClipboard_echo handleClipboard_first sv_out_relayed sent_events_def
        run_remote_hook_def oneshot_hooks_def SetConnectHook_def)
qed (simp add: handleClipboard_empty)

lemma clips_handleMessage:
  assumes "length (sv_clients s) \<le> 1" and "i \<in> client_ids s" and "i \<noteq> []"
  shows "clips (sv_out (fst (handleMessage e (oneshot_hooks c) i r (s, d)))) = clips (sv_out s)
    \<and> snd (handleMessage e (oneshot_hooks c) i r (s, d)) = d"
  using clips_handleClipboard [OF assms]
  by (auto simp: handleMessage_def Let_def sendError_def pong_def split: read_result.split option.split)

lemma clips_accept_hello:
  assumes "length (sv_clients s) \<le> 1"
  shows "length (clips (sv_out (fst (accept_hello e (oneshot_hooks c) i h (s, d))))) \<le>
      length (clips (sv_out s)) + (if d then 0 else 1)
    \<and> snd (accept_hello e (oneshot_hooks c) i h (s, d))"
proof -
  let ?s1 = "update_client i (set_hello h) s"
  have s1: "sv_out ?s1 = sv_out s" "length (sv_clients ?s1) \<le> 1"
    using assms by (simp_all add: update_client_def)
  have "length (clips (sv_out (BroadcastLocal e c from ?s1))) \<le> length (clips (sv_out s)) + 1" for "from"
    using le_trans [OF length_clips_sent length_local_ids [of e c ?s1]] s1
    by (simp add: BroadcastLocal_append) (meson le_trans)
  moreover have out: "sv_out (update_client i f s') = sv_out s'" for f s'
    by (simp add: update_client_def)
  ultimately show ?thesis
    by (cases d)
      (simp_all add: accept_hello_def run_connect_hook_def oneshot_hooks_def SetConnectHook_def
        oneshot_hook_def Let_def)
qed

lemma clips_handleHello:
  assumes "length (sv_clients s) \<le> 1"
  shows "length (clips (sv_out (fst (handleHello e (oneshot_hooks c) i r (s, d))))) \<le>
      length (clips (sv_out s)) +
      (if snd (handleHello e (oneshot_hooks c) i r (s, d)) \<and> \<not> d then 1 else 0)
    \<and> (d \<longrightarrow> snd (handleHello e (oneshot_hooks c) i r (s, d)))"
proof (cases "\<exists>h. hello_accepted s i r h")
  case True
  then obtain h where "hello_accepted s i r h" by blast
  then show ?thesis
    using clips_accept_hello [OF assms, of e c i h d] by (auto simp: handleHello_accepted)
next
  case False
  then obtain xs where *: "handleHello e (oneshot_hooks c) i r (s, d) = (disconnect i (append_out xs s), d)"
    using handleHello_rejected [of s i r e "oneshot_hooks c" d] by blast
  have "clips (sv_out (fst (handleHello e (oneshot_hooks c) i r (s, d)))) = clips (sv_out s)"
    using False
    by (auto simp: handleHello_def hello_accepted_def Let_def split: read_result.split option.split)
  then show ?thesis
    using * by (cases d) auto
qed

text \<open>No client is ever called by the empty name.\<close>

lemma client_ids_handleHello: "client_ids (fst (handleHello e (oneshot_hooks c) i r (s, d))) \<subseteq> client_ids s"
  by (auto simp: handleHello_def Let_def reject_def sendError_def accept_hello_def run_connect_hook_def
      oneshot_hooks_def SetConnectHook_def oneshot_hook_def
      split: read_result.splits option.splits if_splits)

lemma client_ids_oneshot:
  assumes "[] \<notin> client_ids (fst sd)"
  shows "[] \<notin> client_ids (fst (server_step (oneshot_hooks c) x sd))"
proof (cases x)
  case (Connect t a ok)
  then show ?thesis
    using assms client_ids_handleWS [of t a ok "fst sd"] newID_nonempty [of "fst sd"]
    by (cases sd) (auto simp del: newID_nonempty)
next
  case (Read e i r)
  then show ?thesis
    using assms client_ids_handleMessage [of e "oneshot_hooks c" i r "fst sd" "snd sd"]
      client_ids_handleHello [of e c i r "fst sd" "snd sd"]
    by (cases sd) (auto split: option.split bool.split)
qed (use assms in \<open>cases sd; simp add: client_ids_def registerPeer_def unregisterPeer_def BroadcastLocal_append\<close>)+

lemma clips_read:
  assumes "oneshot_inv (s, d)"
  shows "length (clips (sv_out (fst (server_step (oneshot_hooks c) (Read e i r) (s, d))))) \<le>
    (if snd (server_step (oneshot_hooks c) (Read e i r) (s, d)) then 1 else 0)"
proof (cases "client_ready i s")
  case None
  then show ?thesis using assms by (simp add: oneshot_inv_def)
next
  case (Some b)
  have "i \<in> client_ids s"
    using keys_of_ready [OF Some] .
  moreover have "i \<noteq> []"
    using calculation assms by (auto simp: oneshot_inv_def)
  moreover have "length (sv_clients s) \<le> 1"
    using one_client [OF assms] by simp
  ultimately show ?thesis
    using Some assms clips_handleMessage [of s i e c r d] clips_handleHello [of s e c i r d]
    by (cases b; cases d) (auto simp: oneshot_inv_def split: if_splits)
qed

lemma oneshot_inv_step:
  assumes "oneshot_inv sd"
  shows "oneshot_inv (oneshot_step c x sd)"
proof -
  obtain s d where sd: "sd = (s, d)" by (cases sd)
  have "server_inv (fst (server_step (oneshot_hooks c) x sd))"
    using assms oneshot.inv_step [of sd c x] by (simp add: oneshot_inv_def)
  moreover have "sv_maxClients (fst (server_step (oneshot_hooks c) x sd)) = 1"
    using static_fields [OF static_oneshot [of c x sd]] assms by (simp add: oneshot_inv_def)
  moreover have "[] \<notin> client_ids (fst (server_step (oneshot_hooks c) x sd))"
    using assms client_ids_oneshot by (simp add: oneshot_inv_def)
  moreover have "oneshot_event x \<Longrightarrow> length (clips (sv_out (fst (server_step (oneshot_hooks c) x sd)))) \<le>
      (if snd (server_step (oneshot_hooks c) x sd) then 1 else 0)"
    using assms clips_read [of s d c] sd by (cases x) (auto simp: oneshot_inv_def)
  ultimately show ?thesis
    using assms by (simp add: oneshot_step_def oneshot_inv_def)
qed

interpretation once: machine "\<lambda>sd. \<exists>e cfg v. sd = oneshot_start e cfg v" "oneshot_step c" oneshot_inv
    for c
proof
  fix sd
  assume "\<exists>e cfg v. sd = oneshot_start e cfg v"
  then show "oneshot_inv sd"
    by (auto simp: oneshot_inv_def oneshot_start_def server_inv_def SetMaxClients_def New_def client_ids_def)
qed (rule oneshot_inv_step)

text \<open>C28: a one-shot server writes its content at most once: in any run, whatever connections come
  and whatever the clients send (including clipboard messages of their own), at most one
  clipboard frame is ever written to a client, and none before the hook has run.\<close>

theorem oneshot_sends_once:
  "length (clips (sv_out (fst (fold (oneshot_step c) es (oneshot_start e cfg v))))) \<le>
     (if snd (fold (oneshot_step c) es (oneshot_start e cfg v)) then 1 else 0)"
proof -
  have "oneshot_inv (fold (oneshot_step c) es (oneshot_start e cfg v))"
    by (rule once.inv_reachable) auto
  then show ?thesis
    by (simp add: oneshot_inv_def)
qed

text \<open>A client that completes its handshake with a one-shot server gets the content first and
  the server's hello after it, and the server then ends a grace period later.\<close>

lemma oneshot_delivers_before_hello:
  assumes "server_inv s" and "map_of (sv_clients s) i = Some cl" and "wok e i"
    and "hello_accepted s i r h"
    and "\<not> recentlySent e (ContentKey c) (EchoWindow (cfg_Timing (sv_cfg s))) cl"
  shows "sent_to i (sv_out (fst (handleHello e (oneshot_hooks c) i r (s, False)))) =
      sent_to i (sv_out s) @
        [clipboard_frame c (UnixMilli (now e)) (cfg_DeviceName (sv_cfg s)), hello_frame (own_hello s)]
    \<and> snd (handleHello e (oneshot_hooks c) i r (s, False))"
proof -
  let ?s1 = "update_client i (set_hello h) s"
  let ?s2 = "BroadcastLocal e c (cfg_DeviceName (sv_cfg s)) ?s1"
  have d: "distinct (keys (sv_clients ?s1))"
    using assms(1) by (simp add: server_inv_def update_client_def)
  have cl: "map_of (sv_clients ?s1) i = Some (set_hello h cl)"
    using assms(2) by simp
  have cfg: "sv_cfg ?s1 = sv_cfg s" "sv_out ?s1 = sv_out s" "sv_version ?s1 = sv_version s"
    by (simp_all add: update_client_def)
  have "i \<in> set (local_ids e c ?s1)"
    using local_ids_iff [OF d cl, of e c] assms(5) cfg by (simp add: recentlySent_def set_hello_def)
  then have two: "sent_to i (sv_out ?s2) = sent_to i (sv_out s) @
      [clipboard_frame c (UnixMilli (now e)) (cfg_DeviceName (sv_cfg s))]"
    using assms(3) cfg by (simp add: BroadcastLocal_append sent_to_sent_events [OF distinct_local_ids [OF d]])
  have "own_hello ?s2 = own_hello s"
    using cfg by (simp add: own_hello_def BroadcastLocal_append)
  moreover have "fst (accept_hello e (oneshot_hooks c) i h (s, False)) =
      update_client i (\<lambda>c. c\<lparr>cl_ready := True\<rparr>) (cl_write e i (hello_frame (own_hello ?s2)) ?s2)
      \<and> snd (accept_hello e (oneshot_hooks c) i h (s, False))"
    using cfg(1) by (simp add: accept_hello_def run_connect_hook_def oneshot_hooks_def SetConnectHook_def
        oneshot_hook_def Let_def)
  ultimately show ?thesis
    using two assms(3)
    by (simp add: handleHello_accepted [OF assms(4)]) (simp add: update_client_def cl_write_append)
qed

lemma oneshot_delivers_before_hello_example:
  "sent_to ''1'' (sv_out (fst (handleHello ex_env (oneshot_hooks ex_content) ''1''
      (Frame (Some (hello_frame ex_hello))) (ex_server, False)))) =
     [clipboard_frame ex_content 1700000000000 (cfg_DeviceName ex_config), hello_frame (own_hello ex_server)]"
proof -
  have "hello_accepted ex_server ''1'' (Frame (Some (hello_frame ex_hello))) ex_hello"
    by (simp add: hello_accepted_def del: unmarshal_marshal_hello)
  then show ?thesis
    using oneshot_delivers_before_hello [of ex_server "''1''" "ex_client ''1''" ex_env
        "Frame (Some (hello_frame ex_hello))" ex_hello ex_content]
    by (simp add: recentlySent_def second_def UnixMilli_def)
qed

section \<open>The watch command\<close>

definition watch_inv :: "'w watch_state \<Rightarrow> bool" where
  "watch_inv st \<longleftrightarrow> (ws_received st \<longleftrightarrow> ws_printed st \<noteq> [])"

lemma watch_inv_callback: "watch_inv st \<Longrightarrow> watch_inv (watch_callback wr c from st)"
  by (auto simp: watch_inv_def watch_callback_def split: option.split prod.split)

lemma watch_no_connect_hook [simp]: "onClientConnect (watch_hooks wr) = None"
  by (simp add: watch_hooks_def)

lemma world_invariant:
  assumes "onClientConnect hk = None" and "\<And>c from w. P w \<Longrightarrow> P (run_remote_hook hk c from w)"
    and "P (snd sw)"
  shows "P (snd (server_step hk x sw))"
proof -
  have "P (snd (handleClipboard e hk i m sw))" for e i m
    using assms(2,3) by (auto simp: handleClipboard_def Let_def claim_key_def split: option.split)
  then show ?thesis
    using assms
    by (cases x; cases sw)
      (auto simp: handleHello_def handleMessage_def accept_hello_def run_connect_hook_def Let_def
        split: option.split bool.split read_result.split)
qed

interpretation watching: machine
    "\<lambda>sw. new_server 1 (fst sw) \<and> \<not> ws_received (snd sw) \<and> ws_printed (snd sw) = []"
    "server_step (watch_hooks wr)" "\<lambda>sw. server_inv (fst sw) \<and> watch_inv (snd sw)"
    for wr :: "'w write_fn"
proof
  fix sw :: "server \<times> 'w watch_state" and x
  assume "server_inv (fst sw) \<and> watch_inv (snd sw)"
  then show "server_inv (fst (server_step (watch_hooks wr) x sw)) \<and>
      watch_inv (snd (server_step (watch_hooks wr) x sw))"
    by (auto intro!: server_inv_step world_invariant [where P = watch_inv] watch_inv_callback
        simp: watch_hooks_def run_remote_hook_def)
qed (auto intro: server_inv_new simp: watch_inv_def)

text \<open>\<open>clipshare watch\<close> ends exactly when it has written something: in any run of its server
  the end is signalled if and only if the origin of at least one content has been printed, and
  a push that is no echo and can be written signals it and leaves the content on the desktop,
  while a push whose write fails does not.\<close>

lemma watch_ends_when_written:
  assumes "\<not> ws_received st" and "ws_printed st = []"
    and "server_run (watch_hooks wr) es (SetMaxClients 1 (New e cfg v), st) = (s, st')"
    and "MsgToContent m = Some c" and "\<not> is_echo e' (ContentKey c) s"
  shows "(ws_received st' \<longleftrightarrow> ws_printed st' \<noteq> []) \<and>
    snd (handleClipboard e' (watch_hooks wr) i m (s, st')) =
      (case wr c (ws_desk st') of
         (None, w') \<Rightarrow> st'\<lparr>ws_received := True, ws_printed := ws_printed st' @ [cm_From m], ws_desk := w'\<rparr>
       | (Some err, w') \<Rightarrow> st'\<lparr>ws_desk := w'\<rparr>)"
proof -
  have "watch_inv (snd (fold (server_step (watch_hooks wr)) es (SetMaxClients 1 (New e cfg v), st)))"
    using watching.inv_reachable [of "(SetMaxClients 1 (New e cfg v), st)" wr es] assms(1,2)
    by (auto simp: new_server_def)
  then have "ws_received st' \<longleftrightarrow> ws_printed st' \<noteq> []"
    using assms(3) by (simp add: server_run_def watch_inv_def)
  moreover have "\<not> (case Kind c of KindImage \<Rightarrow> Image c = [] | KindText \<Rightarrow> Text c = [])"
    using assms(4) by (auto simp: MsgToContent_def split: if_splits option.splits)
  ultimately show ?thesis
    using assms(4,5)
    by (simp add: handleClipboard_first run_remote_hook_def watch_hooks_def watch_callback_def)
qed

definition ex_write :: "content list write_fn" where
  "ex_write c w = (None, w @ [c])"

lemma watch_ends_when_written_example:
  "snd (handleClipboard ex_env (watch_hooks ex_write) ''1'' ex_msg
      (SetMaxClients 1 (New ex_env ex_config ''1''),
       \<lparr>ws_received = False, ws_printed = [], ws_desk = []\<rparr>)) =
    \<lparr>ws_received = True, ws_printed = [''phone''], ws_desk = [ex_content]\<rparr>"
  using watch_ends_when_written [of "\<lparr>ws_received = False, ws_printed = [], ws_desk = []\<rparr>" ex_write "[]"
      ex_env ex_config "''1''" "SetMaxClients 1 (New ex_env ex_config ''1'')"
      "\<lparr>ws_received = False, ws_printed = [], ws_desk = []\<rparr>" ex_msg ex_content ex_env "''1''"]
  by (simp add: server_run_def is_echo_def SetMaxClients_def New_def second_def ex_write_def)

section \<open>The decision of send\<close>

text \<open>Nothing blank is ever sent, and a daemon that is not running means one-shot.\<close>

lemma send_Run_oneshot:
  assumes "send_Run cb api args = OneShot c"
  shows "c = text_content (Text c) \<and> TrimSpace (Text c) \<noteq> [] \<and>
    (fst (send_args args) \<or> api (Text c) = SendFailed ConnRefused)"
proof -
  obtain t where t: "send_text cb (snd (send_args args)) = Inr t"
    using assms by (cases "send_text cb (snd (send_args args))") (auto simp: send_Run_def)
  have "TrimSpace t \<noteq> []"
    using t by (auto simp: send_text_def split: if_splits sum.splits)
  then show ?thesis
    using assms t
    by (auto simp: send_Run_def split: if_splits send_result.splits transport_error.splits)
qed

end
