(* ===== verification/Cli.thy ===== *)
theory Cli
  imports Log CertsProps Oneshot
begin

text \<open>
  The command line: dispatch and exit code (\<open>cli/cli.go\<close>), loading the configuration before a
  command (\<open>cli/commands/registry.go\<close>), the flags and subcommands of \<open>clipshare cert\<close>
  (\<open>cli/commands/cert\<close>), and what \<open>clipshare status\<close> prints (\<open>cli/commands/status\<close>). The
  lemmas: a command only runs on a configuration that satisfies its invariants, and the
  certificate flags are read back as they were given.
\<close>

section \<open>Dispatch\<close>

datatype command = DaemonCmd | SendCmd | WatchCmd | StatusCmd | ConfigCmd | CertCmd

definition Registry :: "string \<Rightarrow> command option" where
  "Registry name =
     map_of [(''daemon'', DaemonCmd), (''send'', SendCmd), (''watch'', WatchCmd),
             (''status'', StatusCmd), (''config'', ConfigCmd), (''cert'', CertCmd)] name"

datatype main_result = Usage | PrintVersion | Ran "string option"

text \<open>\<open>Main\<close>; \<open>run\<close> gives the error of a command, if any, and what it leaves.\<close>

definition Main_dispatch ::
    "(command \<Rightarrow> string list \<Rightarrow> 's \<Rightarrow> string option \<times> 's) \<Rightarrow> string list \<Rightarrow> 's \<Rightarrow> main_result \<times> 's" where
  "Main_dispatch run args s =
     (case args of
        [] \<Rightarrow> (Usage, s)
      | a # rest \<Rightarrow>
          if a = ''--version'' \<or> a = ''-v'' \<or> a = ''version'' then (PrintVersion, s)
          else (case Registry a of None \<Rightarrow> (Usage, s) | Some cmd \<Rightarrow> apfst Ran (run cmd rest s)))"

definition exit_code :: "main_result \<Rightarrow> nat" where
  "exit_code r = (case r of Usage \<Rightarrow> 0 | PrintVersion \<Rightarrow> 0 | Ran None \<Rightarrow> 0 | Ran (Some _) \<Rightarrow> 1)"

section \<open>Loading the configuration\<close>

definition configLoader_Run ::
    "process_env \<Rightarrow> (string \<Rightarrow> config \<Rightarrow> decode_result) \<Rightarrow> (string \<Rightarrow> bool)
     \<Rightarrow> (config \<Rightarrow> string list \<Rightarrow> 's \<Rightarrow> string option \<times> 's) \<Rightarrow> string list \<Rightarrow> logger \<times> 's
     \<Rightarrow> string option \<times> logger \<times> 's" where
  "configLoader_Run env decode can_open cmd args ls =
     (case Load env decode of
        Inl err \<Rightarrow> (Some err, ls)
      | Inr cfg \<Rightarrow>
          (case ParseLevel (log_Level (cfg_Log cfg)) of
             (lv, False) \<Rightarrow> (Some ''unknown log level'', ls)
           | (lv, True) \<Rightarrow>
               (case Setup can_open lv (log_File (cfg_Log cfg)) (fst ls) of
                  (False, lg) \<Rightarrow> (Some ''open log file'', lg, snd ls)
                | (True, lg) \<Rightarrow> apsnd (Pair lg) (cmd cfg args (snd ls)))))"

section \<open>cert: the flags\<close>

record flags =
  fl_name :: string
  fl_kind :: string
  fl_out :: string
  fl_ips :: "string list"

record flag_opts =
  allowOut :: bool
  allowIP :: bool

datatype flag_error = NeedsValue string | UnknownFlag string | BadType | NameRequired

definition validate :: "flags \<Rightarrow> flag_error + flags" where
  "validate f =
     (if fl_kind f \<noteq> ''server'' \<and> fl_kind f \<noteq> ''client'' then Inl BadType
      else if fl_name f = [] then Inl NameRequired
      else Inr f)"

text \<open>Storing the value of a flag; \<open>None\<close> for a flag the subcommand does not have.\<close>

definition set_flag :: "flag_opts \<Rightarrow> string \<Rightarrow> (string \<Rightarrow> flags \<Rightarrow> flags) option" where
  "set_flag opts a =
     (if a = ''--name'' then Some (\<lambda>v. fl_name_update (\<lambda>_. v))
      else if a = ''--type'' then Some (\<lambda>v. fl_kind_update (\<lambda>_. v))
      else if a = ''--out'' \<and> allowOut opts then Some (\<lambda>v. fl_out_update (\<lambda>_. v))
      else if a = ''--ip'' \<and> allowIP opts then Some (\<lambda>v. fl_ips_update (\<lambda>_. Split v CHR '',''))
      else None)"

fun parse_loop :: "flag_opts \<Rightarrow> flags \<Rightarrow> string list \<Rightarrow> flag_error + flags" where
  "parse_loop opts f [] = validate f"
| "parse_loop opts f [a] =
     (case set_flag opts a of None \<Rightarrow> Inl (UnknownFlag a) | Some _ \<Rightarrow> Inl (NeedsValue a))"
| "parse_loop opts f (a # v # rest) =
     (case set_flag opts a of
        None \<Rightarrow> Inl (UnknownFlag a)
      | Some st \<Rightarrow> parse_loop opts (st v f) rest)"

definition parseFlags :: "string list \<Rightarrow> flag_opts \<Rightarrow> flag_error + flags" where
  "parseFlags args opts = parse_loop opts \<lparr>fl_name = [], fl_kind = [], fl_out = [], fl_ips = []\<rparr> args"

section \<open>cert: the subcommands\<close>

definition certDir :: "process_env \<Rightarrow> string" where
  "certDir env = path_join [path_dir (Path env), ''certs'']"

datatype cert_error = CertUsage | CertFlag flag_error | CertOp string | UnknownSub string

text \<open>What a subcommand did: its error, the files, and the text on standard output that matters.\<close>

record cert_result =
  cr_error :: "cert_error option"
  cr_files :: files
  cr_output :: string

definition cert_fail :: "cert_error \<Rightarrow> files \<Rightarrow> cert_result" where
  "cert_fail err fs = \<lparr>cr_error = Some err, cr_files = fs, cr_output = []\<rparr>"

definition cert_done :: "string option \<times> files \<Rightarrow> cert_result" where
  "cert_done r = \<lparr>cr_error = map_option CertOp (fst r), cr_files = snd r, cr_output = []\<rparr>"

definition runIssue ::
    "('k, 'c) crypto \<Rightarrow> disk \<Rightarrow> time \<Rightarrow> int \<Rightarrow> string + 'k \<Rightarrow> string \<Rightarrow> string list \<Rightarrow> files \<Rightarrow> cert_result" where
  "runIssue cr d t serial key dir args fs =
     (case parseFlags args \<lparr>allowOut = False, allowIP = True\<rparr> of
        Inl err \<Rightarrow> cert_fail (CertFlag err) fs
      | Inr f \<Rightarrow> cert_done (Issue cr d t serial key dir (fl_name f) (fl_kind f) (fl_ips f) fs))"

definition runExport ::
    "('k, 'c) crypto \<Rightarrow> disk \<Rightarrow> string \<Rightarrow> string list \<Rightarrow> files \<Rightarrow> cert_result" where
  "runExport cr d dir args fs =
     (case parseFlags args \<lparr>allowOut = True, allowIP = False\<rparr> of
        Inl err \<Rightarrow> cert_fail (CertFlag err) fs
      | Inr f \<Rightarrow>
          let out = (if fl_out f = [] then path_join [dir, fl_name f @ ''-'' @ fl_kind f @ ''.p12''] else fl_out f)
          in cert_done (ExportP12 cr d dir (fl_name f) (fl_kind f) out fs))"

text \<open>\<open>runQr\<close>; \<open>png\<close> is the QR library: \<open>None\<close> when the content does not fit, else the image.\<close>

definition runQr ::
    "('k, 'c) crypto \<Rightarrow> disk \<Rightarrow> (string \<Rightarrow> bytes option) \<Rightarrow> string \<Rightarrow> string list \<Rightarrow> files \<Rightarrow> cert_result" where
  "runQr cr d png dir args fs =
     (case parseFlags args \<lparr>allowOut = True, allowIP = False\<rparr> of
        Inl err \<Rightarrow> cert_fail (CertFlag err) fs
      | Inr f \<Rightarrow>
          (case QrContent cr dir (fl_name f) (fl_kind f) fs of
             Inl err \<Rightarrow> cert_fail (CertOp err) fs
           | Inr content \<Rightarrow>
               (case png content of
                  None \<Rightarrow> cert_fail (CertOp ''content too long to encode'') fs
                | Some img \<Rightarrow>
                    if fl_out f \<noteq> [] then cert_done (write_file d (fl_out f) img mode_0644 fs)
                    else \<lparr>cr_error = None, cr_files = fs, cr_output = content\<rparr>)))"

definition runList ::
    "('k, 'c) crypto \<Rightarrow> string + (string \<times> bool) list \<Rightarrow> string \<Rightarrow> files \<Rightarrow> cert_result" where
  "runList cr entries dir fs =
     (case List_certs cr fs dir entries of
        Inl err \<Rightarrow> cert_fail (CertOp err) fs
      | Inr info \<Rightarrow> \<lparr>cr_error = None, cr_files = fs, cr_output = info\<rparr>)"

definition cert_Run ::
    "('k, 'c) crypto \<Rightarrow> disk \<Rightarrow> time \<Rightarrow> int \<Rightarrow> string + 'k \<Rightarrow> (string \<Rightarrow> bytes option)
     \<Rightarrow> string + (string \<times> bool) list \<Rightarrow> string \<Rightarrow> string list \<Rightarrow> files \<Rightarrow> cert_result" where
  "cert_Run cr d t serial key png entries dir args fs =
     (case args of
        [] \<Rightarrow> cert_fail CertUsage fs
      | a # rest \<Rightarrow>
          if a = ''init'' then cert_done (Init cr d t key dir fs)
          else if a = ''issue'' then runIssue cr d t serial key dir rest fs
          else if a = ''export'' then runExport cr d dir rest fs
          else if a = ''qr'' then runQr cr d png dir rest fs
          else if a = ''list'' then runList cr entries dir fs
          else cert_fail (UnknownSub a) fs)"

section \<open>status\<close>

definition bool_text :: "bool \<Rightarrow> string" where
  "bool_text b = (if b then ''true'' else ''false'')"

definition peer_line :: "client_info \<Rightarrow> string" where
  "peer_line p =
     ''  - '' @ ci_Name p @ '' ('' @ ci_Platform p @ '' v'' @ ci_Version p @ '') '' @ ci_IP p"

text \<open>The lines \<open>clipshare status\<close> prints, or its error.\<close>

definition status_Run :: "status_error + status_response \<Rightarrow> status_error + string list" where
  "status_Run r =
     (case r of
        Inl err \<Rightarrow> Inl err
      | Inr st \<Rightarrow>
          Inr ([''device:   '' @ st_Device st, ''version:  '' @ st_Version st,
                ''uptime:   '' @ st_Uptime st, ''token:    '' @ bool_text (st_TokenAuth st),
                ''tls:      '' @ bool_text (st_TLS st), ''mode:     '' @ st_Mode st] @
               (if st_Peers st = [] then [''peers:    none connected'']
                else (''peers:    '' @ Itoa (int (length (st_Peers st))) @ '' connected'')
                  # map peer_line (st_Peers st))))"

section \<open>Properties\<close>

text \<open>A command that needs the configuration runs only on one that satisfies all the
  invariants of \<open>Load\<close>, after the logger was set to its level and file; the only failures
  before it are a file that does not decode and a log file that cannot be opened.\<close>

lemma command_runs_on_loaded_config:
  "configLoader_Run env decode can_open cmd args (lg, s) =
     (case Load env decode of
        Inl err \<Rightarrow> (Some err, lg, s)
      | Inr cfg \<Rightarrow>
          if log_File (cfg_Log cfg) \<noteq> [] \<and> \<not> can_open (log_File (cfg_Log cfg))
          then (Some ''open log file'', lg, s)
          else apsnd (Pair (lg\<lparr>lg_file := (if log_File (cfg_Log cfg) = [] then None else Some (log_File (cfg_Log cfg))),
                   lg_current := fst (ParseLevel (log_Level (cfg_Log cfg)))\<rparr>)) (cmd cfg args s))
   \<and> (\<forall>cfg. Load env decode = Inr cfg \<longrightarrow> config_ok cfg)"
proof -
  have ok: "config_ok cfg" if "Load env decode = Inr cfg" for cfg
    using Load_cases [OF that] config_ok_normalize by auto
  show ?thesis
  proof (cases "Load env decode")
    case (Inr cfg)
    obtain lv where "ParseLevel (log_Level (cfg_Log cfg)) = (lv, True)"
      using ok [OF Inr] by (auto simp: config_ok_def log_levels_def ParseLevel_names)
    then show ?thesis
      using Inr ok by (simp add: configLoader_Run_def Setup_def)
  qed (simp add: configLoader_Run_def)
qed

lemma sample_defaults:
  "cfg_DeviceName (Default sample_env) = ''desk''"
  "cfg_Log (Default sample_env) = \<lparr>log_Level = ''info'', log_File = []\<rparr>"
  by (simp_all add: Default_def Let_def sample_env_def)

lemma command_runs_on_loaded_config_example:
  "configLoader_Run sample_env (\<lambda>_ _. NotExist) (\<lambda>_. True) (\<lambda>cfg args n. (Some (cfg_DeviceName cfg), Suc n)) []
     (\<lparr>lg_file = None, lg_current = LevelError, lg_lines = []\<rparr>, 0) =
   (Some ''desk'', \<lparr>lg_file = None, lg_current = LevelInfo, lg_lines = []\<rparr>, 1)
   \<and> config_ok (Default sample_env)"
  using command_runs_on_loaded_config [of sample_env "\<lambda>_ _. NotExist" "\<lambda>_. True"
      "\<lambda>cfg args n. (Some (cfg_DeviceName cfg), Suc n)" "[]" "\<lparr>lg_file = None, lg_current = LevelError, lg_lines = []\<rparr>" 0]
  by (simp add: Load_missing ParseLevel_names sample_defaults)

text \<open>How the flags of a subcommand are written on the command line.\<close>

definition render_flags :: "flags \<Rightarrow> string list" where
  "render_flags f =
     [''--name'', fl_name f, ''--type'', fl_kind f] @
     (if fl_out f = [] then [] else [''--out'', fl_out f]) @
     (if fl_ips f = [] then [] else [''--ip'', Join (fl_ips f) '',''])"

text \<open>The certificate flags are read as they were written: rendering a name, a type, an output
  path and a list of addresses (without commas) and parsing them gives them back, where the
  subcommand has the flags; whatever is accepted has a name and the type server or client.\<close>

lemma cert_flags_roundtrip:
  assumes "fl_name f \<noteq> []" and "fl_kind f = ''server'' \<or> fl_kind f = ''client''"
    and "fl_out f \<noteq> [] \<longrightarrow> allowOut opts" and "fl_ips f \<noteq> [] \<longrightarrow> allowIP opts"
    and "list_all (\<lambda>w. CHR '','' \<notin> set w) (fl_ips f)"
  shows "parseFlags (render_flags f) opts = Inr f \<and>
    (\<forall>args g. parseFlags args opts = Inr g \<longrightarrow>
       fl_name g \<noteq> [] \<and> (fl_kind g = ''server'' \<or> fl_kind g = ''client''))"
proof -
  have acc: "fl_name g \<noteq> [] \<and> (fl_kind g = ''server'' \<or> fl_kind g = ''client'')"
    if "parse_loop opts f0 args = Inr g" for f0 args g
    using that
    by (induction opts f0 args rule: parse_loop.induct) (auto simp: validate_def split: if_splits option.splits)
  have "fl_ips f \<noteq> [] \<Longrightarrow> Split (Join (fl_ips f) '','') CHR '','' = fl_ips f"
    by (rule Split_Join) (use assms(5) in simp_all)
  then have "parseFlags (render_flags f) opts = Inr f"
    using assms(1-4)
    by (cases f) (auto simp: parseFlags_def render_flags_def set_flag_def validate_def)
  with acc show ?thesis
    by (auto simp: parseFlags_def)
qed

lemma cert_flags_roundtrip_example:
  "parseFlags [''--name'', ''pc'', ''--type'', ''server'', ''--ip'', ''10.0.0.1,10.0.0.2'']
     \<lparr>allowOut = False, allowIP = True\<rparr> =
   Inr \<lparr>fl_name = ''pc'', fl_kind = ''server'', fl_out = [], fl_ips = [''10.0.0.1'', ''10.0.0.2'']\<rparr>"
  using cert_flags_roundtrip [of "\<lparr>fl_name = ''pc'', fl_kind = ''server'', fl_out = [],
      fl_ips = [''10.0.0.1'', ''10.0.0.2'']\<rparr>" "\<lparr>allowOut = False, allowIP = True\<rparr>"]
  by (simp add: render_flags_def)

end
