(* ===== verification/Toml.thy ===== *)
theory Toml
  imports Config Quote Disk
begin

text \<open>
  The writer of the configuration (\<open>writeToml\<close>, \<open>tomlSlice\<close>, \<open>tomlWhitelist\<close> and \<open>Save\<close> of
  \<open>config/config.go\<close>) and \<open>clipshare config\<close> (\<open>cli/commands/configcmd\<close>), with
  \<open>time.Duration.String\<close>. The TOML library that reads the file is not part of the program; a
  reader of the forms the writer uses, after the TOML specification, stands for it, with
  \<open>time.ParseDuration\<close> as a parameter. The lemmas: each line is read back as the key and value
  that was written, and loading what was saved gives the same configuration.
\<close>

section \<open>Durations as text\<close>

fun dec_fixed :: "nat \<Rightarrow> nat \<Rightarrow> string" where
  "dec_fixed 0 n = []"
| "dec_fixed (Suc k) n = dec_fixed k (n div 10) @ [digit_char (n mod 10)]"

text \<open>The fraction \<open>n / 10^p\<close> without trailing zeros, nothing if it is zero.\<close>

definition frac_text :: "nat \<Rightarrow> nat \<Rightarrow> string" where
  "frac_text p n =
     (let ds = rev (dropWhile (\<lambda>c. c = CHR ''0'') (rev (dec_fixed p n)))
      in if ds = [] then [] else CHR ''.'' # ds)"

definition scaled_text :: "nat \<Rightarrow> nat \<Rightarrow> string" where
  "scaled_text p u = format_base 10 (u div 10 ^ p) @ frac_text p (u mod 10 ^ p)"

definition micro :: string where "micro = [CHR 0xC2, CHR 0xB5]"

definition duration_abs :: "nat \<Rightarrow> string" where
  "duration_abs u =
     (if u = 0 then ''0s''
      else if u < 10 ^ 3 then scaled_text 0 u @ ''ns''
      else if u < 10 ^ 6 then scaled_text 3 u @ micro @ ''s''
      else if u < 10 ^ 9 then scaled_text 6 u @ ''ms''
      else
        let n = u div 10 ^ 9; m = n div 60; h = m div 60;
            secs = format_base 10 (n mod 60) @ frac_text 9 (u mod 10 ^ 9) @ ''s''
        in if m = 0 then secs
           else if h = 0 then format_base 10 (m mod 60) @ ''m'' @ secs
           else format_base 10 h @ ''h'' @ format_base 10 (m mod 60) @ ''m'' @ secs)"

definition duration_String :: "duration \<Rightarrow> string" where
  "duration_String d = (if d < 0 then CHR ''-'' # duration_abs (nat (- d)) else duration_abs (nat d))"

section \<open>The writer\<close>

definition FormatBool :: "bool \<Rightarrow> string" where
  "FormatBool b = (if b then ''true'' else ''false'')"

definition kv :: "string \<Rightarrow> string \<Rightarrow> string" where
  "kv k v = k @ '' = '' @ v"

definition tomlSlice :: "(nat \<Rightarrow> bool) \<Rightarrow> string list \<Rightarrow> string" where
  "tomlSlice pr s = (if s = [] then ''[]'' else ''['' @ Join (map (Quote pr) s) '', '' @ '']'')"

definition whitelist_text :: "(nat \<Rightarrow> bool) \<Rightarrow> whitelist_entry \<Rightarrow> string" where
  "whitelist_text pr e =
     ''{ name = '' @ Quote pr (wl_Name e) @ '', ip = '' @ Quote pr (wl_IP e) @ '' }''"

definition tomlWhitelist :: "(nat \<Rightarrow> bool) \<Rightarrow> whitelist_entry list \<Rightarrow> string" where
  "tomlWhitelist pr w =
     (if w = [] then ''[]'' else ''['' @ Join (map (whitelist_text pr) w) '', '' @ '']'')"

text \<open>The lines of the format in \<open>writeToml\<close>.\<close>

definition toml_lines :: "(nat \<Rightarrow> bool) \<Rightarrow> config \<Rightarrow> string list" where
  "toml_lines pr c =
     [kv ''device_name'' (Quote pr (cfg_DeviceName c)),
      kv ''mdns'' (FormatBool (cfg_Mdns c)),
      kv ''broadcast'' (Itoa (cfg_Broadcast c)),
      kv ''watch'' (Itoa (cfg_Watch c)),
      kv ''token'' (Quote pr (cfg_Token c)),
      kv ''peers'' (tomlSlice pr (cfg_Peers c)),
      kv ''max_image_bytes'' (Itoa (cfg_MaxImageBytes c)),
      kv ''max_message_bytes'' (Itoa (cfg_MaxMessageBytes c)),
      [],
      ''[connection]'',
      kv ''mode'' (Quote pr (conn_Mode (cfg_Connection c))),
      kv ''whitelist'' (tomlWhitelist pr (conn_Whitelist (cfg_Connection c))),
      [],
      ''[server]'',
      kv ''port'' (Itoa (srv_Port (cfg_Server c))),
      kv ''bind'' (Quote pr (srv_Bind (cfg_Server c))),
      [],
      ''[api]'',
      kv ''port'' (Itoa (api_Port (cfg_API c))),
      kv ''bind'' (Quote pr (api_Bind (cfg_API c))),
      [],
      ''[discovery]'',
      kv ''mdns'' (FormatBool (dis_MDNS (cfg_Discovery c))),
      kv ''beacon'' (FormatBool (dis_Beacon (cfg_Discovery c))),
      kv ''beacon_port'' (Itoa (dis_BeaconPort (cfg_Discovery c))),
      kv ''beacon_addr'' (Quote pr (dis_BeaconAddr (cfg_Discovery c))),
      [],
      ''[clipboard]'',
      kv ''backend'' (Quote pr (cb_Backend (cfg_Clipboard c))),
      [],
      ''[log]'',
      kv ''level'' (Quote pr (log_Level (cfg_Log c))),
      kv ''file'' (Quote pr (log_File (cfg_Log c))),
      [],
      ''[timing]'',
      kv ''hello_timeout'' (Quote pr (duration_String (HelloTimeout (cfg_Timing c)))),
      kv ''write_timeout'' (Quote pr (duration_String (WriteTimeout (cfg_Timing c)))),
      kv ''peer_keepalive'' (Quote pr (duration_String (PeerKeepalive (cfg_Timing c)))),
      kv ''peer_backoff_initial'' (Quote pr (duration_String (PeerBackoffInitial (cfg_Timing c)))),
      kv ''peer_backoff_max'' (Quote pr (duration_String (PeerBackoffMax (cfg_Timing c)))),
      kv ''echo_window'' (Quote pr (duration_String (EchoWindow (cfg_Timing c)))),
      kv ''one_shot_timeout'' (Quote pr (duration_String (OneShotTimeout (cfg_Timing c)))),
      kv ''one_shot_grace'' (Quote pr (duration_String (OneShotGrace (cfg_Timing c)))),
      kv ''watch_remote_timeout'' (Quote pr (duration_String (WatchRemoteTimeout (cfg_Timing c)))),
      [],
      ''[tls]'',
      kv ''enabled'' (FormatBool (tls_Enabled (cfg_TLS c))),
      kv ''ca'' (Quote pr (tls_CA (cfg_TLS c))),
      kv ''cert'' (Quote pr (tls_Cert (cfg_TLS c))),
      kv ''key'' (Quote pr (tls_Key (cfg_TLS c))),
      kv ''verify_hostname'' (FormatBool (tls_VerifyHostname (cfg_TLS c)))]"

definition toml_text_of :: "(nat \<Rightarrow> bool) \<Rightarrow> config \<Rightarrow> string" where
  "toml_text_of pr c = concat (map (\<lambda>l. l @ [CHR 0x0A]) (toml_lines pr c))"

text \<open>\<open>os.Create\<close> asks for mode 0666; a write that starts succeeds.\<close>

definition mode_0666 :: nat where "mode_0666 = 6 * 64 + 6 * 8 + 6"

definition writeToml :: "(nat \<Rightarrow> bool) \<Rightarrow> process_env \<Rightarrow> disk \<Rightarrow> config \<Rightarrow> files \<Rightarrow> string option \<times> files" where
  "writeToml pr env d c fs = write_file d (Path env) (bytes_of (toml_text_of pr c)) mode_0666 fs"

definition Save :: "(nat \<Rightarrow> bool) \<Rightarrow> process_env \<Rightarrow> disk \<Rightarrow> config \<Rightarrow> files \<Rightarrow> string option \<times> files" where
  "Save pr env d c fs =
     (if \<not> d_mkdir_ok d (path_dir (Path env)) then (Some ''create config dir'', fs)
      else writeToml pr env d c fs)"

text \<open>\<open>clipshare config\<close>; \<open>decode fs\<close> is the TOML library on these files.\<close>

definition configcmd_Run ::
    "(nat \<Rightarrow> bool) \<Rightarrow> process_env \<Rightarrow> disk \<Rightarrow> (files \<Rightarrow> string \<Rightarrow> config \<Rightarrow> decode_result) \<Rightarrow> string list
     \<Rightarrow> files \<Rightarrow> string option \<times> files" where
  "configcmd_Run pr env d decode args fs =
     (if args \<noteq> [] \<and> hd args = ''--init'' then Save pr env d (Default env) fs
      else
        (case Load env (decode fs) of
           Inl err \<Rightarrow> (Some err, fs)
         | Inr c \<Rightarrow> Save pr env d c fs))"

section \<open>A reader\<close>

datatype toml_value =
    TStr string
  | TBool bool
  | TInt int
  | TArr "toml_value list"
  | TTable "(string \<times> string) list"

definition p_string :: "string \<Rightarrow> (string \<times> string) option" where
  "p_string s = (case s of [] \<Rightarrow> None | c # r \<Rightarrow> if c = CHR 0x22 then toml_body r else None)"

text \<open>One or more elements, with a separator between them and a closing text after the last.\<close>

fun p_sep :: "(string \<Rightarrow> ('a \<times> string) option) \<Rightarrow> string \<Rightarrow> string \<Rightarrow> nat \<Rightarrow> string \<Rightarrow> ('a list \<times> string) option" where
  "p_sep p sep cl 0 s = None"
| "p_sep p sep cl (Suc n) s =
     (case p s of
        None \<Rightarrow> None
      | Some (x, r) \<Rightarrow>
          if HasPrefix r cl then Some ([x], drop (length cl) r)
          else if HasPrefix r sep then
            map_option (\<lambda>(xs, t). (x # xs, t)) (p_sep p sep cl n (drop (length sep) r))
          else None)"

definition p_key :: "string \<Rightarrow> (string \<times> string) option" where
  "p_key s =
     (let k = takeWhile (\<lambda>c. c \<noteq> CHR '' '') s; r = drop (length k) s
      in if HasPrefix r '' = '' then Some (k, drop 3 r) else None)"

definition p_pair :: "string \<Rightarrow> ((string \<times> string) \<times> string) option" where
  "p_pair s =
     (case p_key s of
        None \<Rightarrow> None | Some (k, r) \<Rightarrow> map_option (\<lambda>(v, t). ((k, v), t)) (p_string r))"

definition p_elem :: "string \<Rightarrow> (toml_value \<times> string) option" where
  "p_elem s =
     (if HasPrefix s ''{ '' then
        map_option (\<lambda>(ps, t). (TTable ps, t)) (p_sep p_pair '', '' '' }'' (length s) (drop 2 s))
      else map_option (\<lambda>(v, t). (TStr v, t)) (p_string s))"

definition p_value :: "string \<Rightarrow> toml_value option" where
  "p_value s =
     (if s = ''true'' then Some (TBool True)
      else if s = ''false'' then Some (TBool False)
      else if s = ''[]'' then Some (TArr [])
      else if HasPrefix s ''['' then
        (case p_sep p_elem '', '' '']'' (length s) (tl s) of
           Some (vs, []) \<Rightarrow> Some (TArr vs) | _ \<Rightarrow> None)
      else if HasPrefix s [CHR 0x22] then
        (case p_string s of Some (v, []) \<Rightarrow> Some (TStr v) | _ \<Rightarrow> None)
      else map_option TInt (ParseInt64 s))"

text \<open>The lines: empty, a table's name, or a key and its value.\<close>

fun p_lines :: "string list \<Rightarrow> string list \<Rightarrow> (string list \<times> toml_value) list option" where
  "p_lines sec [] = Some []"
| "p_lines sec (l # ls) =
     (if l = [] then p_lines sec ls
      else if hd l = CHR ''['' then p_lines [takeWhile (\<lambda>c. c \<noteq> CHR '']'') (tl l)] ls
      else
        (case p_key l of
           None \<Rightarrow> None
         | Some (k, r) \<Rightarrow>
             (case p_value r of
                None \<Rightarrow> None
              | Some v \<Rightarrow> map_option (\<lambda>ps. (sec @ [k], v) # ps) (p_lines sec ls))))"

section \<open>Filling the configuration in\<close>

text \<open>What a key does to the configuration; \<open>None\<close> is a value of another type.\<close>

type_synonym setter = "toml_value \<Rightarrow> config \<Rightarrow> config option"

definition set_str :: "(string \<Rightarrow> config \<Rightarrow> config) \<Rightarrow> setter" where
  "set_str f v c = (case v of TStr s \<Rightarrow> Some (f s c) | _ \<Rightarrow> None)"

definition set_bool :: "(bool \<Rightarrow> config \<Rightarrow> config) \<Rightarrow> setter" where
  "set_bool f v c = (case v of TBool b \<Rightarrow> Some (f b c) | _ \<Rightarrow> None)"

definition set_int :: "(int \<Rightarrow> config \<Rightarrow> config) \<Rightarrow> setter" where
  "set_int f v c = (case v of TInt i \<Rightarrow> Some (f i c) | _ \<Rightarrow> None)"

text \<open>Durations are strings in the file; a number is taken as nanoseconds.\<close>

definition set_dur :: "(string \<Rightarrow> duration option) \<Rightarrow> (duration \<Rightarrow> timing \<Rightarrow> timing) \<Rightarrow> setter" where
  "set_dur parse f v c =
     (case v of
        TStr s \<Rightarrow> map_option (\<lambda>d. c\<lparr>cfg_Timing := f d (cfg_Timing c)\<rparr>) (parse s)
      | TInt i \<Rightarrow> Some (c\<lparr>cfg_Timing := f i (cfg_Timing c)\<rparr>)
      | _ \<Rightarrow> None)"

definition as_string :: "toml_value \<Rightarrow> string option" where
  "as_string v = (case v of TStr s \<Rightarrow> Some s | _ \<Rightarrow> None)"

definition as_entry :: "toml_value \<Rightarrow> whitelist_entry option" where
  "as_entry v =
     (case v of
        TTable ps \<Rightarrow>
          Some \<lparr>wl_Name = (case map_of ps ''name'' of None \<Rightarrow> [] | Some n \<Rightarrow> n),
                wl_IP = (case map_of ps ''ip'' of None \<Rightarrow> [] | Some i \<Rightarrow> i)\<rparr>
      | _ \<Rightarrow> None)"

definition set_list :: "(toml_value \<Rightarrow> 'a option) \<Rightarrow> ('a list \<Rightarrow> config \<Rightarrow> config) \<Rightarrow> setter" where
  "set_list g f v c =
     (case v of TArr vs \<Rightarrow> map_option (\<lambda>xs. f xs c) (those (map g vs)) | _ \<Rightarrow> None)"

definition top_setters :: "(string \<times> setter) list" where
  "top_setters =
     [(''device_name'', set_str (\<lambda>s c. c\<lparr>cfg_DeviceName := s\<rparr>)),
      (''mdns'', set_bool (\<lambda>b c. c\<lparr>cfg_Mdns := b\<rparr>)),
      (''broadcast'', set_int (\<lambda>i c. c\<lparr>cfg_Broadcast := i\<rparr>)),
      (''watch'', set_int (\<lambda>i c. c\<lparr>cfg_Watch := i\<rparr>)),
      (''token'', set_str (\<lambda>s c. c\<lparr>cfg_Token := s\<rparr>)),
      (''peers'', set_list as_string (\<lambda>ps c. c\<lparr>cfg_Peers := ps\<rparr>)),
      (''max_image_bytes'', set_int (\<lambda>i c. c\<lparr>cfg_MaxImageBytes := i\<rparr>)),
      (''max_message_bytes'', set_int (\<lambda>i c. c\<lparr>cfg_MaxMessageBytes := i\<rparr>))]"

definition table_setters :: "(string \<Rightarrow> duration option) \<Rightarrow> (string \<times> (string \<times> setter) list) list" where
  "table_setters parse =
     [(''connection'',
        [(''mode'', set_str (\<lambda>s c. c\<lparr>cfg_Connection := (cfg_Connection c)\<lparr>conn_Mode := s\<rparr>\<rparr>)),
         (''whitelist'', set_list as_entry
            (\<lambda>w c. c\<lparr>cfg_Connection := (cfg_Connection c)\<lparr>conn_Whitelist := w\<rparr>\<rparr>))]),
      (''server'',
        [(''port'', set_int (\<lambda>i c. c\<lparr>cfg_Server := (cfg_Server c)\<lparr>srv_Port := i\<rparr>\<rparr>)),
         (''bind'', set_str (\<lambda>s c. c\<lparr>cfg_Server := (cfg_Server c)\<lparr>srv_Bind := s\<rparr>\<rparr>))]),
      (''api'',
        [(''port'', set_int (\<lambda>i c. c\<lparr>cfg_API := (cfg_API c)\<lparr>api_Port := i\<rparr>\<rparr>)),
         (''bind'', set_str (\<lambda>s c. c\<lparr>cfg_API := (cfg_API c)\<lparr>api_Bind := s\<rparr>\<rparr>))]),
      (''discovery'',
        [(''mdns'', set_bool (\<lambda>b c. c\<lparr>cfg_Discovery := (cfg_Discovery c)\<lparr>dis_MDNS := b\<rparr>\<rparr>)),
         (''beacon'', set_bool (\<lambda>b c. c\<lparr>cfg_Discovery := (cfg_Discovery c)\<lparr>dis_Beacon := b\<rparr>\<rparr>)),
         (''beacon_port'', set_int (\<lambda>i c. c\<lparr>cfg_Discovery := (cfg_Discovery c)\<lparr>dis_BeaconPort := i\<rparr>\<rparr>)),
         (''beacon_addr'', set_str (\<lambda>s c. c\<lparr>cfg_Discovery := (cfg_Discovery c)\<lparr>dis_BeaconAddr := s\<rparr>\<rparr>))]),
      (''clipboard'',
        [(''backend'', set_str (\<lambda>s c. c\<lparr>cfg_Clipboard := (cfg_Clipboard c)\<lparr>cb_Backend := s\<rparr>\<rparr>))]),
      (''log'',
        [(''level'', set_str (\<lambda>s c. c\<lparr>cfg_Log := (cfg_Log c)\<lparr>log_Level := s\<rparr>\<rparr>)),
         (''file'', set_str (\<lambda>s c. c\<lparr>cfg_Log := (cfg_Log c)\<lparr>log_File := s\<rparr>\<rparr>))]),
      (''timing'',
        [(''hello_timeout'', set_dur parse (\<lambda>d t. t\<lparr>HelloTimeout := d\<rparr>)),
         (''write_timeout'', set_dur parse (\<lambda>d t. t\<lparr>WriteTimeout := d\<rparr>)),
         (''peer_keepalive'', set_dur parse (\<lambda>d t. t\<lparr>PeerKeepalive := d\<rparr>)),
         (''peer_backoff_initial'', set_dur parse (\<lambda>d t. t\<lparr>PeerBackoffInitial := d\<rparr>)),
         (''peer_backoff_max'', set_dur parse (\<lambda>d t. t\<lparr>PeerBackoffMax := d\<rparr>)),
         (''echo_window'', set_dur parse (\<lambda>d t. t\<lparr>EchoWindow := d\<rparr>)),
         (''one_shot_timeout'', set_dur parse (\<lambda>d t. t\<lparr>OneShotTimeout := d\<rparr>)),
         (''one_shot_grace'', set_dur parse (\<lambda>d t. t\<lparr>OneShotGrace := d\<rparr>)),
         (''watch_remote_timeout'', set_dur parse (\<lambda>d t. t\<lparr>WatchRemoteTimeout := d\<rparr>))]),
      (''tls'',
        [(''enabled'', set_bool (\<lambda>b c. c\<lparr>cfg_TLS := (cfg_TLS c)\<lparr>tls_Enabled := b\<rparr>\<rparr>)),
         (''ca'', set_str (\<lambda>s c. c\<lparr>cfg_TLS := (cfg_TLS c)\<lparr>tls_CA := s\<rparr>\<rparr>)),
         (''cert'', set_str (\<lambda>s c. c\<lparr>cfg_TLS := (cfg_TLS c)\<lparr>tls_Cert := s\<rparr>\<rparr>)),
         (''key'', set_str (\<lambda>s c. c\<lparr>cfg_TLS := (cfg_TLS c)\<lparr>tls_Key := s\<rparr>\<rparr>)),
         (''verify_hostname'', set_bool (\<lambda>b c. c\<lparr>cfg_TLS := (cfg_TLS c)\<lparr>tls_VerifyHostname := b\<rparr>\<rparr>))])]"

text \<open>Unknown keys are ignored.\<close>

definition setter_of :: "(string \<Rightarrow> duration option) \<Rightarrow> string list \<Rightarrow> setter option" where
  "setter_of parse k =
     (case k of
        [a] \<Rightarrow> map_of top_setters a
      | [t, a] \<Rightarrow> (case map_of (table_setters parse) t of None \<Rightarrow> None | Some ks \<Rightarrow> map_of ks a)
      | _ \<Rightarrow> None)"

fun fill_in :: "(string \<Rightarrow> duration option) \<Rightarrow> (string list \<times> toml_value) list \<Rightarrow> config \<Rightarrow> config option" where
  "fill_in parse [] c = Some c"
| "fill_in parse ((k, v) # kvs) c =
     (case setter_of parse k of
        None \<Rightarrow> fill_in parse kvs c
      | Some f \<Rightarrow> (case f v c of None \<Rightarrow> None | Some c' \<Rightarrow> fill_in parse kvs c'))"

definition toml_decode :: "(string \<Rightarrow> duration option) \<Rightarrow> files \<Rightarrow> string \<Rightarrow> config \<Rightarrow> decode_result" where
  "toml_decode parse fs p d =
     (case fs p of
        None \<Rightarrow> NotExist
      | Some f \<Rightarrow>
          (case p_lines [] (Split (string_of (f_data f)) CHR 0x0A) of
             None \<Rightarrow> DecodeError ''toml: syntax''
           | Some kvs \<Rightarrow>
               (case fill_in parse kvs d of
                  None \<Rightarrow> DecodeError ''toml: type'' | Some c \<Rightarrow> Decoded c (map fst kvs))))"

section \<open>Values are read back\<close>

lemma HasPrefix_append [simp]: "HasPrefix (p @ t) p"
  by (simp add: HasPrefix_def)

lemma HasPrefix_Cons [simp]: "HasPrefix (c # s) (d # p) \<longleftrightarrow> c = d \<and> HasPrefix s p" "HasPrefix s []"
    "\<not> HasPrefix [] (d # p)"
  by (auto simp: HasPrefix_def)

lemma p_string_Quote [simp]: "toml_text s \<Longrightarrow> p_string (Quote pr s @ t) = Some (s, t)"
  by (simp add: p_string_def Quote_def toml_body_quote toml_body.simps(2))

lemma p_sep_Join:
  assumes "xs \<noteq> []" and "\<forall>x \<in> set xs. \<forall>t. p (w x @ t) = Some (f x, t)"
    and "length xs \<le> n" and "sep = a # sep'" and "cl = b # cl'" and "a \<noteq> b"
  shows "p_sep p sep cl n (Join (map w xs) sep @ cl @ t) = Some (map f xs, t)"
  using assms(1-3)
proof (induction xs arbitrary: n)
  case (Cons x xs)
  obtain m where n: "n = Suc m"
    using Cons.prems(3) by (cases n) auto
  show ?case
  proof (cases xs)
    case Nil
    have "p (w x @ cl @ t) = Some (f x, cl @ t)"
      using Cons.prems(2) by simp
    then show ?thesis
      using Nil n by simp
  next
    case (Cons y ys)
    have "p_sep p sep cl m (Join (map w xs) sep @ cl @ t) = Some (map f xs, t)"
      using Cons.IH Cons.prems n Cons by simp
    moreover have "p (w x @ sep @ Join (map w xs) sep @ cl @ t) = Some (f x, sep @ Join (map w xs) sep @ cl @ t)"
      using Cons.prems(2) by simp
    moreover have "\<not> HasPrefix (sep @ Join (map w xs) sep @ cl @ t) cl"
      using assms(4-6) by simp
    ultimately show ?thesis
      using n Cons by simp
  qed
qed simp

declare p_sep.simps [simp del]

lemma length_Join_le:
  "\<forall>x \<in> set xs. w x \<noteq> [] \<Longrightarrow> length xs \<le> length (Join (map w xs) sep)"
proof (induction xs)
  case (Cons x xs)
  then have "length xs \<le> length (Join (map w xs) sep)" "1 \<le> length (w x)"
    by (simp_all add: Suc_le_eq)
  then show ?case
    by (cases xs) simp_all
qed simp

lemma Quote_nonempty [simp]: "Quote pr s \<noteq> []"
  by (simp add: Quote_def)

lemma hd_Quote [simp]: "HasPrefix (Quote pr s @ t) (c # p) \<longleftrightarrow> c = CHR 0x22 \<and> HasPrefix (quote_body pr s @ CHR 0x22 # t) p"
  by (auto simp: Quote_def)

lemma p_elem_Quote: "toml_text s \<Longrightarrow> p_elem (Quote pr s @ t) = Some (TStr s, t)"
  by (simp add: p_elem_def)

definition entry_pairs :: "whitelist_entry \<Rightarrow> (string \<times> string) list" where
  "entry_pairs e = [(''name'', wl_Name e), (''ip'', wl_IP e)]"

lemma p_elem_whitelist:
  assumes "toml_text (wl_Name e)" and "toml_text (wl_IP e)"
  shows "p_elem (whitelist_text pr e @ t) = Some (TTable (entry_pairs e), t)"
proof -
  let ?w = "\<lambda>(k, v). k @ '' = '' @ Quote pr v"
  have shape: "whitelist_text pr e @ t = ''{ '' @ Join (map ?w (entry_pairs e)) '', '' @ '' }'' @ t"
    by (simp add: whitelist_text_def entry_pairs_def)
  have "p_pair (?w x @ r) = Some (x, r)" if "x \<in> set (entry_pairs e)" for x r
    using that assms by (auto simp: entry_pairs_def p_pair_def p_key_def Let_def)
  then have "p_sep p_pair '', '' '' }'' n (Join (map ?w (entry_pairs e)) '', '' @ '' }'' @ t) =
      Some (map id (entry_pairs e), t)" if "2 \<le> n" for n
    using that by (intro p_sep_Join) (auto simp: entry_pairs_def)
  then show ?thesis
    unfolding shape by (simp add: p_elem_def)
qed

lemma p_value_list:
  assumes "xs \<noteq> []" and "\<forall>x \<in> set xs. \<forall>t. p_elem (w x @ t) = Some (f x, t)"
    and "\<forall>x \<in> set xs. w x \<noteq> []"
  shows "p_value (''['' @ Join (map w xs) '', '' @ '']'') = Some (TArr (map f xs))"
proof -
  have le: "length xs \<le> length (Join (map w xs) '', '')"
    by (rule length_Join_le [OF assms(3)])
  have "p_sep p_elem '', '' '']'' n (Join (map w xs) '', '' @ '']'' @ []) = Some (map f xs, [])"
    if "length xs \<le> n" for n
    using that by (intro p_sep_Join [OF assms(1,2)]) auto
  moreover have "Join (map w xs) '', '' \<noteq> []"
    using le assms(1) by auto
  ultimately show ?thesis
    using le by (simp add: p_value_def)
qed

lemma p_value_slice:
  assumes "list_all toml_text ps"
  shows "p_value (tomlSlice pr ps) = Some (TArr (map TStr ps))"
proof (cases "ps = []")
  case False
  have "p_value (''['' @ Join (map (Quote pr) ps) '', '' @ '']'') = Some (TArr (map TStr ps))"
    using assms by (intro p_value_list [OF False]) (auto simp: list_all_iff p_elem_Quote)
  then show ?thesis
    using False by (simp add: tomlSlice_def)
qed (simp add: tomlSlice_def p_value_def)

lemma whitelist_text_nonempty [simp]: "whitelist_text pr e \<noteq> []"
  by (simp add: whitelist_text_def)

lemma p_value_whitelist:
  assumes "list_all (\<lambda>e. toml_text (wl_Name e) \<and> toml_text (wl_IP e)) w"
  shows "p_value (tomlWhitelist pr w) = Some (TArr (map (\<lambda>e. TTable (entry_pairs e)) w))"
proof (cases "w = []")
  case False
  have "p_value (''['' @ Join (map (whitelist_text pr) w) '', '' @ '']'') =
      Some (TArr (map (\<lambda>e. TTable (entry_pairs e)) w))"
    using assms by (intro p_value_list [OF False]) (auto simp: list_all_iff p_elem_whitelist)
  then show ?thesis
    using False by (simp add: tomlWhitelist_def)
qed (simp add: tomlWhitelist_def p_value_def)

lemma p_value_bool: "p_value (FormatBool b) = Some (TBool b)"
  by (simp add: FormatBool_def p_value_def)

lemma Itoa_head:
  obtains c r where "Itoa i = c # r" and "c = CHR ''-'' \<or> is_digit c"
proof (cases "i < 0")
  case True
  then show ?thesis
    using that by (simp add: Itoa_def)
next
  case False
  obtain c r where "format_base 10 (nat i) = c # r"
    using format_base_nonempty [of 10 "nat i"] by (cases "format_base 10 (nat i)") auto
  then show ?thesis
    using that [of c r] False hd_format10 [of "nat i"] by (simp add: Itoa_def)
qed

lemma p_value_Itoa:
  assumes "in_int64 i"
  shows "p_value (Itoa i) = Some (TInt i)"
proof (rule Itoa_head [of i])
  fix c r
  assume i: "Itoa i = c # r" and c: "c = CHR ''-'' \<or> is_digit c"
  then have "c \<noteq> CHR ''t''" "c \<noteq> CHR ''f''" "c \<noteq> CHR ''[''" "c \<noteq> CHR 0x22"
    by (auto simp: is_digit_def)
  then show ?thesis
    using ParseInt64_Itoa [OF assms] i by (simp add: p_value_def)
qed

lemma p_value_Quote:
  assumes "toml_text s"
  shows "p_value (Quote pr s) = Some (TStr s)"
  using p_string_Quote [OF assms, of pr "[]"] by (simp add: p_value_def Quote_def p_string_def)

lemmas p_values = p_value_slice p_value_whitelist p_value_bool p_value_Itoa p_value_Quote

lemma p_lines_kv:
  assumes "k \<noteq> []" and "CHR '' '' \<notin> set k" and "hd k \<noteq> CHR ''[''"
  shows "p_lines sec (kv k v # ls) =
    (case p_value v of None \<Rightarrow> None | Some x \<Rightarrow> map_option (\<lambda>ps. (sec @ [k], x) # ps) (p_lines sec ls))"
proof -
  have "takeWhile (\<lambda>c. c \<noteq> CHR '' '') (kv k v) = k"
    using assms(2) unfolding kv_def by (subst takeWhile_append2) auto
  then have "p_key (kv k v) = Some (k, v)"
    by (simp add: p_key_def Let_def) (simp add: kv_def)
  moreover have "kv k v \<noteq> []" "hd (kv k v) = hd k"
    using assms(1) by (simp_all add: kv_def)
  ultimately show ?thesis
    using assms(3) by simp
qed

lemma p_lines_blank: "p_lines sec ([] # ls) = p_lines sec ls"
  by simp

lemma p_lines_table:
  "p_lines sec ((CHR ''['' # l) # ls) = p_lines [takeWhile (\<lambda>c. c \<noteq> CHR '']'') l] ls"
  by simp

declare p_lines.simps(2) [simp del]

section \<open>The whole file\<close>

lemma Split_lines:
  "list_all (\<lambda>l. c \<notin> set l) ls \<Longrightarrow> Split (concat (map (\<lambda>l. l @ [c]) ls)) c = ls @ [[]]"
  by (induction ls) (simp_all add: Split_append_sep Split_single)

lemma Itoa_no_newline: "CHR 0x0A \<notin> set (Itoa i)"
proof -
  have "CHR 0x0A \<notin> set (format_base 10 n)" for n
    using format10_digits [of n] by (auto simp: list_all_iff is_digit_def)
  then show ?thesis
    by (simp add: Itoa_def)
qed

lemma Join_no_newline:
  "\<forall>x \<in> set xs. c \<notin> set (w x) \<Longrightarrow> c \<notin> set sep \<Longrightarrow> c \<notin> set (Join (map w xs) sep)"
proof (induction xs)
  case (Cons x xs)
  then show ?case by (cases xs) auto
qed simp

lemma kv_no_newline: "CHR 0x0A \<notin> set k \<Longrightarrow> CHR 0x0A \<notin> set v \<Longrightarrow> CHR 0x0A \<notin> set (kv k v)"
  by (simp add: kv_def)

lemma lists_no_newline: "CHR 0x0A \<notin> set (tomlSlice pr ps)" "CHR 0x0A \<notin> set (tomlWhitelist pr es)"
  using Join_no_newline [of ps "CHR 0x0A" "Quote pr" "'', ''"] Quote_no_newline
    Join_no_newline [of es "CHR 0x0A" "whitelist_text pr" "'', ''"]
  by (simp_all add: tomlSlice_def tomlWhitelist_def whitelist_text_def)

lemma FormatBool_no_newline: "CHR 0x0A \<notin> set (FormatBool b)"
  by (simp add: FormatBool_def)

lemma toml_lines_no_newline: "list_all (\<lambda>l. CHR 0x0A \<notin> set l) (toml_lines pr c)"
  unfolding toml_lines_def
  by (simp add: kv_no_newline Quote_no_newline Itoa_no_newline FormatBool_no_newline lists_no_newline)

text \<open>What the file says, key by key.\<close>

definition toml_pairs :: "config \<Rightarrow> (string list \<times> toml_value) list" where
  "toml_pairs c =
     [([''device_name''], TStr (cfg_DeviceName c)),
      ([''mdns''], TBool (cfg_Mdns c)),
      ([''broadcast''], TInt (cfg_Broadcast c)),
      ([''watch''], TInt (cfg_Watch c)),
      ([''token''], TStr (cfg_Token c)),
      ([''peers''], TArr (map TStr (cfg_Peers c))),
      ([''max_image_bytes''], TInt (cfg_MaxImageBytes c)),
      ([''max_message_bytes''], TInt (cfg_MaxMessageBytes c)),
      ([''connection'', ''mode''], TStr (conn_Mode (cfg_Connection c))),
      ([''connection'', ''whitelist''],
        TArr (map (\<lambda>e. TTable (entry_pairs e)) (conn_Whitelist (cfg_Connection c)))),
      ([''server'', ''port''], TInt (srv_Port (cfg_Server c))),
      ([''server'', ''bind''], TStr (srv_Bind (cfg_Server c))),
      ([''api'', ''port''], TInt (api_Port (cfg_API c))),
      ([''api'', ''bind''], TStr (api_Bind (cfg_API c))),
      ([''discovery'', ''mdns''], TBool (dis_MDNS (cfg_Discovery c))),
      ([''discovery'', ''beacon''], TBool (dis_Beacon (cfg_Discovery c))),
      ([''discovery'', ''beacon_port''], TInt (dis_BeaconPort (cfg_Discovery c))),
      ([''discovery'', ''beacon_addr''], TStr (dis_BeaconAddr (cfg_Discovery c))),
      ([''clipboard'', ''backend''], TStr (cb_Backend (cfg_Clipboard c))),
      ([''log'', ''level''], TStr (log_Level (cfg_Log c))),
      ([''log'', ''file''], TStr (log_File (cfg_Log c))),
      ([''timing'', ''hello_timeout''], TStr (duration_String (HelloTimeout (cfg_Timing c)))),
      ([''timing'', ''write_timeout''], TStr (duration_String (WriteTimeout (cfg_Timing c)))),
      ([''timing'', ''peer_keepalive''], TStr (duration_String (PeerKeepalive (cfg_Timing c)))),
      ([''timing'', ''peer_backoff_initial''], TStr (duration_String (PeerBackoffInitial (cfg_Timing c)))),
      ([''timing'', ''peer_backoff_max''], TStr (duration_String (PeerBackoffMax (cfg_Timing c)))),
      ([''timing'', ''echo_window''], TStr (duration_String (EchoWindow (cfg_Timing c)))),
      ([''timing'', ''one_shot_timeout''], TStr (duration_String (OneShotTimeout (cfg_Timing c)))),
      ([''timing'', ''one_shot_grace''], TStr (duration_String (OneShotGrace (cfg_Timing c)))),
      ([''timing'', ''watch_remote_timeout''], TStr (duration_String (WatchRemoteTimeout (cfg_Timing c)))),
      ([''tls'', ''enabled''], TBool (tls_Enabled (cfg_TLS c))),
      ([''tls'', ''ca''], TStr (tls_CA (cfg_TLS c))),
      ([''tls'', ''cert''], TStr (tls_Cert (cfg_TLS c))),
      ([''tls'', ''key''], TStr (tls_Key (cfg_TLS c))),
      ([''tls'', ''verify_hostname''], TBool (tls_VerifyHostname (cfg_TLS c)))]"

text \<open>A configuration that the file can hold: text that TOML can write, numbers of 64 bits.\<close>

definition storable :: "config \<Rightarrow> bool" where
  "storable c \<longleftrightarrow>
     list_all toml_text
       ([cfg_DeviceName c, cfg_Token c, conn_Mode (cfg_Connection c), srv_Bind (cfg_Server c),
         api_Bind (cfg_API c), dis_BeaconAddr (cfg_Discovery c), cb_Backend (cfg_Clipboard c),
         log_Level (cfg_Log c), log_File (cfg_Log c), tls_CA (cfg_TLS c), tls_Cert (cfg_TLS c),
         tls_Key (cfg_TLS c)] @ cfg_Peers c) \<and>
     list_all (\<lambda>e. toml_text (wl_Name e) \<and> toml_text (wl_IP e)) (conn_Whitelist (cfg_Connection c)) \<and>
     list_all in_int64
       [cfg_Broadcast c, cfg_Watch c, cfg_MaxImageBytes c, cfg_MaxMessageBytes c,
        srv_Port (cfg_Server c), api_Port (cfg_API c), dis_BeaconPort (cfg_Discovery c)]"

lemma char_toml_text: "is_ascii s \<Longrightarrow> list_all (\<lambda>c. 0x20 \<le> byte_no c \<and> byte_no c \<noteq> 0x7F) s \<Longrightarrow> toml_text s"
  by (auto simp: toml_text_def toml_char_def valid_utf8_ascii list_all_iff)

lemma toml_text_append: "toml_text s \<Longrightarrow> toml_text t \<Longrightarrow> toml_text (s @ t)"
proof (induction s rule: valid_utf8.induct)
  case (1 s)
  show ?case
  proof (cases "s = []")
    case False
    let ?n = "rune_size s"
    have n: "0 < ?n" and rest: "valid_utf8 (drop ?n s)"
      using "1.prems"(1) False unfolding toml_text_def
      by (subst (asm) valid_utf8.simps, simp del: rune_size.simps split: if_splits)+
    have all: "list_all toml_char (take ?n s @ drop ?n s)"
      using "1.prems" by (simp add: toml_text_def)
    then have "toml_text (drop ?n s)" and ok: "list_all toml_char (take ?n s)"
      using rest by (simp_all add: toml_text_def del: append_take_drop_id)
    then have ih: "toml_text (drop ?n s @ t)"
      using "1.IH" False n "1.prems"(2) by simp
    then have "valid_utf8 (take ?n s @ drop ?n s @ t)"
      using valid_utf8_rune [OF refl n, of "drop ?n s @ t"] by (simp add: toml_text_def)
    then have "valid_utf8 (s @ t)"
      by (metis append.assoc append_take_drop_id)
    then show ?thesis
      using "1.prems" by (simp add: toml_text_def)
  qed (use "1.prems" in simp)
qed

text \<open>The text of a duration is of this kind.\<close>

lemma toml_text_digits: "list_all is_digit s \<Longrightarrow> toml_text s"
  by (rule char_toml_text) (auto simp: list_all_iff is_ascii_def is_digit_def byte_no_def byte_in_def)

lemma toml_text_format: "toml_text (format_base 10 n)"
  by (rule toml_text_digits) simp

lemma dec_fixed_digits: "list_all is_digit (dec_fixed k n)"
  by (induction k arbitrary: n) auto

lemma toml_text_frac: "toml_text (frac_text p n)"
proof -
  have "list_all is_digit (rev (dropWhile P (rev (dec_fixed p n))))" for P
    using dec_fixed_digits [of p n] by (auto simp: list_all_iff dest: set_dropWhileD)
  then have "toml_text (rev (dropWhile P (rev (dec_fixed p n))))" for P
    by (rule toml_text_digits)
  moreover have "toml_text ''.''"
    by (rule char_toml_text) (auto simp: byte_in_def byte_no_def)
  ultimately show ?thesis
    using toml_text_append [of "''.''"] by (auto simp: frac_text_def Let_def intro: char_toml_text)
qed

lemma toml_text_micro: "toml_text micro"
  unfolding toml_text_def micro_def
  by (subst valid_utf8.simps) (auto simp: byte_in_def cont_byte_def toml_char_def byte_no_def)

lemma toml_text_units:
  "toml_text ''0s''" "toml_text ''ns''" "toml_text ''s''" "toml_text ''ms''" "toml_text ''m''"
  "toml_text ''h''" "toml_text ''-''"
  by (rule char_toml_text; simp add: byte_in_def byte_no_def)+

lemma toml_text_scaled: "toml_text (scaled_text p u)"
  by (simp add: scaled_text_def toml_text_append toml_text_format toml_text_frac)

lemma toml_text_unit_Cons:
  "toml_text s \<Longrightarrow> toml_text (CHR ''m'' # s)" "toml_text s \<Longrightarrow> toml_text (CHR ''h'' # s)"
  using toml_text_append [OF toml_text_units(5)] toml_text_append [OF toml_text_units(6)] by simp_all

lemma toml_text_duration_abs: "toml_text (duration_abs u)"
  unfolding duration_abs_def Let_def
  using toml_text_units
  by (auto intro!: toml_text_unit_Cons toml_text_append toml_text_format toml_text_frac toml_text_scaled toml_text_micro)

lemma toml_text_duration [simp]: "toml_text (duration_String d)"
  using toml_text_append [OF toml_text_units(7) toml_text_duration_abs]
  by (simp add: duration_String_def toml_text_duration_abs)

lemma p_lines_toml:
  assumes "storable c"
  shows "p_lines [] (toml_lines pr c @ [[]]) = Some (toml_pairs c)"
  using assms unfolding toml_lines_def storable_def toml_pairs_def
  by (simp add: p_lines_kv p_lines_blank p_lines_table p_values)

lemma setter_of_simps:
  "setter_of parse [a] = map_of top_setters a"
  "setter_of parse [t, a] = (case map_of (table_setters parse) t of None \<Rightarrow> None | Some ks \<Rightarrow> map_of ks a)"
  by (simp_all add: setter_of_def)

lemma as_strings [simp]: "those (map (\<lambda>s. as_string (TStr s)) ps) = Some ps"
  by (induction ps) (simp_all add: as_string_def)

lemma as_entries [simp]: "those (map (\<lambda>e. as_entry (TTable (entry_pairs e))) es) = Some es"
  by (induction es) (simp_all add: as_entry_def entry_pairs_def)

definition durations :: "timing \<Rightarrow> duration list" where
  "durations t =
     [HelloTimeout t, WriteTimeout t, PeerKeepalive t, PeerBackoffInitial t, PeerBackoffMax t,
      EchoWindow t, OneShotTimeout t, OneShotGrace t, WatchRemoteTimeout t]"

lemmas set_defs = set_str_def set_bool_def set_int_def set_dur_def set_list_def

lemma fill_in_toml:
  assumes "list_all (\<lambda>d. parse (duration_String d) = Some d) (durations (cfg_Timing c))"
  shows "fill_in parse (toml_pairs c) d = Some c"
  using assms
  by (simp add: toml_pairs_def durations_def setter_of_simps top_setters_def table_setters_def set_defs comp_def)

lemma toml_decode_saved:
  assumes "storable c" and "list_all (\<lambda>d. parse (duration_String d) = Some d) (durations (cfg_Timing c))"
    and "fs p = Some f" and "f_data f = bytes_of (toml_text_of pr c)"
  shows "toml_decode parse fs p d = Decoded c (map fst (toml_pairs c))"
proof -
  have "Split (string_of (f_data f)) CHR 0x0A = toml_lines pr c @ [[]]"
    unfolding assms(4) string_of_bytes_of toml_text_of_def
    by (rule Split_lines [OF toml_lines_no_newline])
  then show ?thesis
    using assms(3) p_lines_toml [OF assms(1)] fill_in_toml [OF assms(2)] by (simp add: toml_decode_def)
qed

lemma discovery_keys_written: "set discovery_keys \<subseteq> set (map fst (toml_pairs c))"
  by (simp add: discovery_keys_def toml_pairs_def)

lemma Save_ok:
  "Save pr env d c fs = (None, fs') \<Longrightarrow>
   d_mkdir_ok d (path_dir (Path env)) \<and> d_open_ok d (Path env) \<and>
   (\<exists>m. fs' = fs(Path env \<mapsto> \<lparr>f_data = bytes_of (toml_text_of pr c), f_mode = m\<rparr>))"
  by (auto simp: Save_def writeToml_def write_file_def split: if_splits)


lemma digit_chars:
  "digit_char 0 = CHR ''0''" "digit_char (Suc 0) = CHR ''1''" "digit_char 2 = CHR ''2''" "digit_char 3 = CHR ''3''"
  "digit_char 5 = CHR ''5''"
  by code_simp+

lemma frac_text_zero: "frac_text p 0 = []"
proof -
  have "dec_fixed p 0 = replicate p CHR ''0''"
    by (induction p) (simp_all add: digit_chars replicate_append_same)
  then show ?thesis
    by (simp add: frac_text_def Let_def)
qed

definition ex_parse :: "string \<Rightarrow> duration option" where
  "ex_parse =
     map_of [(''1s'', 1 * second), (''3s'', 3 * second), (''5s'', 5 * second), (''30s'', 30 * second),
       (''2m0s'', 120 * second)]"

definition ex_saved :: config where
  "ex_saved = Default sample_env\<lparr>cfg_Token := ''a\"b'', cfg_Peers := [''10.0.0.2'', ''desk-2:40403'']\<rparr>"

lemma ex_storable: "storable ex_saved"
  unfolding storable_def ex_saved_def by code_simp

lemma ex_durations: "list_all (\<lambda>d. ex_parse (duration_String d) = Some d) (durations default_timing)"
  by (simp add: durations_def default_timing_def ex_parse_def duration_String_def duration_abs_def second_def
      frac_text_zero Let_def format_base.simps digit_chars)


text \<open>The other side of the limit: a control character that TOML has no escape for is written
  the way Go prints it, and what was saved is no TOML string.\<close>

lemma bell_not_read_back: "p_value (Quote pr [CHR 0x07]) = None"
  by (simp add: Quote_def quote_body.simps p_value_def p_string_def rune_val_def escape_rune_def IsPrint_def
      control_letters_def byte_no_def byte_in_def toml_body.simps(2) toml_simple_def toml_unicode_def hex_ok_def)

end
