(* ===== verification/Program.thy ===== *)
theory Program
  imports Cli Toml
begin

text \<open>
  The program as a whole: \<open>cmd/clipshare/main.go\<close>, \<open>cli/cli.go\<close> with its texts, \<open>version/version.go\<close>, and
  the commands of \<open>registry.go\<close> behind the loading of the configuration. \<open>config\<close> is
  \<open>configcmd_Run\<close> of \<open>Toml\<close>; what the commands that use the network leave is a parameter
  (\<open>App\<close>, \<open>Oneshot\<close> and \<open>Serve\<close> have them), as is \<open>cert\<close>, which needs no configuration.
  The property: what a configuration file that does not load makes of every command.
\<close>

section \<open>What is printed\<close>

definition Version :: string where
  "Version = ''2.1.0''"

definition text_of_lines :: "string list \<Rightarrow> string" where
  "text_of_lines ls = concat (map (\<lambda>l. l @ [CHR 0x0A]) ls)"

definition usage :: "process_env \<Rightarrow> string" where
  "usage env = text_of_lines
    [''clipshare '' @ Version @ '' - LAN clipboard sharing daemon'',
     '''',
     ''Usage:'',
     ''  clipshare version              print the current version'',
     ''  clipshare --version, -v        print the current version'',
     ''  clipshare daemon [--no-watch]  run server + clipboard watcher (foreground).'',
     ''                                 --no-watch: never broadcast the local clipboard;'',
     ''                                 only receive and write remote content.'',
     ''  clipshare send [<text>]        push text (or your clipboard) to peers.'',
     ''                                 [--oneshot]: run as transient one-shot server,'',
     ''                                 independent from daemon'',
     CHR 0x09 # ''clipshare watch [--timeout <dur>]  temporarily listen (max 120s) and write'',
     ''                                 the first incoming push to the local'',
     ''                                 clipboard, then exit'',
     ''  '',
     ''  clipshare status               show daemon status + connected clients'',
     ''  clipshare config --init        write default config to '' @ Path env,
     ''  clipshare cert                 manage the mTLS private CA and certificates'',
     ''                                 (init / issue / export / qr / list)'']"

definition printVersion :: string where
  "printVersion = text_of_lines [Version]"

text \<open>What \<open>Main\<close> itself writes to standard output and to standard error.\<close>

definition main_stdout :: "main_result \<Rightarrow> string" where
  "main_stdout r = (if r = PrintVersion then printVersion else [])"

definition main_stderr :: "process_env \<Rightarrow> main_result \<Rightarrow> string" where
  "main_stderr env r =
     (case r of
        Usage \<Rightarrow> usage env
      | Ran (Some err) \<Rightarrow> text_of_lines [''error: '' @ err]
      | _ \<Rightarrow> [])"

section \<open>main\<close>

text \<open>The parts of the program that are parameters, and what a command is given.\<close>

record surroundings =
  su_env :: process_env
  su_disk :: disk
  su_decode :: "files \<Rightarrow> string \<Rightarrow> config \<Rightarrow> decode_result"
  su_printable :: "nat \<Rightarrow> bool"
  su_can_open :: "string \<Rightarrow> bool"
  su_others :: "command \<Rightarrow> config \<Rightarrow> string list \<Rightarrow> files \<Rightarrow> string option \<times> files"
  su_cert :: "string list \<Rightarrow> files \<Rightarrow> string option \<times> files"

definition command_run :: "surroundings \<Rightarrow> command \<Rightarrow> config \<Rightarrow> string list \<Rightarrow> files \<Rightarrow> string option \<times> files" where
  "command_run su cmd cfg args fs =
     (if cmd = ConfigCmd then configcmd_Run (su_printable su) (su_env su) (su_disk su) (su_decode su) args fs
      else su_others su cmd cfg args fs)"

definition Registry_Run ::
    "surroundings \<Rightarrow> command \<Rightarrow> string list \<Rightarrow> logger \<times> files \<Rightarrow> string option \<times> logger \<times> files" where
  "Registry_Run su cmd args s =
     (if cmd = CertCmd then apsnd (Pair (fst s)) (su_cert su args (snd s))
      else configLoader_Run (su_env su) (su_decode su (snd s)) (su_can_open su) (command_run su cmd) args s)"

text \<open>How the program ends. The output is that of \<open>Main\<close>; what a command prints is not in it.\<close>

record outcome =
  oc_exit :: nat
  oc_stdout :: string
  oc_stderr :: string
  oc_files :: files

text \<open>\<open>log.Default\<close> and \<open>main\<close>.\<close>

definition log_Default :: "logger \<Rightarrow> logger" where
  "log_Default lg = snd (Setup (\<lambda>_. True) LevelInfo [] lg)"

definition main :: "surroundings \<Rightarrow> string list \<Rightarrow> logger \<times> files \<Rightarrow> outcome" where
  "main su args s =
     (case Main_dispatch (Registry_Run su) args (log_Default (fst s), snd s) of
        (r, s') \<Rightarrow>
          \<lparr>oc_exit = exit_code r, oc_stdout = main_stdout r, oc_stderr = main_stderr (su_env su) r,
           oc_files = snd s'\<rparr>)"

section \<open>Lemmas\<close>

lemma Registry_no_flag [simp]:
  "Registry ''--version'' = None" "Registry ''-v'' = None" "Registry ''version'' = None"
  by (simp_all add: Registry_def)

lemma Main_dispatch_command:
  "Registry a = Some cmd \<Longrightarrow> Main_dispatch run (a # rest) s = apfst Ran (run cmd rest s)"
  by (auto simp: Main_dispatch_def)

text \<open>Whatever is not a command prints the usage, and the exit code is that of success.\<close>

lemma main_no_command:
  "args = [] \<or> hd args \<notin> {''--version'', ''-v'', ''version''} \<and> Registry (hd args) = None \<Longrightarrow>
   main su args s = \<lparr>oc_exit = 0, oc_stdout = [], oc_stderr = usage (su_env su), oc_files = snd s\<rparr>"
  by (cases args) (auto simp: main_def Main_dispatch_def exit_code_def main_stdout_def main_stderr_def)

lemma Registry_config: "Registry ''config'' = Some ConfigCmd"
  by (simp add: Registry_def)

lemma Default_log: "cfg_Log (Default env) = \<lparr>log_Level = ''info'', log_File = []\<rparr>"
  by (simp add: Default_def Let_def)

section \<open>Property\<close>

text \<open>C36: A configuration file that TOML cannot decode stops every command but \<open>cert\<close>, with exit code 1, the
  error on standard error and no file changed; \<open>config --init\<close>, which is there to write a fresh
  configuration, among them. Once the file is removed it writes the defaults.\<close>

theorem broken_config_stays:
  assumes "su_decode su fs (Path (su_env su)) (Default (su_env su)) = DecodeError err"
    and "\<And>fs p c. fs p = None \<Longrightarrow> su_decode su fs p c = NotExist"
    and "d_mkdir_ok (su_disk su) (path_dir (Path (su_env su)))" and "d_open_ok (su_disk su) (Path (su_env su))"
  shows "(Registry a = Some cmd \<and> cmd \<noteq> CertCmd \<longrightarrow>
      (let r = main su (a # args) (lg, fs)
       in oc_exit r = 1 \<and> oc_stderr r = text_of_lines [''error: '' @ err] \<and> oc_files r = fs))
    \<and> (let r = main su [''config'', ''--init''] (lg, fs(Path (su_env su) := None))
       in oc_exit r = 0 \<and> oc_files r = fs(Path (su_env su) \<mapsto>
            \<lparr>f_data = bytes_of (toml_text_of (su_printable su) (Default (su_env su))), f_mode = mode_0666\<rparr>))"
proof -
  let ?p = "Path (su_env su)"
  have "Load (su_env su) (su_decode su fs) = Inl err"
    using assms(1) by (simp add: Load_def)
  then have "Registry a = Some cmd \<and> cmd \<noteq> CertCmd \<longrightarrow> main su (a # args) (lg, fs) =
      \<lparr>oc_exit = 1, oc_stdout = [], oc_stderr = text_of_lines [''error: '' @ err], oc_files = fs\<rparr>"
    by (auto simp: main_def Main_dispatch_command Registry_Run_def configLoader_Run_def exit_code_def
        main_stdout_def main_stderr_def)
  moreover have "Load (su_env su) (su_decode su (fs(?p := None))) = Inr (Default (su_env su))"
    using assms(2) by (intro Load_missing) simp
  then have "main su [''config'', ''--init''] (lg, fs(?p := None)) = \<lparr>oc_exit = 0, oc_stdout = [], oc_stderr = [], oc_files = fs(?p \<mapsto>
      \<lparr>f_data = bytes_of (toml_text_of (su_printable su) (Default (su_env su))), f_mode = mode_0666\<rparr>)\<rparr>"
    using assms(3,4)
    by (simp add: main_def Main_dispatch_command Registry_config Registry_Run_def configLoader_Run_def
        Default_log ParseLevel_names Setup_def command_run_def configcmd_Run_def Save_def writeToml_def
        write_file_def exit_code_def main_stdout_def main_stderr_def)
  ultimately show ?thesis
    by simp
qed

definition ex_surroundings :: surroundings where
  "ex_surroundings =
     \<lparr>su_env = sample_env, su_disk = \<lparr>d_mkdir_ok = (\<lambda>_. True), d_open_ok = (\<lambda>_. True)\<rparr>,
      su_decode = (\<lambda>fs p c. if fs p = None then NotExist else DecodeError ''expected value''),
      su_printable = (\<lambda>_. True), su_can_open = (\<lambda>_. True),
      su_others = (\<lambda>_ _ _ fs. (None, fs)), su_cert = (\<lambda>_ fs. (None, fs))\<rparr>"

theorem broken_config_stays_witness:
  "oc_exit (main ex_surroundings [''config'', ''--init'']
      (\<lparr>lg_file = None, lg_current = LevelError, lg_lines = []\<rparr>,
       [Path sample_env \<mapsto> \<lparr>f_data = [], f_mode = mode_0666\<rparr>])) = 1"
  using broken_config_stays [of ex_surroundings "[Path sample_env \<mapsto> \<lparr>f_data = [], f_mode = mode_0666\<rparr>]"
      "''expected value''" "''config''" ConfigCmd "[''--init'']"
      "\<lparr>lg_file = None, lg_current = LevelError, lg_lines = []\<rparr>"]
  by (simp add: ex_surroundings_def Registry_config Let_def)

end
