(* ===== verification/WatchRun.thy ===== *)
theory WatchRun
  imports Watcher
begin

text \<open>
  \<open>Watcher.Run\<close> of \<open>clip/watch.go\<close> as a whole, over time: when it checks the clipboard, by its ticker
  or after notifications, and what it reports of a desktop that changes meanwhile. The
  property: what stays on the clipboard gets reported.
\<close>

section \<open>When the clipboard is checked\<close>

text \<open>The ticks of \<open>time.NewTicker\<close> between \<open>start\<close> and the time \<open>Run\<close> is cancelled.\<close>

definition poll_ticks :: "time \<Rightarrow> duration \<Rightarrow> time \<Rightarrow> time list" where
  "poll_ticks start ival cancel =
     map (\<lambda>k. start + int k * ival) [1..<Suc (nat ((cancel - start - 1) div ival))]"

text \<open>Notifications come at the times \<open>ns\<close>; a check takes no time.\<close>

definition check_times :: "watcher \<Rightarrow> time \<Rightarrow> time list \<Rightarrow> time \<Rightarrow> time list" where
  "check_times wt start ns cancel =
     (if notified wt then run_events (map (\<lambda>t. (t, Notify)) ns @ [(cancel, Cancel)])
      else poll_ticks start (interval wt) cancel)"

text \<open>
  The checks at these times; \<open>desk\<close> gives the desktop's state at each time. The daemon itself
  writes nothing meanwhile (\<open>watch_run\<close> in \<open>Watcher\<close> has its writes).
\<close>

fun run_checks :: "'w read_fn \<Rightarrow> (time \<Rightarrow> 'w) \<Rightarrow> time list \<Rightarrow> watcher \<Rightarrow> content list \<times> watcher" where
  "run_checks rd desk [] wt = ([], wt)"
| "run_checks rd desk (t # ts) wt =
     (case check rd (desk t) wt of
        (None, wt1) \<Rightarrow> run_checks rd desk ts wt1
      | (Some c, wt1) \<Rightarrow> apfst (Cons c) (run_checks rd desk ts wt1))"

definition Watcher_Run ::
    "'w read_fn \<Rightarrow> (time \<Rightarrow> 'w) \<Rightarrow> time \<Rightarrow> time list \<Rightarrow> time \<Rightarrow> watcher \<Rightarrow> content list \<times> watcher" where
  "Watcher_Run rd desk start ns cancel wt =
     run_checks rd desk (check_times wt start ns cancel) (run_start rd (desk start) wt)"

section \<open>The times\<close>

lemma poll_ticks_range:
  assumes "t \<in> set (poll_ticks start ival cancel)" and "0 < ival"
  shows "start < t \<and> t < cancel"
proof -
  obtain k where k: "1 \<le> k" "k \<le> nat ((cancel - start - 1) div ival)" "t = start + int k * ival"
    using assms(1) by (auto simp: poll_ticks_def)
  then have "int k * ival \<le> (cancel - start - 1) div ival * ival"
    using assms(2) by (intro mult_right_mono) linarith+
  also have "\<dots> \<le> cancel - start - 1"
    using div_mult_mod_eq [of "cancel - start - 1" ival] assms(2) pos_mod_sign [of ival "cancel - start - 1"] by linarith
  finally show ?thesis
    using k assms(2) by auto
qed

lemma poll_ticks_last:
  assumes "0 < ival" and "start \<le> a" and "a + ival < cancel"
  shows "poll_ticks start ival cancel \<noteq> []" and "a \<le> last (poll_ticks start ival cancel)"
proof -
  let ?d = "cancel - start - 1"
  have "ival \<le> ?d"
    using assms by linarith
  then have q: "1 \<le> ?d div ival"
    using assms(1) by (simp add: pos_imp_zdiv_pos_iff int_one_le_iff_zero_less)
  then show "poll_ticks start ival cancel \<noteq> []"
    by (simp add: poll_ticks_def)
  have "?d div ival * ival > ?d - ival"
    using div_mult_mod_eq [of ?d ival] pos_mod_bound [OF assms(1), of ?d] by linarith
  then show "a \<le> last (poll_ticks start ival cancel)"
    using q assms by (simp add: poll_ticks_def last_map Suc_le_eq)
qed

lemma settle_append_cancel:
  assumes "d \<le> u" and "\<forall>x \<in> set xs. fst x + eventSettleDelay \<le> u"
  shows "settle d (xs @ [(u, Cancel)]) = map_option (apsnd (\<lambda>ys. ys @ [(u, Cancel)])) (settle d xs)"
  using assms by (induction d xs rule: settle.induct) (auto split: signal.split)

lemma settle_times:
  assumes "settle d xs = Some (d', ys)" and "sorted (map fst xs)"
  shows "d' = d \<or> (\<exists>x \<in> set xs. d' = fst x + eventSettleDelay)" and "\<forall>y \<in> set ys. d' \<le> fst y"
  using assms by (induction d xs rule: settle.induct) (auto split: if_splits signal.splits, fastforce)

lemma run_events_cancelled:
  assumes "sorted (map fst xs)" and "\<forall>x \<in> set xs. fst x + eventSettleDelay \<le> u"
  shows "run_events (xs @ [(u, Cancel)]) = run_events xs"
  using assms
proof (induction xs rule: run_events.induct)
  case (2 t x xs)
  have "run_events (ys @ [(u, Cancel)]) = run_events ys"
    if "x = Notify" and st: "settle (t + eventSettleDelay) xs = Some (d, ys)" for d ys
    using "2.IH" [OF that refl] "2.prems" settle_covers(3,4) [OF st] by auto
  then show ?case
    using settle_append_cancel [of "t + eventSettleDelay" u xs] 2(2,3)
    by (cases x) (auto split: option.split)
qed simp

lemma run_events_times:
  assumes "sorted (map fst xs)"
  shows "sorted (run_events xs) \<and> (\<forall>d \<in> set (run_events xs). \<exists>x \<in> set xs. d = fst x + eventSettleDelay)"
  using assms
proof (induction xs rule: run_events.induct)
  case (2 t x xs)
  show ?case
  proof (cases "settle (t + eventSettleDelay) xs")
    case (Some r)
    obtain d ys where r: "r = (d, ys)" by (cases r)
    note st = Some [unfolded r]
    have xs: "sorted (map fst xs)"
      using "2.prems" by simp
    note ys = settle_covers(3,4) [OF st xs]
    have "x = Notify \<Longrightarrow> sorted (run_events ys) \<and>
        (\<forall>d \<in> set (run_events ys). \<exists>x \<in> set ys. d = fst x + eventSettleDelay)"
      using 2 st ys(1) by blast
    then show ?thesis
      using st settle_times [OF st xs] ys(2) by (cases x) (auto 0 4 simp: eventSettleDelay_def millisecond_def)
  qed (cases x; simp)
qed simp

lemma sorted_le_last: "sorted ts \<Longrightarrow> t \<in> set ts \<Longrightarrow> t \<le> last ts"
  by (induction ts) auto

section \<open>What the checks see\<close>

text \<open>The key of what the watcher has told last: what was there at the start counts as told.\<close>

definition told :: "u64 \<Rightarrow> content list \<Rightarrow> u64" where
  "told h cs = (if cs = [] then h else hashContent (last cs))"

lemma told_check:
  assumes "lastHash wt = h \<or> lastHash wt = skipHash wt"
    and "run_checks rd desk ts wt = (cs, wt')"
  shows "skipHash wt' = skipHash wt" and "lastHash wt' = told h cs \<or> lastHash wt' = skipHash wt'"
proof -
  have "skipHash wt' = skipHash wt \<and> (lastHash wt' = told h cs \<or> lastHash wt' = skipHash wt')"
    using assms
  proof (induction ts arbitrary: wt h cs)
    case (Cons t ts)
    obtain o1 wt1 where c: "check rd (desk t) wt = (o1, wt1)" by force
    obtain cs' where cs': "run_checks rd desk ts wt1 = (cs', wt')" "cs = (case o1 of None \<Rightarrow> cs' | Some c \<Rightarrow> c # cs')"
      using Cons.prems(2) c by (cases o1; cases "run_checks rd desk ts wt1") auto
    have "skipHash wt1 = skipHash wt"
      using check_skipHash [of rd "desk t" wt] c by simp
    moreover have "lastHash wt1 = (case o1 of None \<Rightarrow> h | Some c \<Rightarrow> hashContent c) \<or> lastHash wt1 = skipHash wt1"
      using c Cons.prems(1) by (auto simp: check_def Let_def split: sum.splits if_splits)
    ultimately show ?case
      using Cons.IH [OF _ cs'(1), of "case o1 of None \<Rightarrow> h | Some c \<Rightarrow> hashContent c"] cs'(2)
      by (cases o1) (auto simp: told_def split: if_splits)
  qed (simp add: told_def)
  then show "skipHash wt' = skipHash wt" and "lastHash wt' = told h cs \<or> lastHash wt' = skipHash wt'"
    by blast+
qed

lemma last_check:
  assumes "run_checks rd desk ts wt = (cs, wt')" and "ts \<noteq> []" and "rd (desk (last ts)) = Inr c"
  shows "lastHash wt' = hashContent c"
  using assms
proof (induction ts arbitrary: wt cs)
  case (Cons t ts)
  show ?case
  proof (cases "ts = []")
    case True
    then show ?thesis
      using Cons.prems check_lastHash [of rd "desk t" c wt] by (auto split: option.splits prod.splits)
  next
    case False
    then show ?thesis
      using Cons by (auto split: option.splits prod.splits simp: apfst_def map_prod_def)
  qed
qed simp

text \<open>
  Once its notifier has died (\<open>wl-paste\<close> killed, the X connection closed) no notification comes, the
  channel stays open, and the watcher never looks again; there is no way back to polling.
\<close>

lemma deaf_without_notifications:
  "notified wt \<Longrightarrow> fst (Watcher_Run rd desk start [] cancel wt) = []"
  by (simp add: Watcher_Run_def check_times_def)


text \<open>A desktop whose clipboard changes after a second, watched by a ticker of half a second.\<close>

definition ex_desk :: "time \<Rightarrow> content" where
  "ex_desk t = text_content (if t < second then ''a'' else ''b'')"

lemma ex_key: "hashContent (text_content ''b'') \<noteq> 0"
  by code_simp


end
