(* ===== verification/Refinement.thy ===== *)
theory Refinement
  imports Prelude
begin

text \<open>
  Refinement by an abstraction function: a machine of the program implements the machine of a
  specification when each step, seen through the abstraction, is a step of the specification
  (its label depends on the state), and makes visible what that step shows. Then whole runs
  agree.
\<close>

primrec labels :: "('e \<Rightarrow> 's \<Rightarrow> 'l) \<Rightarrow> ('e \<Rightarrow> 's \<Rightarrow> 's) \<Rightarrow> 'e list \<Rightarrow> 's \<Rightarrow> 'l list" where
  "labels label step [] s = []"
| "labels label step (x # xs) s = label x s # labels label step xs (step x s)"

primrec observed :: "('l \<Rightarrow> 'a \<Rightarrow> 'o list) \<Rightarrow> ('l \<Rightarrow> 'a \<Rightarrow> 'a) \<Rightarrow> 'l list \<Rightarrow> 'a \<Rightarrow> 'o list" where
  "observed shows spec [] a = []"
| "observed shows spec (l # ls) a = shows l a @ observed shows spec ls (spec l a)"

locale refined_machine = machine initial step inv
  for initial :: "'s \<Rightarrow> bool" and step :: "'e \<Rightarrow> 's \<Rightarrow> 's" and inv :: "'s \<Rightarrow> bool" +
  fixes abs_of :: "'s \<Rightarrow> 'a"
    and label :: "'e \<Rightarrow> 's \<Rightarrow> 'l"
    and spec :: "'l \<Rightarrow> 'a \<Rightarrow> 'a"
    and seen :: "'s \<Rightarrow> 'o list"
    and shown :: "'l \<Rightarrow> 'a \<Rightarrow> 'o list"
  assumes abs_step: "inv s \<Longrightarrow> abs_of (step e s) = spec (label e s) (abs_of s)"
    and seen_step: "inv s \<Longrightarrow> seen (step e s) = seen s @ shown (label e s) (abs_of s)"
begin

lemma refines_run:
  "inv s \<Longrightarrow>
     abs_of (fold step es s) = fold spec (labels label step es s) (abs_of s) \<and>
     seen (fold step es s) = seen s @ observed shown spec (labels label step es s) (abs_of s)"
  by (induction es arbitrary: s) (simp_all add: inv_step abs_step seen_step)

lemma refines_reachable:
  "initial s \<Longrightarrow>
     abs_of (fold step es s) = fold spec (labels label step es s) (abs_of s) \<and>
     seen (fold step es s) = seen s @ observed shown spec (labels label step es s) (abs_of s)"
  by (intro refines_run inv_initial)

end

end
