(* ===== verification/Bus.thy ===== *)
theory Bus
  imports Handshake Refinement
begin

text \<open>
  What the server promises to those who are connected, as a machine of its own: a bus with
  members and links. A member's clipboard message that is news goes to everyone else, a
  local change to everyone who did not just send the same. Here is nothing of JSON, errors,
  handshakes, replies and identifiers. The property: the server of \<open>websocket\<close> implements the
  bus, in every run and for every receiver.
\<close>

section \<open>The bus\<close>

datatype receiver = ToClient string | ToPeer nat

text \<open>
  \<open>bus_heard\<close> has the members, each with the key and the time of what it sent last;
  \<open>bus_last\<close> the same of what was passed on last.
\<close>

record bus =
  bus_window :: duration
  bus_limit :: int
  bus_heard :: "string \<rightharpoonup> u64 \<times> time"
  bus_linked :: "nat \<Rightarrow> bool"
  bus_last :: "u64 \<times> time"

datatype bus_event =
    Enter string | Exit string | Link nat | Unlink nat | Nothing
  | Announce env content string
  | Hear env string content string

definition stale :: "bus \<Rightarrow> env \<Rightarrow> content \<Rightarrow> u64 \<times> time \<Rightarrow> bool" where
  "stale b e c kt \<longleftrightarrow> fst kt = ContentKey c \<and> since (now e) (snd kt) < bus_window b"

definition oversized :: "bus \<Rightarrow> content \<Rightarrow> bool" where
  "oversized b c \<longleftrightarrow> Kind c = KindImage \<and> int (length (Image c)) > bus_limit b"

fun bus_step :: "(content \<Rightarrow> string \<Rightarrow> 'w \<Rightarrow> 'w) \<Rightarrow> bus_event \<Rightarrow> bus \<times> 'w \<Rightarrow> bus \<times> 'w" where
  "bus_step cb (Enter i) (b, w) = (b\<lparr>bus_heard := (bus_heard b)(i \<mapsto> (0, zero_time))\<rparr>, w)"
| "bus_step cb (Exit i) (b, w) = (b\<lparr>bus_heard := (bus_heard b)(i := None)\<rparr>, w)"
| "bus_step cb (Link p) (b, w) = (b\<lparr>bus_linked := (bus_linked b)(p := True)\<rparr>, w)"
| "bus_step cb (Unlink p) (b, w) = (b\<lparr>bus_linked := (bus_linked b)(p := False)\<rparr>, w)"
| "bus_step cb (Hear e i c from) (b, w) =
     (let b' = b\<lparr>bus_heard := (bus_heard b)(i \<mapsto> (ContentKey c, now e))\<rparr>
      in if stale b e c (bus_last b) then (b', w)
         else (b'\<lparr>bus_last := (ContentKey c, now e)\<rparr>, cb c from w))"
| "bus_step cb _ bw = bw"

text \<open>Who is sent what; nothing to those whose connection does not take it.\<close>

fun reaches :: "env \<Rightarrow> receiver \<Rightarrow> bool" where
  "reaches e (ToClient i) = wok e i"
| "reaches e (ToPeer p) = pok e p"

fun bus_receives :: "bus_event \<Rightarrow> bus \<Rightarrow> receiver \<Rightarrow> bool" where
  "bus_receives (Announce e c from) b (ToClient i) =
     (case bus_heard b i of None \<Rightarrow> False | Some kt \<Rightarrow> \<not> stale b e c kt)"
| "bus_receives (Announce e c from) b (ToPeer p) = bus_linked b p"
| "bus_receives (Hear e i c from) b r =
     (\<not> stale b e c (bus_last b) \<and> \<not> oversized b c
      \<and> (case r of ToClient j \<Rightarrow> j \<noteq> i \<and> bus_heard b j \<noteq> None | ToPeer p \<Rightarrow> bus_linked b p))"
| "bus_receives _ b r = False"

fun bus_frame :: "bus_event \<Rightarrow> (env \<times> json) option" where
  "bus_frame (Announce e c from) = Some (e, clipboard_frame c (UnixMilli (now e)) from)"
| "bus_frame (Hear e i c from) = Some (e, clipboard_frame c (UnixMilli (now e)) from)"
| "bus_frame _ = None"

definition bus_shows :: "receiver \<Rightarrow> bus_event \<Rightarrow> bus \<times> 'w \<Rightarrow> json list" where
  "bus_shows r l bw =
     (case bus_frame l of
        None \<Rightarrow> []
      | Some (e, m) \<Rightarrow> if bus_receives l (fst bw) r \<and> reaches e r then [m] else [])"

section \<open>The server seen as a bus\<close>

definition bus_of :: "server \<Rightarrow> bus" where
  "bus_of s =
     \<lparr>bus_window = EchoWindow (cfg_Timing (sv_cfg s)), bus_limit = cfg_MaxImageBytes (sv_cfg s),
      bus_heard = (\<lambda>i. map_option (\<lambda>c. (cl_lastInKey c, cl_lastInAt c)) (map_of (sv_clients s) i)),
      bus_linked = (\<lambda>p. map_of (sv_peers s) p = Some True),
      bus_last = (sv_lastBroadcast s, sv_lastBroadcastT s)\<rparr>"

text \<open>The clipboard frames written to a receiver.\<close>

definition frames_for :: "receiver \<Rightarrow> out_event list \<Rightarrow> json list" where
  "frames_for r xs =
     List.map_filter
       (\<lambda>x. case x of
          Sent i m \<Rightarrow> if r = ToClient i \<and> is_clip_frame m then Some m else None
        | SentPeer p m \<Rightarrow> if r = ToPeer p then Some m else None
        | _ \<Rightarrow> None) xs"

text \<open>What an event of the server is for the bus.\<close>

fun hears :: "read_result \<Rightarrow> (content \<times> string) option" where
  "hears (Frame txt) =
     (case unmarshal_envelope txt of
        None \<Rightarrow> None
      | Some env \<Rightarrow>
          if env_Type env \<noteq> MsgClipboard then None
          else
            (case unmarshal_clipboard (env_Data env) of
               None \<Rightarrow> None
             | Some m \<Rightarrow> map_option (\<lambda>c. (c, cm_From m)) (MsgToContent m)))"
| "hears ReadError = None"

definition admits :: "server \<Rightarrow> string \<Rightarrow> read_result \<Rightarrow> bool" where
  "admits s i r =
     (case r of
        ReadError \<Rightarrow> False
      | Frame txt \<Rightarrow>
          (case unmarshal_envelope txt of
             None \<Rightarrow> False
           | Some env \<Rightarrow>
               env_Type env = MsgHello \<and>
               (case unmarshal_hello (env_Data env) of
                  None \<Rightarrow> False
                | Some h \<Rightarrow>
                    conn_Mode (cfg_Connection (sv_cfg s)) = ModeWhitelist \<longrightarrow>
                      InWhitelist (sv_cfg s) (client_ip i s) (h_Name h))))"

fun bus_label :: "event \<Rightarrow> server \<Rightarrow> bus_event" where
  "bus_label (Connect t a ok) s = (case snd (handleWS t a ok s) of None \<Rightarrow> Nothing | Some i \<Rightarrow> Enter i)"
| "bus_label (Read e i r) s =
     (case client_ready i s of
        None \<Rightarrow> Nothing
      | Some False \<Rightarrow> if admits s i r then Nothing else Exit i
      | Some True \<Rightarrow>
          if r = ReadError then Exit i
          else (case hears r of None \<Rightarrow> Nothing | Some (c, from) \<Rightarrow> Hear e i c from))"
| "bus_label (LocalChange e c from) s = Announce e c from"
| "bus_label (PeerUp p) s = Link p"
| "bus_label (PeerDown p) s = Unlink p"

section \<open>What each operation does to the bus\<close>

lemma frames_for_simps [simp]:
  "frames_for r [] = []" "frames_for r (xs @ ys) = frames_for r xs @ frames_for r ys"
  "frames_for r [Sent i m] = (if r = ToClient i \<and> is_clip_frame m then [m] else [])"
  "frames_for r [Closed i x] = []" "frames_for r [Refused n] = []"
  by (simp_all add: frames_for_def List.map_filter_def)

lemma frames_for_sent_events:
  "distinct ids \<Longrightarrow> frames_for r (sent_events e (clipboard_frame c t from) ids) =
     (if \<exists>i \<in> set ids. r = ToClient i \<and> wok e i then [clipboard_frame c t from] else [])"
  by (induction ids) (auto simp: sent_events_def frames_for_def List.map_filter_def)

lemma frames_for_peer_events:
  assumes "distinct (keys ps)"
  shows "frames_for r (peer_events e m ps) =
     (if \<exists>p. r = ToPeer p \<and> map_of ps p = Some True \<and> pok e p then [m] else [])"
  using assms
proof (induction ps)
  case (Cons q ps)
  have "map_of ps (fst q) = None"
    using Cons.prems by (simp add: map_of_eq_None_iff)
  moreover have "frames_for r (peer_events e m (q # ps)) =
      (if snd q \<and> pok e (fst q) \<and> r = ToPeer (fst q) then [m] else []) @ frames_for r (peer_events e m ps)"
    by (simp add: peer_events_def frames_for_def List.map_filter_def)
  ultimately show ?case
    using Cons by (cases r) (auto simp del: frames_for_simps(2))
qed (simp add: peer_events_def)

lemma bus_of_append [simp]: "bus_of (append_out xs s) = bus_of s"
  by (simp add: bus_of_def)

lemma bus_of_fields:
  "bus_heard (bus_of s) i = map_option (\<lambda>c. (cl_lastInKey c, cl_lastInAt c)) (map_of (sv_clients s) i)"
  "bus_linked (bus_of s) p \<longleftrightarrow> map_of (sv_peers s) p = Some True"
  "stale (bus_of s) e c kt \<longleftrightarrow>
     fst kt = ContentKey c \<and> since (now e) (snd kt) < EchoWindow (cfg_Timing (sv_cfg s))"
  "stale (bus_of s) e c (bus_last (bus_of s)) \<longleftrightarrow> is_echo e (ContentKey c) s"
  "oversized (bus_of s) c \<longleftrightarrow> too_big s c"
  by (auto simp: bus_of_def stale_def is_echo_def oversized_def too_big_def)

lemma bus_of_static:
  "bus_of (s\<lparr>sv_idSeq := n\<rparr>) = bus_of s" "bus_of (emit x s) = bus_of s"
  by (simp_all add: bus_of_def)

lemma bus_of_disconnect [simp]:
  "bus_of (disconnect i s) = (bus_of s)\<lparr>bus_heard := (bus_heard (bus_of s))(i := None)\<rparr>"
  by (auto simp: bus_of_def) (simp_all add: disconnect_def)

lemma bus_of_noteIncoming [simp]:
  assumes "map_of (sv_clients s) i \<noteq> None"
  shows "bus_of (noteIncoming e i k s) = (bus_of s)\<lparr>bus_heard := (bus_heard (bus_of s))(i \<mapsto> (k, now e))\<rparr>"
  using assms by (auto simp: bus_of_def noteIncoming_def) (auto simp: update_client_def)

lemma admits_iff: "admits s i r \<longleftrightarrow> (\<exists>h. hello_accepted s i r h)"
  by (auto simp: admits_def hello_accepted_def split: read_result.split option.split)

definition bus_inv :: "server \<Rightarrow> bool" where
  "bus_inv s \<longleftrightarrow> server_inv s \<and> [] \<notin> client_ids s"

lemma bus_inv_distinct: "bus_inv s \<Longrightarrow> distinct (keys (sv_clients s)) \<and> distinct (keys (sv_peers s))"
  by (simp add: bus_inv_def server_inv_def)

lemma bus_heard_None: "bus_heard (bus_of s) i = None \<longleftrightarrow> i \<notin> client_ids s"
  by (auto simp: bus_of_def client_ids_def map_of_eq_None_iff)

lemma bus_Connect:
  "bus_step cb (bus_label (Connect t a ok) s) (bus_of s, w) = (bus_of (fst (handleWS t a ok s)), w)"
  "frames_for r (sv_out (fst (handleWS t a ok s))) = frames_for r (sv_out s)"
  by (auto simp: handleWS_def Let_def newID_def bus_of_static) (auto simp: bus_of_def new_client_def)

lemma frames_for_fan_out:
  assumes "bus_inv s" and "distinct ids"
  shows "frames_for r (sent_events e (clipboard_frame c t from) ids @ peer_events e (clipboard_frame c t from) (sv_peers s)) =
    (if (case r of ToClient i \<Rightarrow> i \<in> set ids | ToPeer p \<Rightarrow> bus_linked (bus_of s) p) \<and> reaches e r
     then [clipboard_frame c t from] else [])"
  using assms bus_inv_distinct [OF assms(1)]
  by (cases r) (auto simp: frames_for_sent_events frames_for_peer_events bus_of_def)

lemma bus_LocalChange:
  assumes "bus_inv s"
  shows "bus_of (BroadcastLocal e c from s) = bus_of s"
    and "frames_for r (sv_out (BroadcastLocal e c from s)) =
      frames_for r (sv_out s) @ bus_shows r (Announce e c from) (bus_of s, w)"
proof -
  have d: "distinct (keys (sv_clients s))"
    using bus_inv_distinct [OF assms] by simp
  have "i \<in> set (local_ids e c s) \<longleftrightarrow> bus_receives (Announce e c from) (bus_of s) (ToClient i)" for i
  proof (cases "map_of (sv_clients s) i")
    case None
    then have "i \<notin> set (keys (sv_clients s))"
      by (simp add: map_of_eq_None_iff)
    then show ?thesis
      using None set_local_ids_subset [of e c s] by (auto simp: bus_of_fields)
  next
    case (Some cl)
    then show ?thesis
      using local_ids_iff [OF d Some, of e c] by (simp add: bus_of_fields recentlySent_def)
  qed
  then show "frames_for r (sv_out (BroadcastLocal e c from s)) =
      frames_for r (sv_out s) @ bus_shows r (Announce e c from) (bus_of s, w)"
    using frames_for_fan_out [OF assms distinct_local_ids [OF d, of e c], of r e c]
    by (cases r) (simp_all add: BroadcastLocal_append bus_shows_def)
qed (simp add: BroadcastLocal_append)

lemma bus_relayed:
  assumes "bus_inv s" and "i \<in> client_ids s" and "\<not> is_echo e (ContentKey c) s"
  shows "bus_step cb (Hear e i c from) (bus_of s, w) = (bus_of (relayed e i c from s), cb c from w)"
    and "frames_for r (sv_out (relayed e i c from s)) =
      frames_for r (sv_out s) @ bus_shows r (Hear e i c from) (bus_of s, w')"
proof -
  have i: "map_of (sv_clients s) i \<noteq> None" "i \<noteq> []"
    using assms(1,2) bus_heard_None [of s i] by (auto simp: bus_inv_def bus_of_def)
  have fresh: "\<not> stale (bus_of s) e c (bus_last (bus_of s))"
    using assms(3) by (simp add: bus_of_fields(4))
  have "bus_of (relayed e i c from s) =
      (bus_of (noteIncoming e i (ContentKey c) s))\<lparr>bus_last := (ContentKey c, now e)\<rparr>"
    by (simp add: relayed_def Broadcast_append) (simp add: bus_of_def)
  then show "bus_step cb (Hear e i c from) (bus_of s, w) = (bus_of (relayed e i c from s), cb c from w)"
    using i fresh by (simp add: Let_def)
  let ?m = "clipboard_frame c (UnixMilli (now e)) from"
  have "distinct (relay_ids i s)" "set (relay_ids i s) = client_ids s - {i}"
    using bus_inv_distinct [OF assms(1)] i(2) by (auto simp: distinct_relay_ids set_relay_ids client_ids_def)
  then have "frames_for r (sent_events e ?m (relay_ids i s) @ peer_events e ?m (sv_peers s)) =
      (if (case r of ToClient j \<Rightarrow> j \<noteq> i \<and> bus_heard (bus_of s) j \<noteq> None | ToPeer p \<Rightarrow> bus_linked (bus_of s) p)
          \<and> reaches e r then [?m] else [])"
    by (subst frames_for_fan_out [OF assms(1)]) (auto simp: bus_heard_None split: receiver.split)
  moreover have "frames_for r (sv_out (relayed e i c from s)) = frames_for r (sv_out s) @
      (if too_big s c then [] else frames_for r (sent_events e ?m (relay_ids i s) @ peer_events e ?m (sv_peers s)))"
    by (simp add: sv_out_relayed)
  ultimately show "frames_for r (sv_out (relayed e i c from s)) =
      frames_for r (sv_out s) @ bus_shows r (Hear e i c from) (bus_of s, w')"
    using fresh by (simp add: bus_shows_def bus_of_fields(5))
qed

text \<open>Reads. What is not a clipboard message leaves the bus alone, or ends a membership.\<close>

lemma frames_for_cl_write [simp]:
  "\<not> is_clip_frame m \<Longrightarrow> frames_for r (sv_out (cl_write e i m s)) = frames_for r (sv_out s)"
  by (simp add: cl_write_append)

lemma frames_for_disconnect [simp]: "frames_for r (sv_out (disconnect i s)) = frames_for r (sv_out s)"
  by simp

lemma bus_of_cl_write [simp]: "bus_of (cl_write e i m s) = bus_of s"
  by (simp add: cl_write_append)

lemma bus_of_ready [simp]:
  "bus_of (update_client i (\<lambda>c. c\<lparr>cl_ready := b\<rparr>) s) = bus_of s"
  "bus_of (update_client i (set_hello h) s) = bus_of s"
  by (auto simp: bus_of_def set_hello_def option.map_comp comp_def)
    (simp_all add: update_client_def)

lemma bus_handleHello:
  assumes "onClientConnect hk = None"
  shows "bus_of (fst (handleHello e hk i r (s, w))) =
      (if admits s i r then bus_of s else (bus_of s)\<lparr>bus_heard := (bus_heard (bus_of s))(i := None)\<rparr>)"
    and "frames_for q (sv_out (fst (handleHello e hk i r (s, w)))) = frames_for q (sv_out s)"
    and "snd (handleHello e hk i r (s, w)) = w"
proof -
  have acc: "bus_of (fst (accept_hello e hk i h (s, w))) = bus_of s
      \<and> frames_for q (sv_out (fst (accept_hello e hk i h (s, w)))) = frames_for q (sv_out s)
      \<and> snd (accept_hello e hk i h (s, w)) = w" for h
    using assms by (simp add: accept_hello_def run_connect_hook_def Let_def) (simp add: update_client_def)
  show "bus_of (fst (handleHello e hk i r (s, w))) =
      (if admits s i r then bus_of s else (bus_of s)\<lparr>bus_heard := (bus_heard (bus_of s))(i := None)\<rparr>)"
    using acc by (simp add: handleHello_def admits_def Let_def reject_def sendError_def
        split: read_result.split option.split)
  show "frames_for q (sv_out (fst (handleHello e hk i r (s, w)))) = frames_for q (sv_out s)"
    using acc by (simp add: handleHello_def Let_def reject_def sendError_def
        split: read_result.split option.split)
  show "snd (handleHello e hk i r (s, w)) = w"
    using acc by (simp add: handleHello_def Let_def split: read_result.split option.split)
qed

lemma handleMessage_silent:
  assumes "r \<noteq> ReadError" and "hears r = None"
  shows "bus_of (fst (handleMessage e hk i r (s, w))) = bus_of s
    \<and> frames_for q (sv_out (fst (handleMessage e hk i r (s, w)))) = frames_for q (sv_out s)
    \<and> snd (handleMessage e hk i r (s, w)) = w"
proof -
  obtain t where "r = Frame t"
    using assms(1) by (cases r) auto
  then show ?thesis
    using assms(2)
    by (simp add: handleMessage_def Let_def sendError_def pong_def handleClipboard_empty
        split: option.splits if_splits)
qed

lemma handleMessage_hears_clip:
  assumes "hears r = Some (c, from)"
  shows "\<exists>m. MsgToContent m = Some c \<and> cm_From m = from
    \<and> handleMessage e hk i r sw = handleClipboard e hk i m sw"
  using assms
  by (cases r) (auto simp: handleMessage_def Let_def split: option.splits if_splits)

lemma bus_handleClipboard:
  assumes "bus_inv s" and "i \<in> client_ids s" and "MsgToContent m = Some c"
  shows "bus_step cb (Hear e i c (cm_From m)) (bus_of s, w) =
      (let sw = handleClipboard e (daemon_hooks cb) i m (s, w) in (bus_of (fst sw), snd sw))"
    and "frames_for r (sv_out (fst (handleClipboard e (daemon_hooks cb) i m (s, w)))) =
      frames_for r (sv_out s) @ bus_shows r (Hear e i c (cm_From m)) (bus_of s, w')"
proof -
  have i: "map_of (sv_clients s) i \<noteq> None"
    using assms(2) bus_heard_None [of s i] by (auto simp: bus_of_fields)
  show "bus_step cb (Hear e i c (cm_From m)) (bus_of s, w) =
      (let sw = handleClipboard e (daemon_hooks cb) i m (s, w) in (bus_of (fst sw), snd sw))"
    using bus_relayed(1) [OF assms(1,2), of e c cb "cm_From m" w] i
    by (cases "is_echo e (ContentKey c) s")
      (simp_all add: handleClipboard_echo [OF assms(3)] handleClipboard_first [OF assms(3)]
        bus_of_fields(4) run_remote_hook_def daemon_hooks_def Let_def)
  show "frames_for r (sv_out (fst (handleClipboard e (daemon_hooks cb) i m (s, w)))) =
      frames_for r (sv_out s) @ bus_shows r (Hear e i c (cm_From m)) (bus_of s, w')"
    using bus_relayed(2) [OF assms(1,2)]
    by (cases "is_echo e (ContentKey c) s")
      (simp_all add: handleClipboard_echo [OF assms(3)] handleClipboard_first [OF assms(3)]
        bus_of_fields(4) bus_shows_def)
qed

section \<open>The refinement\<close>

definition bus_abs :: "server \<times> 'w \<Rightarrow> bus \<times> 'w" where
  "bus_abs sw = (bus_of (fst sw), snd sw)"

lemma bus_step_read:
  assumes "bus_inv s"
  shows "bus_abs (server_step (daemon_hooks cb) (Read e i r) (s, w)) =
      bus_step cb (bus_label (Read e i r) s) (bus_of s, w)
    \<and> frames_for q (sv_out (fst (server_step (daemon_hooks cb) (Read e i r) (s, w)))) =
      frames_for q (sv_out s) @ bus_shows q (bus_label (Read e i r) s) (bus_of s, w)"
proof (cases "client_ready i s")
  case None
  then show ?thesis by (simp add: bus_abs_def bus_shows_def)
next
  case (Some b)
  have i: "i \<in> client_ids s"
    using keys_of_ready [OF Some] .
  consider "\<not> b" | "b" "r = ReadError" | "b" "r \<noteq> ReadError" "hears r = None"
    | c "from" where "b" "r \<noteq> ReadError" "hears r = Some (c, from)"
    by (cases "hears r") auto
  then show ?thesis
  proof cases
    case 1
    then show ?thesis
      using Some bus_handleHello [of "daemon_hooks cb", where e = e and i = i and r = r and s = s and w = w]
      by (simp add: bus_abs_def bus_shows_def)
  next
    case 2
    then show ?thesis
      using Some by (simp add: bus_abs_def bus_shows_def handleMessage_def Let_def)
  next
    case 3
    then show ?thesis
      using Some handleMessage_silent [OF 3(2,3), of e "daemon_hooks cb" i s w]
      by (simp add: bus_abs_def bus_shows_def)
  next
    case 4
    obtain m where m: "MsgToContent m = Some c" "cm_From m = from"
        "handleMessage e (daemon_hooks cb) i r (s, w) = handleClipboard e (daemon_hooks cb) i m (s, w)"
      using handleMessage_hears_clip [OF 4(3)] by blast
    then show ?thesis
      using Some 4 bus_handleClipboard(1) [OF assms i m(1), where cb = cb and e = e and w = w]
        bus_handleClipboard(2) [OF assms i m(1), where cb = cb and e = e and w = w and w' = w and r = q]
      by (simp add: bus_abs_def Let_def del: bus_step.simps)
  qed
qed

lemma bus_step_server:
  assumes "bus_inv (fst sw)"
  shows "bus_abs (server_step (daemon_hooks cb) x sw) = bus_step cb (bus_label x (fst sw)) (bus_abs sw)
    \<and> frames_for q (sv_out (fst (server_step (daemon_hooks cb) x sw))) =
      frames_for q (sv_out (fst sw)) @ bus_shows q (bus_label x (fst sw)) (bus_abs sw)"
proof (cases x)
  case (Connect t a ok)
  then show ?thesis
    using bus_Connect(1) [of cb t a ok "fst sw" "snd sw"] bus_Connect(2) [of q t a ok "fst sw"]
    by (cases sw) (auto simp: bus_abs_def bus_shows_def split: option.splits)
next
  case (Read e i r)
  then show ?thesis
    using bus_step_read [OF assms, of cb e i r "snd sw" q] by (simp add: bus_abs_def)
next
  case (LocalChange e c f)
  then show ?thesis
    using bus_LocalChange(1) [OF assms, of e c f] bus_LocalChange(2) [OF assms, of q e c f "snd sw"]
    by (cases sw) (simp add: bus_abs_def)
next
  case (PeerUp p)
  then show ?thesis
    by (cases sw) (auto simp: bus_abs_def bus_shows_def bus_of_def registerPeer_def)
next
  case (PeerDown p)
  then show ?thesis
    by (cases sw) (auto simp: bus_abs_def bus_shows_def bus_of_def unregisterPeer_def)
qed

lemma bus_inv_step:
  assumes "bus_inv (fst sw)"
  shows "bus_inv (fst (server_step (daemon_hooks cb) x sw))"
proof -
  have "server_inv (fst (server_step (daemon_hooks cb) x sw))"
    using assms by (intro server_inv_step) (simp_all add: bus_inv_def)
  moreover have "bus_heard (fst (bus_abs (server_step (daemon_hooks cb) x sw))) [] = None"
  proof -
    have none: "bus_heard (bus_of (fst sw)) [] = None"
      using assms by (simp add: bus_inv_def bus_heard_None)
    have "bus_label x (fst sw) \<noteq> Enter []"
      by (cases x)
        (auto simp: handleWS_def Let_def newID_def split: option.split bool.split prod.split)
    moreover have "bus_label x (fst sw) \<noteq> Hear e [] c from" for e c "from"
      using assms keys_of_ready [of "[]" "fst sw"]
      by (cases x) (auto simp: bus_inv_def split: option.split bool.split)
    ultimately have "bus_heard (fst (bus_step cb (bus_label x (fst sw)) (bus_abs sw))) [] = None"
      using none by (cases "bus_label x (fst sw)") (auto simp: bus_abs_def Let_def)
    then show ?thesis
      using bus_step_server [OF assms] by metis
  qed
  ultimately show ?thesis
    by (simp add: bus_inv_def bus_abs_def bus_heard_None)
qed

interpretation bus: refined_machine "\<lambda>sw. new_server n (fst sw)" "server_step (daemon_hooks cb)"
    "\<lambda>sw. bus_inv (fst sw)" bus_abs "\<lambda>x sw. bus_label x (fst sw)" "bus_step cb"
    "\<lambda>sw. frames_for r (sv_out (fst sw))" "bus_shows r" for n cb r
proof unfold_locales
  show "new_server n (fst sw) \<Longrightarrow> bus_inv (fst sw)" for sw :: "server \<times> 'w"
    by (auto simp: bus_inv_def server_inv_new) (auto simp: new_server_def SetMaxClients_def New_def client_ids_def)
qed (simp_all add: bus_inv_step bus_step_server)

text \<open>What the events of a run of the server are for the bus.\<close>

definition bus_events :: "(content \<Rightarrow> string \<Rightarrow> 'w \<Rightarrow> 'w) \<Rightarrow> event list \<Rightarrow> server \<times> 'w \<Rightarrow> bus_event list" where
  "bus_events cb es sw = labels (\<lambda>x sw. bus_label x (fst sw)) (server_step (daemon_hooks cb)) es sw"

definition empty_bus :: "config \<Rightarrow> bus" where
  "empty_bus cfg =
     \<lparr>bus_window = EchoWindow (cfg_Timing cfg), bus_limit = cfg_MaxImageBytes cfg,
      bus_heard = Map.empty, bus_linked = (\<lambda>p. False), bus_last = (0, zero_time)\<rparr>"

text \<open>C4: the server implements the bus: from its start, whatever connections, reads, local
  changes and peers come and go, it is at every point the bus after the corresponding
  events, the clipboard callback has been run for exactly the contents that were news for the
  bus, and every client and every peer has been sent exactly the clipboard frames that the
  bus has for it, in the same order.\<close>

theorem server_implements_bus:
  assumes "server_run (daemon_hooks cb) es (SetMaxClients n (New e cfg v), w) = (s', w')"
    and "ls = bus_events cb es (SetMaxClients n (New e cfg v), w)"
  shows "(bus_of s', w') = fold (bus_step cb) ls (empty_bus cfg, w)
    \<and> frames_for r (sv_out s') = observed (bus_shows r) (bus_step cb) ls (empty_bus cfg, w)"
proof -
  let ?s = "SetMaxClients n (New e cfg v)"
  have "new_server n ?s"
    by (auto simp: new_server_def)
  moreover have "bus_abs (?s, w) = (empty_bus cfg, w)" "sv_out ?s = []"
    by (simp_all add: bus_abs_def bus_of_def empty_bus_def SetMaxClients_def New_def fun_eq_iff)
  ultimately show ?thesis
    using bus.refines_reachable [of n "(?s, w)" cb es r] assms
    by (simp add: server_run_def bus_events_def bus_abs_def)
qed

definition ex_traffic :: "event list" where
  "ex_traffic = [Connect [] ''10.0.0.9:5000'' True, PeerUp 7, LocalChange ex_env ex_content ''desk'']"

theorem server_implements_bus_witness:
  "bus_events (\<lambda>c from w. w @ [c]) ex_traffic (SetMaxClients 0 (New ex_env ex_config ''1''), []) =
     [Enter ''1'', Link 7, Announce ex_env ex_content ''desk'']
   \<and> frames_for (ToPeer 7) (sv_out (fst (server_run (daemon_hooks (\<lambda>c from w. w @ [c])) ex_traffic
       (SetMaxClients 0 (New ex_env ex_config ''1''), [])))) =
     [clipboard_frame ex_content 1700000000000 ''desk'']"
proof -
  let ?s = "SetMaxClients 0 (New ex_env ex_config ''1'')"
  have "handleWS [] ''10.0.0.9:5000'' True ?s =
      (?s\<lparr>sv_idSeq := 1, sv_clients := [(''1'', new_client ''1'' ''10.0.0.9'')]\<rparr>, Some ''1'')"
    by (simp add: handleWS_def newID_def Let_def New_def SetMaxClients_def alist_put_def)
  then have ev: "bus_events (\<lambda>c from w. w @ [c]) ex_traffic (?s, []) =
     [Enter ''1'', Link 7, Announce ex_env ex_content ''desk'']"
    by (simp add: bus_events_def ex_traffic_def)
  moreover have "observed (bus_shows (ToPeer 7)) (bus_step (\<lambda>c from w. w @ [c]))
      [Enter ''1'', Link 7, Announce ex_env ex_content ''desk''] (empty_bus ex_config, []) =
     [clipboard_frame ex_content 1700000000000 ''desk'']"
    by (simp add: bus_shows_def UnixMilli_def second_def)
  ultimately show ?thesis
    using server_implements_bus [where r = "ToPeer 7", OF surjective_pairing refl] by metis
qed

end
