(* ===== verification/JsonNormal.thy ===== *)
theory JsonNormal
  imports JsonText
begin

text \<open>
  What \<open>encoding/json\<close> makes of texts that nobody vouches for, as a peer or a client may send
  them: whatever \<open>Unmarshal\<close> reads is a value in normal form, strings and names in valid UTF-8,
  numbers that are literals, not too deep; so writing it and reading it again changes nothing.
\<close>

section \<open>Strings\<close>

lemma byte_no_char_of: "k < 256 \<Longrightarrow> byte_no (char_of k) = k"
  by (simp add: byte_no_def)

lemma char_eq_byte_no: "k < 256 \<Longrightarrow> char_of k = c \<longleftrightarrow> k = byte_no c"
  by (metis byte_no_char_of char_of_byte_no)

lemma rune_size_encode:
  assumes "is_scalar n"
  shows "rune_size (encode_rune n) = length (encode_rune n)"
proof -
  have e: "byte_no CHR 0xE0 = 0xE0" "byte_no CHR 0xED = 0xED" "byte_no CHR 0xF0 = 0xF0" "byte_no CHR 0xF4 = 0xF4"
    by (simp_all add: byte_no_def)
  have "n < 0x110000"
    using assms by (auto simp: is_scalar_def)
  then consider "n < 0x80" | "0x80 \<le> n" "n < 0x800" | "0x800 \<le> n" "n < 0x10000" | "0x10000 \<le> n" "n < 0x110000"
    by linarith
  then show ?thesis
  proof cases
    case 1
    then show ?thesis
      by (simp add: encode_rune_def byte_in_byte_no byte_no_char_of)
  next
    case 2
    then have "n div 0x40 < 0x20" "2 \<le> n div 0x40"
      by auto
    then show ?thesis
      using 2 by (simp add: encode_rune_def byte_in_byte_no cont_byte_byte_no byte_no_char_of cont_of_def)
  next
    case 3
    let ?x = "n div 0x1000" let ?y = "n div 0x40 mod 0x40"
    have "n div 0x40 = ?x * 0x40 + ?y"
      using div_mult_mod_eq [of "n div 0x40" "0x40"] by (simp add: div_blocks)
    moreover have "?x = 0xD \<longrightarrow> n div 0x40 < 0x360"
      using 3 assms by (auto simp: is_scalar_def)
    ultimately have "?x = 0xD \<longrightarrow> ?y < 0x20"
      by auto
    moreover have "?x < 0x10" "?x = 0 \<longrightarrow> 0x20 \<le> ?y"
      using 3 by auto
    moreover have "?y < 0x40" "n mod 0x40 < 0x40" "?x = 0 \<longrightarrow> n div 0x40 < 0x40"
      by auto
    ultimately show ?thesis
      using 3 by (auto simp: encode_rune_def byte_in_byte_no cont_byte_byte_no byte_no_char_of cont_of_def
          char_eq_byte_no e)
  next
    case 4
    let ?x = "n div 0x40000" let ?y = "n div 0x1000 mod 0x40"
    have "n div 0x1000 = ?x * 0x40 + ?y"
      using div_mult_mod_eq [of "n div 0x1000" "0x40"] by (simp add: div_blocks)
    moreover have "n div 0x1000 < 0x110" "0x10 \<le> n div 0x1000"
      using 4 by auto
    ultimately have y: "?x = 0 \<longrightarrow> 0x10 \<le> ?y" "?x = 4 \<longrightarrow> ?y < 0x10" "?x < 5"
      by auto
    moreover have "?y < 0x40" "n mod 0x40 < 0x40" "n div 0x40 mod 0x40 < 0x40"
      by auto
    ultimately show ?thesis
      using 4 by (auto simp: encode_rune_def byte_in_byte_no cont_byte_byte_no byte_no_char_of cont_of_def
          char_eq_byte_no e)
  qed
qed

lemma valid_utf8_encode: "is_scalar n \<Longrightarrow> valid_utf8 (encode_rune n @ t) \<longleftrightarrow> valid_utf8 t"
  using valid_utf8_rune [of "encode_rune n" "length (encode_rune n)" t] rune_size_encode [of n]
  by (simp add: encode_rune_def)

text \<open>What is between two quotes.\<close>

lemma low_surrogate_scalar: "low_surrogate n r = Some m \<Longrightarrow> is_scalar m"
  by (auto simp: low_surrogate_def is_scalar_def split: if_splits option.splits)

lemma valid_take_rune: "rune_size s \<noteq> 0 \<Longrightarrow> valid_utf8 (take (rune_size s) s @ t) \<longleftrightarrow> valid_utf8 t"
  by (rule valid_utf8_rune) simp_all

lemma valid_simple: "json_simple e = Some x \<Longrightarrow> valid_utf8 (x # t) \<longleftrightarrow> valid_utf8 t"
proof -
  assume "json_simple e = Some x"
  then have "rune_size [x] = 1"
    by (auto simp: json_simple_def byte_in_def split: if_splits)
  then show ?thesis
    using valid_utf8_rune [of "[x]" 1 t] by simp
qed

lemma json_chars_valid: "json_chars s = Some (x, t) \<Longrightarrow> valid_utf8 x"
proof (induction s arbitrary: x rule: json_chars.induct)
  case (2 c s)
  show ?case
  proof (cases "c = CHR 0x5C")
    case True
    with 2 show ?thesis
      by (auto simp: json_chars.simps(2) push_eq_Some valid_utf8_encode valid_utf8_encode [OF low_surrogate_scalar]
          valid_simple
          split: list.splits option.splits if_splits)
  next
    case False
    with 2 show ?thesis
      by (auto simp: json_chars.simps(2) push_eq_Some valid_take_rune simp del: rune_size.simps split: if_splits)
  qed
qed simp

section \<open>Numbers\<close>

text \<open>A literal that was taken from the front of a text is taken from any shorter front too.\<close>

lemma scan_digits_prefix:
  assumes "scan_digits (x @ r @ t) = Some (x, r @ t)"
  shows "scan_digits (x @ r) = Some (x, r)"
proof -
  have "takeWhile is_digit (x @ r @ t) = x" "x \<noteq> []"
    using assms by (auto simp: scan_digits_def split: if_splits)
  moreover from this have "\<forall>c \<in> set x. is_digit c"
    by (metis set_takeWhileD)
  moreover from this have "takeWhile is_digit x = x" "dropWhile is_digit x = []"
    by (simp_all add: takeWhile_eq_all_conv)
  ultimately show ?thesis
    by (cases r; cases x) (simp_all add: scan_digits_def split: if_splits)
qed

lemma scan_digits_none [simp]: "scan_digits s \<noteq> Some ([], t)"
  by (simp add: scan_digits_def)

lemma scan_int_prefix: "scan_int (x @ r @ t) = Some (x, r @ t) \<Longrightarrow> scan_int (x @ r) = Some (x, r)"
  using scan_digits_prefix [of x r t] scan_int_split [of "x @ r @ t" x "r @ t"]
  by (cases x) (auto simp: scan_int_def split: if_splits)

lemma scan_frac_prefix: "scan_frac (x @ r @ t) = Some (x, r @ t) \<Longrightarrow> scan_frac (x @ r) = Some (x, r)"
  using scan_digits_prefix [of "tl x" r t]
  by (cases x; cases r) (auto simp: scan_frac_def push_eq_Some split: if_splits list.splits)

lemma scan_exp_prefix: "scan_exp (x @ t) = Some (x, t) \<Longrightarrow> scan_exp x = Some (x, [])"
  using scan_digits_prefix [of "tl x" "[]" t] scan_digits_prefix [of "tl (tl x)" "[]" t]
  by (cases x; cases "tl x") (auto simp: scan_exp_def push_eq_Some split: if_splits list.splits)

lemma scan_unsigned_prefix:
  assumes "scan_unsigned (x @ t) = Some (x, t)"
  shows "scan_unsigned x = Some (x, [])"
proof -
  obtain i r f q e where p: "scan_int (x @ t) = Some (i, r)" "scan_frac r = Some (f, q)"
      "scan_exp q = Some (e, t)" "x = i @ f @ e"
    using assms by (auto simp: scan_unsigned_def push_eq_Some bind_eq_Some_conv)
  then have "q = e @ t" "r = f @ e @ t"
    using scan_exp_split scan_frac_split by blast+
  then show ?thesis
    using p scan_int_prefix [of i "f @ e" t] scan_frac_prefix [of f e t] scan_exp_prefix [of e t]
    by (simp add: scan_unsigned_def push_def)
qed

lemma scan_number_literal:
  assumes "scan_number s = Some (l, t)"
  shows "number_literal l"
proof -
  have "scan_number (l @ t) = Some (l, t)"
    using assms scan_number_split by blast
  then show ?thesis
    using scan_unsigned_prefix [of l t] scan_unsigned_prefix [of "tl l" t] scan_unsigned_split [of "l @ t" l t]
    by (cases l) (auto simp: number_literal_def scan_number_def push_eq_Some split: if_splits list.splits)
qed

section \<open>Values\<close>

definition normal :: "nat \<Rightarrow> json \<Rightarrow> bool" where
  "normal d v \<longleftrightarrow> well_formed v \<and> within_depth d v \<and> with_valid_strings v = v"

lemma map_eq_self: "map f xs = xs \<longleftrightarrow> list_all (\<lambda>x. f x = x) xs"
  by (induction xs) auto

lemma normal_simps:
  "normal d JNull" "normal d (JBool b)" "normal d (JNum l) \<longleftrightarrow> number_literal l"
  "valid_utf8 s \<Longrightarrow> normal d (JStr s)"
  "normal d (JArr vs) \<longleftrightarrow> 0 < d \<and> list_all (normal (d - 1)) vs"
  "list_all (\<lambda>(k, v). valid_utf8 k \<and> normal (d - 1) v) ms \<Longrightarrow> 0 < d \<Longrightarrow> normal d (JObj ms)"
  by (auto simp: normal_def list_all_iff map_eq_self)

lemma scan_literal_normal: "scan_literal s = Some (v, t) \<Longrightarrow> normal d v"
  by (auto simp: scan_literal_def literals_def normal_simps split: if_splits)

lemma scan_normal:
  shows "scan_value d s = Some (v, t) \<Longrightarrow> normal d v"
    and "scan_elements d s = Some (vs, t) \<Longrightarrow> list_all (normal d) vs"
    and "scan_members d s = Some (ms, t) \<Longrightarrow> list_all (\<lambda>(k, v). valid_utf8 k \<and> normal d v) ms"
proof (induction d s and d s and d s arbitrary: v t and vs t and ms t
    rule: scan_value_scan_elements_scan_members.induct)
  case (2 d c s)
  show ?case
  proof (cases "c = CHR 0x22 \<or> c = CHR ''['' \<or> c = CHR ''{''")
    case True
    then show ?thesis
      using 2 by (auto simp: scan_value.simps(2) normal_simps json_chars_valid list_all_iff split: if_splits)
  next
    case False
    then show ?thesis
      using "2.prems" by (auto simp: scan_value.simps(2) normal_simps scan_literal_normal
          dest: scan_number_literal split: option.splits)
  qed
next
  case (3 d s)
  then show ?case
    by (subst (asm) scan_elements.simps) (auto split: option.splits if_splits list.splits)
next
  case (5 d q s)
  have "json_chars s = Some (k, r) \<Longrightarrow> valid_utf8 k" for k r
    by (rule json_chars_valid)
  with 5 show ?case
    by (subst (asm) scan_members.simps) (auto split: option.splits if_splits list.splits)
qed (simp_all add: scan_members.simps)

text \<open>
  What is read from a text is a value in normal form; so reading what is written of it gives
  it back, and so do readings of it after any number of rounds.
\<close>

lemma Unmarshal_normal: "Unmarshal s = Some v \<Longrightarrow> normal 10000 v"
  by (auto simp: Unmarshal_def dest: scan_normal(1) split: option.splits if_splits)

lemma Decode_normal: "Decode s = Some v \<Longrightarrow> normal 10000 v"
  by (auto simp: Decode_def dest: scan_normal(1))

lemma normal_read_back: "normal 10000 v \<Longrightarrow> Unmarshal (Marshal v) = Some v"
  using Unmarshal_Marshal [of v "[]" "[]"] by (simp add: normal_def)

lemma read_value_stays: "Unmarshal s = Some v \<Longrightarrow> Unmarshal (Marshal v) = Some v"
  by (intro normal_read_back Unmarshal_normal)

end
