(* ===== verification/Valid.thy ===== *)
theory Valid
  imports Api Bus Network JsonNormal
begin

text \<open>
  What the server makes of texts that come from outside. The messages read from any text have
  valid UTF-8 in their strings; so a content is relayed without change, however often, and the
  names that clients announce are shown as they were announced.
\<close>

section \<open>Decoding a normal value\<close>

text \<open>What is in a text, at some depth.\<close>

definition normal_part :: "json \<Rightarrow> bool" where
  "normal_part v \<longleftrightarrow> (\<exists>d. normal d v)"

definition keeps_all :: "('r \<Rightarrow> bool) \<Rightarrow> 'r field list \<Rightarrow> bool" where
  "keeps_all P fs \<longleftrightarrow> (\<forall>f \<in> set fs. \<forall>v r. normal_part v \<longrightarrow> P r \<longrightarrow> pred_option P (snd f v r))"

lemma normal_string: "normal_part (JStr s) \<Longrightarrow> valid_utf8 s"
  using valid_to_valid_utf8 [of s] by (simp add: normal_part_def normal_def)

lemma keeps_string_field:
  "(\<And>s. valid_utf8 s \<Longrightarrow> P (upd s r)) \<Longrightarrow> normal_part v \<Longrightarrow> P r \<Longrightarrow> pred_option P (string_field upd v r)"
  using normal_string by (auto simp: string_field_def split: json.split)

lemma keeps_int64_field: "(\<And>i. P (upd i r)) \<Longrightarrow> P r \<Longrightarrow> pred_option P (int64_field upd v r)"
  by (cases v) (auto simp: int64_field_def option.pred_set)

lemma normal_members: "normal_part (JObj ms) \<Longrightarrow> list_all (\<lambda>(k, v). normal_part v) ms"
  by (fastforce simp: normal_part_def normal_def list_all_iff map_eq_self)

lemma store_members_keeps:
  assumes "keeps_all P fs" and "list_all (\<lambda>(k, v). normal_part v) ms" and "P r"
  shows "pred_option P (store_members fs ms r)"
  using assms(2,3)
proof (induction ms arbitrary: r)
  case (Cons m ms)
  have "pred_option P (store_member fs m r)"
  proof (cases "find_field fs (fst m)")
    case (Some store)
    then obtain f where f: "find (\<lambda>f. fold_name (fst f) = fold_name (fst m)) fs = Some f" "store = snd f"
      by (auto simp: find_field_def)
    then have "f \<in> set fs"
      by (metis find_Some_iff nth_mem)
    then show ?thesis
      using assms(1) Cons.prems Some f(2) by (auto simp: store_member_def keeps_all_def)
  qed (use Cons.prems in \<open>simp add: store_member_def\<close>)
  then show ?case
    using Cons by (cases "store_member fs m r") auto
qed simp

lemma unmarshal_keeps:
  assumes "keeps_all P fs" and "P r" and "pred_option normal_part v"
  shows "pred_option P (unmarshal_raw fs r v)"
  using assms store_members_keeps [OF assms(1) normal_members assms(2)]
  by (cases v) (auto simp: unmarshal_struct_def split: json.split)

lemma Unmarshal_part: "pred_option normal_part (Unmarshal t)"
  using Unmarshal_normal [of t] by (cases "Unmarshal t") (auto simp: normal_part_def)

text \<open>The envelope, the hello and the clipboard message of a text.\<close>

definition valid_envelope :: "envelope \<Rightarrow> bool" where
  "valid_envelope m \<longleftrightarrow> pred_option normal_part (env_Data m)"

definition valid_hello :: "hello \<Rightarrow> bool" where
  "valid_hello h \<longleftrightarrow> valid_utf8 (h_Name h) \<and> valid_utf8 (h_Platform h) \<and> valid_utf8 (h_Version h)"

definition valid_clipboard :: "clipboard_msg \<Rightarrow> bool" where
  "valid_clipboard m \<longleftrightarrow> valid_utf8 (cm_Text m) \<and> valid_utf8 (cm_Mime m) \<and> valid_utf8 (cm_From m)"

lemma keeps_fields:
  "keeps_all valid_envelope envelope_fields" "keeps_all valid_hello hello_fields"
  "keeps_all valid_clipboard clipboard_fields"
  by (auto simp: keeps_all_def envelope_fields_def hello_fields_def clipboard_fields_def valid_envelope_def
      valid_hello_def valid_clipboard_def intro!: keeps_string_field keeps_int64_field)

lemma valid_zero: "valid_envelope zero_envelope" "valid_hello zero_hello" "valid_clipboard zero_clipboard_msg"
  by (simp_all add: valid_envelope_def valid_hello_def valid_clipboard_def zero_defs)

lemma read_envelope: "unmarshal_envelope (Unmarshal t) = Some m \<Longrightarrow> pred_option normal_part (env_Data m)"
  using unmarshal_keeps [OF keeps_fields(1) valid_zero(1) Unmarshal_part [of t]]
  by (simp add: unmarshal_envelope_def valid_envelope_def)

lemma read_hello:
  "unmarshal_envelope (Unmarshal t) = Some m \<Longrightarrow> unmarshal_hello (env_Data m) = Some h \<Longrightarrow> valid_hello h"
  using unmarshal_keeps [OF keeps_fields(2) valid_zero(2) read_envelope, of t m] by (simp add: unmarshal_hello_def)

lemma read_clipboard:
  "unmarshal_envelope (Unmarshal t) = Some m \<Longrightarrow> unmarshal_clipboard (env_Data m) = Some c \<Longrightarrow> valid_clipboard c"
  using unmarshal_keeps [OF keeps_fields(3) valid_zero(3) read_envelope, of t m] by (simp add: unmarshal_clipboard_def)

section \<open>Contents on their way\<close>

lemma MsgToContent_stable: "MsgToContent m = Some c \<Longrightarrow> valid_clipboard m \<Longrightarrow> stable c"
  by (auto simp: MsgToContent_def valid_clipboard_def stable_def sendable_def received_def image_content_def
      text_content_def zero_content_def image_mime_def split: if_splits option.splits)

lemma heard_stable:
  assumes "hears (Frame (Unmarshal t)) = Some (c, from)"
  shows "stable c \<and> valid_utf8 from"
proof -
  obtain m d where "unmarshal_envelope (Unmarshal t) = Some d" "unmarshal_clipboard (env_Data d) = Some m"
      "MsgToContent m = Some c" "cm_From m = from"
    using assms by (auto split: option.splits if_splits)
  then show ?thesis
    using read_clipboard [of t d m] MsgToContent_stable [of m c] by (auto simp: valid_clipboard_def)
qed

lemma hears_clipboard_frame:
  "stable c \<Longrightarrow> in_int64 ts \<Longrightarrow> valid_utf8 from \<Longrightarrow>
   hears (Frame (Some (clipboard_frame c ts from))) = Some (c, from)"
  using unmarshal_ContentMsg [of c ts "from"]
  by (auto simp: stable_def bind_eq_Some_conv)

text \<open>A message on its way: each daemon that handles it may write it to others.\<close>

inductive travels :: "'w hooks \<Rightarrow> json option \<Rightarrow> json option \<Rightarrow> bool" for hk m where
  arrived: "travels hk m m"
| passed_on: "travels hk m m' \<Longrightarrow> in_int64 (UnixMilli (now e)) \<Longrightarrow>
    x \<in> set (drop (length (sv_out s)) (sv_out (fst (handleMessage e hk i (Frame m') (s, w))))) \<Longrightarrow>
    x = Sent j f \<or> x = SentPeer p f \<Longrightarrow> travels hk m (Some f)"

lemma passed_on_frame:
  assumes "hears (Frame m) = Some (c, from)"
    and "x \<in> set (drop (length (sv_out s)) (sv_out (fst (handleMessage e hk i (Frame m) (s, w)))))"
    and "x = Sent j f \<or> x = SentPeer p f"
  shows "f = clipboard_frame c (UnixMilli (now e)) from"
proof -
  obtain n where "MsgToContent n = Some c" "cm_From n = from"
      "handleMessage e hk i (Frame m) (s, w) = handleClipboard e hk i n (s, w)"
    using handleMessage_hears_clip [OF assms(1)] by blast
  then show ?thesis
    using assms(2,3)
    by (cases "is_echo e (ContentKey c) s")
      (auto simp: handleClipboard_echo handleClipboard_first sv_out_relayed sent_events_def peer_events_def
        split: if_splits)
qed

lemma travels_hears:
  assumes "travels hk m m'" and "hears (Frame m) = Some (c, from)" and "stable c" "valid_utf8 from"
  shows "hears (Frame m') = Some (c, from)"
  using assms(1)
proof induction
  case (passed_on m' e x s i w j f p)
  have "f = clipboard_frame c (UnixMilli (now e)) from"
    by (rule passed_on_frame [OF passed_on.IH passed_on(3,4)])
  then show ?case
    using hears_clipboard_frame [OF assms(3) passed_on(2) assms(4)] by (simp only:)
qed (use assms in simp)

text \<open>C13: Whatever text a client or a peer sends, the content in it is passed on without change: after any number
  of daemons each receiver hears the same content from the same sender, and a daemon that
  has not just taken the content hands exactly this to its clipboard.\<close>

theorem contents_survive_relays:
  assumes "hears (Frame (Unmarshal t)) = Some (c, from)" and "travels hk (Unmarshal t) m"
  shows "hears (Frame m) = Some (c, from) \<and>
    (\<not> is_echo e (ContentKey c) s \<longrightarrow>
       snd (handleMessage e hk i (Frame m) (s, w)) = run_remote_hook hk c from w)"
proof
  show h: "hears (Frame m) = Some (c, from)"
    using travels_hears [OF assms(2,1)] heard_stable [OF assms(1)] by blast
  obtain n where "MsgToContent n = Some c" "cm_From n = from"
      "handleMessage e hk i (Frame m) (s, w) = handleClipboard e hk i n (s, w)"
    using handleMessage_hears_clip [OF h] by blast
  then show "\<not> is_echo e (ContentKey c) s \<longrightarrow>
      snd (handleMessage e hk i (Frame m) (s, w)) = run_remote_hook hk c from w"
    by (simp add: handleClipboard_first)
qed

text \<open>A phone's text that the first daemon passes on to its peer.\<close>

definition ex_text :: string where
  "ex_text = clipboard_text (text_content ''hi'') 1 ''phone''"

lemma hears_ex_text: "hears (Frame (Unmarshal ex_text)) = Some (text_content ''hi'', ''phone'')"
  by (simp add: ex_text_def clipboard_text_read hears_clipboard_frame stable_ascii in_int64_def valid_utf8_ascii
      byte_in_def del: hears.simps)

lemma ex_text_travels:
  "travels ex_hooks (Unmarshal ex_text) (Some (clipboard_frame (text_content ''hi'') (UnixMilli (now ex_env)) ''phone''))"
proof (rule travels.passed_on [OF travels.arrived])
  let ?s = "ex_server\<lparr>sv_peers := [(0, True)]\<rparr>"
  let ?f = "clipboard_frame (text_content ''hi'') (UnixMilli (now ex_env)) ''phone''"
  obtain n where "MsgToContent n = Some (text_content ''hi'')" "cm_From n = ''phone''"
      "handleMessage ex_env ex_hooks ''2'' (Frame (Unmarshal ex_text)) (?s, []) = handleClipboard ex_env ex_hooks ''2'' n (?s, [])"
    using handleMessage_hears_clip [OF hears_ex_text] by blast
  moreover have "\<not> is_echo ex_env (ContentKey (text_content ''hi'')) ?s"
    by (simp add: is_echo_def second_def)
  ultimately show "SentPeer 0 ?f \<in> set (drop (length (sv_out ?s))
      (sv_out (fst (handleMessage ex_env ex_hooks ''2'' (Frame (Unmarshal ex_text)) (?s, [])))))"
    by (simp add: handleClipboard_first sv_out_relayed peer_events_def too_big_def)
qed (simp_all add: ex_env_def UnixMilli_def in_int64_def second_def)

theorem contents_survive_relays_witness:
  "hears (Frame (Some (clipboard_frame (text_content ''hi'') (UnixMilli (now ex_env)) ''phone''))) =
     Some (text_content ''hi'', ''phone'')"
  using contents_survive_relays [OF hears_ex_text ex_text_travels] by (simp only:)

section \<open>Names that are shown\<close>

text \<open>A client whose identity is not changed by being written as JSON.\<close>

definition shown :: "client \<Rightarrow> bool" where
  "shown c \<longleftrightarrow> valid_client_info (client_info_of c) = client_info_of c"

definition all_shown :: "server \<Rightarrow> bool" where
  "all_shown s \<longleftrightarrow> list_all (\<lambda>p. shown (snd p)) (sv_clients s)"

text \<open>The reads are of texts; \<open>RemoteAddr\<close> is an address, which has only ASCII characters.\<close>

fun from_outside :: "event \<Rightarrow> bool" where
  "from_outside (Connect token addr ok) \<longleftrightarrow> is_ascii addr"
| "from_outside (Read e i (Frame m)) \<longleftrightarrow> (\<exists>t. m = Unmarshal t)"
| "from_outside _ \<longleftrightarrow> True"

lemma all_shown_simps [simp]:
  "all_shown (append_out xs s) = all_shown s" "all_shown (cl_write e i m s) = all_shown s"
  "all_shown (sendError e i code msg s) = all_shown s" "all_shown (pong e i s) = all_shown s"
  "all_shown (Broadcast e c from skip s) = all_shown s" "all_shown (BroadcastLocal e c from s) = all_shown s"
  "all_shown (registerPeer p s) = all_shown s" "all_shown (unregisterPeer p s) = all_shown s"
  by (simp_all add: all_shown_def cl_write_append sendError_def pong_def Broadcast_append BroadcastLocal_append
      registerPeer_def unregisterPeer_def)

lemma all_shown_disconnect [intro]: "all_shown s \<Longrightarrow> all_shown (disconnect i s)"
  using set_del_subset [of i "sv_clients s"] by (auto simp: all_shown_def disconnect_def emit_append list_all_iff)

lemma all_shown_reject [intro]: "all_shown s \<Longrightarrow> all_shown (reject e i code msg s)"
  by (simp add: reject_def all_shown_disconnect)

lemma all_shown_update:
  "(\<And>c. shown c \<Longrightarrow> shown (f c)) \<Longrightarrow> all_shown s \<Longrightarrow> all_shown (update_client i f s)"
  by (auto simp: all_shown_def update_client_def alist_adjust_def list_all_iff)

lemma all_shown_handleClipboard [intro]: "all_shown (fst sw) \<Longrightarrow> all_shown (fst (handleClipboard e hk i m sw))"
proof -
  have "all_shown s \<Longrightarrow> all_shown (noteIncoming e i k s)" for s k
    unfolding noteIncoming_def by (rule all_shown_update) (simp_all add: shown_def client_info_of_def)
  then show "all_shown (fst sw) \<Longrightarrow> all_shown (fst (handleClipboard e hk i m sw))"
    by (simp add: handleClipboard_def claim_key_def Let_def split: option.split) (simp add: all_shown_def)
qed

lemma all_shown_handleMessage: "all_shown (fst sw) \<Longrightarrow> all_shown (fst (handleMessage e hk i r sw))"
  by (auto simp: handleMessage_def Let_def split: read_result.split option.split)

lemma all_shown_handleHello:
  assumes "onClientConnect hk = None" and "all_shown (fst sw)" and "\<And>m. r = Frame m \<Longrightarrow> \<exists>t. m = Unmarshal t"
  shows "all_shown (fst (handleHello e hk i r sw))"
proof -
  have "all_shown (fst (accept_hello e hk i h sw))" if h: "valid_hello h" for h
  proof -
    have "all_shown (update_client i (set_hello h) (fst sw))"
      using h assms(2)
      by (intro all_shown_update) (simp_all add: shown_def client_info_of_def set_hello_def valid_client_info_def valid_hello_def)
    then show ?thesis
      using assms(1) unfolding accept_hello_def Let_def
      by (simp add: run_connect_hook_def) (intro all_shown_update; simp add: shown_def client_info_of_def)
  qed
  then show ?thesis
    using assms(2,3) read_hello
    by (auto simp: handleHello_def Let_def split: read_result.split option.split)
qed

lemma ascii_digit: "d < 36 \<Longrightarrow> byte_in 0 0x7F (digit_char d)"
  using mod_less [of "87 + d" 256] by (auto simp: byte_in_def digit_char_def)

lemma ascii_digits: "2 \<le> b \<Longrightarrow> b \<le> 36 \<Longrightarrow> is_ascii (format_base b n)"
proof (induction b n rule: format_base.induct)
  case (1 b n)
  have "n mod b < 36"
    using 1 mod_less_divisor [of b n] by linarith
  then show ?case
    using 1 by (subst format_base.simps) (auto simp: ascii_digit)
qed

lemma ascii_subset: "set t \<subseteq> set s \<Longrightarrow> is_ascii s \<Longrightarrow> is_ascii t"
  by (auto simp: is_ascii_def list_all_iff)

lemma set_Trim: "set (Trim s cs) \<subseteq> set s"
  by (auto simp: Trim_def dest!: set_dropWhileD)

lemma set_SplitHostPort: "SplitHostPort s = Some (h, p) \<Longrightarrow> set h \<subseteq> set s"
  by (cases s) (auto simp: SplitHostPort_def Let_def dest: set_takeWhileD in_set_takeD split: if_splits list.splits)

lemma ascii_clientIP: "is_ascii addr \<Longrightarrow> is_ascii (clientIP addr)"
  using ascii_subset [OF set_Trim] ascii_subset [OF set_SplitHostPort]
  by (auto simp: clientIP_def split: option.split)

lemma all_shown_handleWS:
  assumes "is_ascii addr" and "all_shown s"
  shows "all_shown (fst (handleWS token addr ok s))"
proof -
  let ?i = "fst (newID s)" let ?s = "snd (newID s)"
  have "shown (new_client ?i (clientIP addr))"
    using assms(1) by (simp add: shown_def new_client_def client_info_of_def valid_client_info_def newID_def Let_def
        valid_utf8_ascii ascii_digits ascii_clientIP)
  then have "all_shown (?s\<lparr>sv_clients := alist_put ?i (new_client ?i (clientIP addr)) (sv_clients ?s)\<rparr>)"
    using assms(2) set_put_subset [of ?i "new_client ?i (clientIP addr)" "sv_clients ?s"]
    by (auto simp: all_shown_def list_all_iff)
  moreover have "all_shown ?s"
    using assms(2) by (simp add: all_shown_def)
  ultimately show ?thesis
    using assms(2) by (simp add: handleWS_def Let_def emit_append case_prod_beta)
qed

lemma all_shown_step:
  assumes "onClientConnect hk = None" and "from_outside x" and "all_shown (fst sw)"
  shows "all_shown (fst (server_step hk x sw))"
proof (cases x)
  case (Connect token addr ok)
  then show ?thesis
    using assms all_shown_handleWS by (cases sw) simp
next
  case (Read e i r)
  then have "r = Frame m \<Longrightarrow> \<exists>t. m = Unmarshal t" for m
    using assms(2) by simp
  then show ?thesis
    using Read assms all_shown_handleHello [OF assms(1,3), of r e i] all_shown_handleMessage [of sw e hk i r]
    by (cases sw) (auto split: option.split bool.split)
qed (use assms in \<open>cases sw; simp\<close>)+

lemma all_shown_run:
  "onClientConnect hk = None \<Longrightarrow> list_all from_outside es \<Longrightarrow> all_shown (fst sw) \<Longrightarrow>
   all_shown (fst (server_run hk es sw))"
  unfolding server_run_def by (induction es arbitrary: sw) (simp_all add: all_shown_step)

lemma all_shown_infos: "all_shown s \<Longrightarrow> map valid_client_info (Clients s) = Clients s"
  by (auto simp: all_shown_def Clients_def shown_def list_all_iff)


lemma ex_joined_outside:
  "list_all from_outside
     [Connect [] ''10.0.0.7:5000'' True, Read ex_env ''1'' (Frame (Some (hello_frame ex_hello)))]"
proof -
  have "Some (hello_frame ex_hello) = Unmarshal (hello_text ex_hello)"
    by (simp add: hello_text_read)
  then show ?thesis
    by (auto simp: byte_in_def)
qed


end
