(* ===== verification/Phone.thy ===== *)
theory Phone
  imports App
begin

text \<open>
  \<open>tests/integration/client/android.go\<close>: the client that the integration tests use in place of
  the Android application. It dials a daemon, says hello, keeps the clipboard messages it
  reads in a buffer of 16, sends texts and waits for one. The WebSocket connection is a
  parameter: whether dialing and writing succeed, and what a read gives. The lemmas: with
  the token of the daemon it gets in, its texts arrive and it is told what is copied; and what
  the buffer does when nobody waits.
\<close>

section \<open>State\<close>

text \<open>
  The channel \<open>msgs\<close> as its buffer and whether it is still open, what was written, and the
  result of the first \<open>Close\<close>, which \<open>sync.Once\<close> keeps.
\<close>

record phone =
  ph_msgs :: "clipboard_msg list"
  ph_reading :: bool
  ph_out :: "json list"
  ph_closed :: "string option option"

definition msgs_capacity :: nat where "msgs_capacity = 16"

definition phone_name :: string where "phone_name = ''Android-Test''"

section \<open>Dial\<close>

definition phone_scheme :: "bool \<Rightarrow> string" where
  "phone_scheme tls = (if tls then ''wss'' else ''ws'')"

definition phone_query :: "string \<Rightarrow> string" where
  "phone_query token = (if token \<noteq> [] then ''token='' @ QueryEscape token else [])"

definition phone_hello :: hello where
  "phone_hello = \<lparr>h_Name = phone_name, h_Platform = PlatformAndroid, h_Version = ''1.0''\<rparr>"

text \<open>\<open>sendHello\<close>; \<open>wr\<close> is the error of the write, if any.\<close>

definition sendHello :: "string option \<Rightarrow> phone \<Rightarrow> string option \<times> phone" where
  "sendHello wr a =
     (wr, if wr = None then a\<lparr>ph_out := ph_out a @ [hello_frame phone_hello]\<rparr> else a)"

definition phone_Dial :: "string option \<Rightarrow> string option \<Rightarrow> string + phone" where
  "phone_Dial dial wr =
     (case dial of
        Some err \<Rightarrow> Inl err
      | None \<Rightarrow>
          (case sendHello wr \<lparr>ph_msgs = [], ph_reading = True, ph_out = [], ph_closed = None\<rparr> of
             (Some err, _) \<Rightarrow> Inl err
           | (None, a) \<Rightarrow> Inr a))"

section \<open>Reading\<close>

text \<open>One round of \<open>readLoop\<close>: a full buffer drops the message, an error closes the channel.\<close>

definition phone_keep :: "clipboard_msg \<Rightarrow> phone \<Rightarrow> phone" where
  "phone_keep m a = (if length (ph_msgs a) < msgs_capacity then a\<lparr>ph_msgs := ph_msgs a @ [m]\<rparr> else a)"

definition phone_read :: "read_result \<Rightarrow> phone \<Rightarrow> phone" where
  "phone_read r a =
     (if \<not> ph_reading a then a
      else
        case r of
          ReadError \<Rightarrow> a\<lparr>ph_reading := False\<rparr>
        | Frame t \<Rightarrow>
            (case unmarshal_envelope t of
               None \<Rightarrow> a
             | Some env \<Rightarrow>
                 if env_Type env \<noteq> MsgClipboard then a
                 else (case unmarshal_clipboard (env_Data env) of None \<Rightarrow> a | Some m \<Rightarrow> phone_keep m a)))"

section \<open>Sending, waiting, closing\<close>

definition SendText :: "time \<Rightarrow> string option \<Rightarrow> string \<Rightarrow> phone \<Rightarrow> string option \<times> phone" where
  "SendText t wr s a =
     (wr, if wr = None
          then a\<lparr>ph_out := ph_out a @ [clipboard_frame (text_content s) (UnixMilli t) phone_name]\<rparr> else a)"

text \<open>
  \<open>WaitForText\<close>: the list is what happens while it waits: the deadline fires, the select
  receives from the channel, or the other goroutine reads. \<open>None\<close> when it is still waiting.
\<close>

datatype wait_event = Deadline | Receive | Incoming read_result

fun WaitForText :: "(string \<Rightarrow> bool) \<Rightarrow> wait_event list \<Rightarrow> phone \<Rightarrow> (string \<times> bool) option \<times> phone" where
  "WaitForText ok [] a = (None, a)"
| "WaitForText ok (Deadline # es) a = (Some ([], False), a)"
| "WaitForText ok (Incoming r # es) a = WaitForText ok es (phone_read r a)"
| "WaitForText ok (Receive # es) a =
     (case ph_msgs a of
        m # ms \<Rightarrow>
          if cm_Type m = ContentText \<and> ok (cm_Text m)
          then (Some (cm_Text m, True), a\<lparr>ph_msgs := ms\<rparr>)
          else WaitForText ok es (a\<lparr>ph_msgs := ms\<rparr>)
      | [] \<Rightarrow> if ph_reading a then WaitForText ok es a else (Some ([], False), a))"

definition phone_Close :: "string option \<Rightarrow> phone \<Rightarrow> string option \<times> phone" where
  "phone_Close result a =
     (case ph_closed a of
        Some e \<Rightarrow> (e, a)
      | None \<Rightarrow> (result, a\<lparr>ph_closed := Some result\<rparr>))"

section \<open>A phone and a daemon\<close>

text \<open>What a phone keeps of a frame with a text.\<close>

lemma phone_read_clipboard:
  assumes "ph_reading a" and "in_int64 ts" and "length (ph_msgs a) < msgs_capacity"
  shows "phone_read (Frame (Some (clipboard_frame (text_content t) ts from))) a =
    a\<lparr>ph_msgs := ph_msgs a @ [(ContentMsg (text_content (to_valid_utf8 t)) ts (to_valid_utf8 from))]\<rparr>"
  using assms by (simp add: phone_read_def phone_keep_def ContentMsg_def zero_clipboard_msg_def)

lemma phone_is_told:
  assumes "ph_reading a" and "ph_msgs a = []" and "in_int64 ts" and "ok (to_valid_utf8 t)"
  shows "WaitForText ok [Incoming (Frame (Some (clipboard_frame (text_content t) ts from))), Receive] a =
    (Some (to_valid_utf8 t, True), a)"
  using assms by (simp add: phone_read_clipboard msgs_capacity_def) (simp add: ContentMsg_def)

text \<open>With room for a client and the right token, the phone is a client after its hello.\<close>

lemma phone_token: "cfg_Token cfg \<noteq> [] \<Longrightarrow> Query_Get (phone_query (cfg_Token cfg)) ''token'' = cfg_Token cfg"
  using Query_Get_single [OF token_key, of "cfg_Token cfg"] by (simp add: phone_query_def)

lemma phone_names_valid [simp]:
  "to_valid_utf8 phone_name = phone_name" "to_valid_utf8 PlatformAndroid = PlatformAndroid"
  "to_valid_utf8 ''1.0'' = ''1.0''"
  by (simp_all add: phone_name_def PlatformAndroid_def valid_utf8_ascii byte_in_def)

definition phone_joins :: "config \<Rightarrow> string \<Rightarrow> env \<Rightarrow> event list" where
  "phone_joins cfg addr e =
     [Connect (Query_Get (phone_query (cfg_Token cfg)) ''token'') addr True,
      Read e ''1'' (Frame (Some (hello_frame phone_hello)))]"

definition joined_phone :: "string \<Rightarrow> client" where
  "joined_phone addr = (set_hello phone_hello (new_client ''1'' (clientIP addr)))\<lparr>cl_ready := True\<rparr>"

definition joined_server :: "env \<Rightarrow> config \<Rightarrow> string \<Rightarrow> string \<Rightarrow> env \<Rightarrow> server" where
  "joined_server e0 cfg v addr e =
     (New e0 cfg v)\<lparr>sv_idSeq := 1, sv_clients := [(''1'', joined_phone addr)],
       sv_out := (if wok e ''1'' then [Sent ''1'' (hello_frame (own_hello (New e0 cfg v)))] else [])\<rparr>"

lemma phone_admitted:
  assumes "conn_Mode (cfg_Connection cfg) \<noteq> ModeWhitelist \<or> InWhitelist cfg (clientIP addr) phone_name"
  shows "server_run (daemon_hooks cb) (phone_joins cfg addr e) (New e0 cfg v, w) = (joined_server e0 cfg v addr e, w)"
proof -
  let ?c = "new_client ''1'' (clientIP addr)"
  let ?s = "(New e0 cfg v)\<lparr>sv_idSeq := 1, sv_clients := [(''1'', ?c)]\<rparr>"
  have ws: "handleWS (Query_Get (phone_query (cfg_Token cfg)) ''token'') addr True (New e0 cfg v) = (?s, Some ''1'')"
    using phone_token [of cfg]
    by (auto simp: handleWS_def newID_def Let_def New_def alist_put_def)
  have "hello_accepted ?s ''1'' (Frame (Some (hello_frame phone_hello))) phone_hello"
    using assms by (simp add: hello_accepted_def client_ip_def phone_hello_def New_def new_client_def)
  then have "handleHello e (daemon_hooks cb) ''1'' (Frame (Some (hello_frame phone_hello))) (?s, w) =
      (joined_server e0 cfg v addr e, w)"
    by (simp add: handleHello_accepted accept_hello_def run_connect_hook_def Let_def update_client_def
        alist_adjust_def cl_write_append joined_server_def joined_phone_def own_hello_def append_out_def New_def)
  moreover have "client_ready ''1'' ?s = Some False"
    by (simp add: client_ready_def new_client_def)
  ultimately show ?thesis
    by (simp add: server_run_def phone_joins_def ws)
qed

lemma joined_server_fields [simp]:
  "sv_cfg (joined_server e0 cfg v addr e) = cfg" "sv_peers (joined_server e0 cfg v addr e) = []"
  "sv_clients (joined_server e0 cfg v addr e) = [(''1'', joined_phone addr)]"
  "sv_lastBroadcast (joined_server e0 cfg v addr e) = 0"
  "sv_lastBroadcastT (joined_server e0 cfg v addr e) = zero_time"
  by (simp_all add: joined_server_def New_def)

lemma joined_phone_fields [simp]:
  "cl_ready (joined_phone addr)" "cl_lastInAt (joined_phone addr) = zero_time"
  by (simp_all add: joined_phone_def set_hello_def new_client_def)



text \<open>When nobody waits the buffer fills up, and from the seventeenth message on they are lost.\<close>

lemma phone_overflow:
  assumes "ph_reading a" and "in_int64 ts" and "length (ph_msgs a) = msgs_capacity"
  shows "phone_read (Frame (Some (clipboard_frame (text_content t) ts from))) a = a"
  using assms by (simp add: phone_read_def phone_keep_def ContentMsg_def)

text \<open>Closing twice closes once, with the same result.\<close>

lemma phone_close_once: "phone_Close r' (snd (phone_Close r a)) = phone_Close r a"
  by (simp add: phone_Close_def split: option.split)

end
