(* ===== verification/Discover.thy ===== *)
theory Discover
  imports Wire Config
begin

text \<open>
  \<open>internal/discover\<close>: what the daemon announces on the LAN (\<open>discover.go\<close>, \<open>beacon.go\<close>,
  \<open>mdns.go\<close>). The mDNS library and the UDP socket are parameters: whether registering and
  dialing succeed. The lemmas: what is announced in which mode, what a beacon tells, and that
  the token is in none of it.
\<close>

section \<open>Beacons\<close>

record beacon_msg =
  bm_Name :: string
  bm_Port :: int
  bm_TLS :: bool
  bm_TS :: int

record beacon =
  bn_Name :: string
  bn_ServerPort :: int
  bn_BeaconPort :: int
  bn_Addr :: string
  bn_Interval :: duration
  bn_TLS :: bool

definition marshal_beacon :: "beacon_msg \<Rightarrow> json" where
  "marshal_beacon m =
     JObj (member_of ''name'' (marshal_string (bm_Name m)) @
           member_of ''port'' (marshal_int (bm_Port m)) @
           (if bm_TLS m then member_of ''tls'' (JBool True) else []) @
           member_of ''ts'' (marshal_int (bm_TS m)))"

definition beacon_fields :: "beacon_msg field list" where
  "beacon_fields =
     [(''name'', string_field (\<lambda>s. bm_Name_update (\<lambda>_. s))),
      (''port'', int64_field (\<lambda>i. bm_Port_update (\<lambda>_. i))),
      (''tls'', bool_field (\<lambda>b. bm_TLS_update (\<lambda>_. b))),
      (''ts'', int64_field (\<lambda>i. bm_TS_update (\<lambda>_. i)))]"

definition unmarshal_beacon :: "json option \<Rightarrow> beacon_msg option" where
  "unmarshal_beacon = unmarshal_raw beacon_fields \<lparr>bm_Name = [], bm_Port = 0, bm_TLS = False, bm_TS = 0\<rparr>"

text \<open>\<open>payload\<close>, a text; \<open>time.Now().Unix()\<close> is the second of the time.\<close>

definition beacon_value :: "beacon_msg \<Rightarrow> json" where
  "beacon_value m =
     JObj ([(''name'', JStr (bm_Name m)), (''port'', JNum (Itoa (bm_Port m)))] @
           (if bm_TLS m then [(''tls'', JBool True)] else []) @
           [(''ts'', JNum (Itoa (bm_TS m)))])"

definition payload :: "time \<Rightarrow> beacon \<Rightarrow> string" where
  "payload t b =
     Marshal (beacon_value
       \<lparr>bm_Name = bn_Name b, bm_Port = bn_ServerPort b, bm_TLS = bn_TLS b, bm_TS = t div second\<rparr>)"

definition beacon_of :: "config \<Rightarrow> beacon" where
  "beacon_of cfg =
     \<lparr>bn_Name = cfg_DeviceName cfg, bn_ServerPort = srv_Port (cfg_Server cfg),
      bn_BeaconPort = dis_BeaconPort (cfg_Discovery cfg), bn_Addr = dis_BeaconAddr (cfg_Discovery cfg),
      bn_Interval = BroadcastInterval cfg, bn_TLS = tls_Enabled (cfg_TLS cfg)\<rparr>"

text \<open>
  \<open>Run\<close>: the first beacon at once, then one per tick until the context is cancelled after
  \<open>n\<close> ticks. \<open>time.NewTicker\<close> panics on an interval that is not positive, before anything
  is sent.
\<close>

datatype run_result = Panics | DialError string | Sends "(string \<times> int \<times> string) list"

definition beacon_Run :: "string option \<Rightarrow> time \<Rightarrow> nat \<Rightarrow> beacon \<Rightarrow> run_result" where
  "beacon_Run dial t n b =
     (case dial of
        Some err \<Rightarrow> DialError err
      | None \<Rightarrow>
          if bn_Interval b \<le> 0 then Panics
          else Sends (map (\<lambda>i. (bn_Addr b, bn_BeaconPort b, payload (t + int i * bn_Interval b) b)) [0..<Suc n]))"

section \<open>mDNS\<close>

record mdns_service =
  ms_name :: string
  ms_type :: string
  ms_port :: int
  ms_txt :: "string list"

definition mdns_of :: "config \<Rightarrow> mdns_service" where
  "mdns_of cfg =
     \<lparr>ms_name = cfg_DeviceName cfg, ms_type = ''_clipshare._tcp'', ms_port = srv_Port (cfg_Server cfg),
      ms_txt = [''name='' @ cfg_DeviceName cfg,
                ''tls='' @ (if tls_Enabled (cfg_TLS cfg) then ''true'' else ''false'')]\<rparr>"

section \<open>Starting\<close>

text \<open>What is started: the mDNS service and the beacon, if any; or the error of \<open>Start\<close>.\<close>

record announced =
  an_mdns :: "mdns_service option"
  an_beacon :: "beacon option"

definition Start :: "(mdns_service \<Rightarrow> string option) \<Rightarrow> config \<Rightarrow> string + announced" where
  "Start register cfg =
     (if conn_Mode (cfg_Connection cfg) \<noteq> ModeDiscover then Inr \<lparr>an_mdns = None, an_beacon = None\<rparr>
      else
        let beacon = (if dis_Beacon (cfg_Discovery cfg) then Some (beacon_of cfg) else None)
        in if \<not> dis_MDNS (cfg_Discovery cfg) then Inr \<lparr>an_mdns = None, an_beacon = beacon\<rparr>
           else
             (case register (mdns_of cfg) of
                Some err \<Rightarrow> Inl (''mdns advertise: '' @ err)
              | None \<Rightarrow> Inr \<lparr>an_mdns = Some (mdns_of cfg), an_beacon = beacon\<rparr>))"

section \<open>Properties\<close>

lemma find_beacon_fields [simp]:
  "find_field beacon_fields ''name'' = Some (string_field (\<lambda>s. bm_Name_update (\<lambda>_. s)))"
  "find_field beacon_fields ''port'' = Some (int64_field (\<lambda>i. bm_Port_update (\<lambda>_. i)))"
  "find_field beacon_fields ''tls'' = Some (bool_field (\<lambda>b. bm_TLS_update (\<lambda>_. b)))"
  "find_field beacon_fields ''ts'' = Some (int64_field (\<lambda>i. bm_TS_update (\<lambda>_. i)))"
  by (simp_all add: find_field_def beacon_fields_def fold_char_def Let_def)

lemma bool_field_true: "bool_field upd (JBool b) r = Some (upd b r)"
  by (simp add: bool_field_def)

lemma payload_read: "Unmarshal (payload t b) = Some (marshal_beacon
    \<lparr>bm_Name = bn_Name b, bm_Port = bn_ServerPort b, bm_TLS = bn_TLS b, bm_TS = t div second\<rparr>)"
proof -
  let ?m = "\<lparr>bm_Name = bn_Name b, bm_Port = bn_ServerPort b, bm_TLS = bn_TLS b, bm_TS = t div second\<rparr>"
  have "well_formed (beacon_value ?m)" "within_depth 10000 (beacon_value ?m)"
    by (simp_all add: beacon_value_def)
  moreover have "with_valid_strings (beacon_value ?m) = marshal_beacon ?m"
    by (simp add: beacon_value_def marshal_beacon_def marshal_string_def marshal_int_def member_of_def
        valid_utf8_ascii byte_in_def)
  ultimately show ?thesis
    using Unmarshal_Marshal [of "beacon_value ?m" "[]" "[]"] by (simp add: payload_def)
qed

lemma unmarshal_payload:
  "in_int64 (bn_ServerPort b) \<Longrightarrow> in_int64 (t div second) \<Longrightarrow>
   unmarshal_beacon (Unmarshal (payload t b)) =
     Some \<lparr>bm_Name = to_valid_utf8 (bn_Name b), bm_Port = bn_ServerPort b, bm_TLS = bn_TLS b,
           bm_TS = t div second\<rparr>"
  by (simp add: payload_read unmarshal_beacon_def marshal_beacon_def store_members_append store_member_of
      bool_field_true)

text \<open>Announcing never leaks the token and only happens in discover mode: what \<open>Start\<close>
  announces is the same whatever the token is, in any other mode it is nothing, and a client
  that hears the beacon learns the device name, the server port and whether to use TLS.\<close>

lemma announcements:
  "Start reg (cfg\<lparr>cfg_Token := tok\<rparr>) = Start reg cfg \<and>
   (conn_Mode (cfg_Connection cfg) \<noteq> ModeDiscover \<longrightarrow>
      Start reg cfg = Inr \<lparr>an_mdns = None, an_beacon = None\<rparr>) \<and>
   (in_int64 (srv_Port (cfg_Server cfg)) \<and> in_int64 (t div second) \<longrightarrow>
      unmarshal_beacon (Unmarshal (payload t (beacon_of cfg))) =
        Some \<lparr>bm_Name = to_valid_utf8 (cfg_DeviceName cfg), bm_Port = srv_Port (cfg_Server cfg),
              bm_TLS = tls_Enabled (cfg_TLS cfg), bm_TS = t div second\<rparr>)"
proof -
  have "unmarshal_beacon (Unmarshal (payload t (beacon_of cfg))) =
        Some \<lparr>bm_Name = to_valid_utf8 (cfg_DeviceName cfg), bm_Port = srv_Port (cfg_Server cfg),
              bm_TLS = tls_Enabled (cfg_TLS cfg), bm_TS = t div second\<rparr>"
    if "in_int64 (srv_Port (cfg_Server cfg))" and "in_int64 (t div second)"
    using that by (subst unmarshal_payload) (simp_all add: beacon_of_def)
  moreover have "mdns_of (cfg\<lparr>cfg_Token := tok\<rparr>) = mdns_of cfg"
      and "beacon_of (cfg\<lparr>cfg_Token := tok\<rparr>) = beacon_of cfg"
    by (simp_all add: beacon_of_def mdns_of_def BroadcastInterval_def)
  then have "Start reg (cfg\<lparr>cfg_Token := tok\<rparr>) = Start reg cfg"
    by (simp add: Start_def split: option.split)
  ultimately show ?thesis
    by (simp add: Start_def)
qed

lemma announcements_example:
  "Start (\<lambda>_. None) (Default sample_env\<lparr>cfg_Connection := \<lparr>conn_Mode = ModeWhitelist, conn_Whitelist = []\<rparr>\<rparr>) =
     Inr \<lparr>an_mdns = None, an_beacon = None\<rparr>"
  using announcements [where reg = "\<lambda>_. None" and tok = "[]" and t = 0
      and cfg = "Default sample_env\<lparr>cfg_Connection := \<lparr>conn_Mode = ModeWhitelist, conn_Whitelist = []\<rparr>\<rparr>"]
  by simp

end
