(* ===== verification/Listener.thy ===== *)
theory Listener
  imports Discover
begin

text \<open>
  \<open>tests/integration/listener/main.go\<close>: the program that the integration tests run to hear
  what a daemon announces. It prints an event for every mDNS entry and for every UDP beacon
  that it can read, until its timeout. The mDNS resolver and the socket are parameters: what
  they deliver, and whether they can be opened. The lemma: the beacons of a daemon are heard.
\<close>

section \<open>Events\<close>

record heard =
  hd_Type :: string
  hd_Name :: string
  hd_Port :: int
  hd_TLS :: bool
  hd_Text :: string

definition heard_value :: "heard \<Rightarrow> json" where
  "heard_value h =
     JObj ([(''type'', JStr (hd_Type h))] @ raw_optional ''name'' (hd_Name h) @
           (if hd_Port h = 0 then [] else [(''port'', JNum (Itoa (hd_Port h)))]) @
           (if hd_TLS h then [(''tls'', JBool True)] else []) @ raw_optional ''text'' (hd_Text h))"

definition error_event :: "string \<Rightarrow> heard" where
  "error_event msg = \<lparr>hd_Type = ''error'', hd_Name = [], hd_Port = 0, hd_TLS = False, hd_Text = msg\<rparr>"

section \<open>mDNS\<close>

text \<open>An entry of the resolver: instance, port and host.\<close>

record mdns_entry =
  me_Instance :: string
  me_Port :: int
  me_HostName :: string

definition entry_event :: "mdns_entry \<Rightarrow> heard" where
  "entry_event e =
     \<lparr>hd_Type = ''mdns'', hd_Name = me_Instance e, hd_Port = me_Port e, hd_TLS = False, hd_Text = me_HostName e\<rparr>"

text \<open>
  \<open>listenMDNS\<close>: what the goroutine that reads the entries prints, and what the function itself
  prints; \<open>resolver\<close> and \<open>browse\<close> are the errors of the two calls.
\<close>

definition listenMDNS :: "string option \<Rightarrow> string option \<Rightarrow> mdns_entry list \<Rightarrow> heard list \<times> heard list" where
  "listenMDNS resolver browse es =
     (case resolver of
        Some err \<Rightarrow> ([], [error_event (''mdns resolver: '' @ err)])
      | None \<Rightarrow>
          (map entry_event es,
           case browse of None \<Rightarrow> [] | Some err \<Rightarrow> [error_event (''mdns browse: '' @ err)]))"

section \<open>Beacons\<close>

text \<open>The fields of the message that the listener knows; the others are ignored.\<close>

record heard_beacon =
  hb_Name :: string
  hb_Port :: int
  hb_TLS :: bool

definition heard_beacon_fields :: "heard_beacon field list" where
  "heard_beacon_fields =
     [(''name'', string_field (\<lambda>s. hb_Name_update (\<lambda>_. s))),
      (''port'', int64_field (\<lambda>i. hb_Port_update (\<lambda>_. i))),
      (''tls'', bool_field (\<lambda>b. hb_TLS_update (\<lambda>_. b)))]"

definition unmarshal_heard :: "json option \<Rightarrow> heard_beacon option" where
  "unmarshal_heard = unmarshal_raw heard_beacon_fields \<lparr>hb_Name = [], hb_Port = 0, hb_TLS = False\<rparr>"

text \<open>
  What a read from the socket gives: a datagram, of which the buffer takes 1500 bytes, a
  timeout, which is no end, or another error, which is. The list ends with the context.
\<close>

datatype udp_read = Datagram string | ReadTimeout | ReadFails

definition heard_event :: "heard_beacon \<Rightarrow> heard" where
  "heard_event m =
     \<lparr>hd_Type = ''beacon'', hd_Name = hb_Name m, hd_Port = hb_Port m, hd_TLS = hb_TLS m, hd_Text = []\<rparr>"

definition buffer_size :: nat where "buffer_size = 1500"

fun beacon_loop :: "udp_read list \<Rightarrow> heard list" where
  "beacon_loop [] = []"
| "beacon_loop (Datagram t # rs) =
     (case unmarshal_heard (Unmarshal (take buffer_size t)) of
        None \<Rightarrow> beacon_loop rs
      | Some m \<Rightarrow> heard_event m # beacon_loop rs)"
| "beacon_loop (ReadTimeout # rs) = beacon_loop rs"
| "beacon_loop (ReadFails # rs) = []"

definition listenBeacon :: "string option \<Rightarrow> udp_read list \<Rightarrow> heard list" where
  "listenBeacon listen rs =
     (case listen of
        Some err \<Rightarrow> [error_event (''beacon listen: '' @ err)]
      | None \<Rightarrow> beacon_loop rs)"

text \<open>A line of the output.\<close>

definition printed :: "heard \<Rightarrow> string" where
  "printed h = Encode (heard_value h)"

section \<open>The beacons of a daemon\<close>

lemma find_heard_fields [simp]:
  "find_field heard_beacon_fields ''name'' = Some (string_field (\<lambda>s. hb_Name_update (\<lambda>_. s)))"
  "find_field heard_beacon_fields ''port'' = Some (int64_field (\<lambda>i. hb_Port_update (\<lambda>_. i)))"
  "find_field heard_beacon_fields ''tls'' = Some (bool_field (\<lambda>b. hb_TLS_update (\<lambda>_. b)))"
  "find_field heard_beacon_fields ''ts'' = None"
  by (simp_all add: find_field_def heard_beacon_fields_def fold_char_def Let_def)

lemma payload_length:
  assumes "in_int64 (bn_ServerPort b)" and "in_int64 (t div second)"
  shows "length (payload t b) \<le> 6 * length (bn_Name b) + 144"
proof -
  have q: "length (json_quote k) \<le> 6 * length k + 2" for k
    using json_body_length_le [of k] by (simp add: json_quote_def)
  show ?thesis
    using q [of "bn_Name b"] q [of "''name''"] q [of "''port''"] q [of "''tls''"] q [of "''ts''"]
      Itoa_length [OF assms(1)] Itoa_length [OF assms(2)]
    by (simp add: payload_def beacon_value_def)
qed

lemma member_of_ts: "store_members heard_beacon_fields (member_of ''ts'' v) r = Some r"
  by (simp add: member_of_def store_member_def)

lemma payload_heard:
  assumes "in_int64 (bn_ServerPort b)" and "in_int64 (t div second)" and "length (bn_Name b) \<le> 226"
  shows "unmarshal_heard (Unmarshal (take buffer_size (payload t b))) =
    Some \<lparr>hb_Name = to_valid_utf8 (bn_Name b), hb_Port = bn_ServerPort b, hb_TLS = bn_TLS b\<rparr>"
proof -
  have "take buffer_size (payload t b) = payload t b"
    using payload_length [OF assms(1,2)] assms(3) by (simp add: buffer_size_def)
  then show ?thesis
    using assms
    by (simp add: payload_read unmarshal_heard_def marshal_beacon_def store_members_append store_member_of
        bool_field_true member_of_ts)
qed

text \<open>The datagrams of a run of \<open>Beacon.Run\<close>.\<close>

definition datagrams :: "run_result \<Rightarrow> udp_read list" where
  "datagrams r = (case r of Sends ps \<Rightarrow> map (\<lambda>(addr, port, t). Datagram t) ps | _ \<Rightarrow> [])"

text \<open>C21: a daemon in discover mode is heard: each beacon that \<open>Start\<close> and \<open>Beacon.Run\<close> send, the first and
  one per tick, is read by the listener as the device's name, its server port and whether it
  uses TLS, as long as the name has at most 226 bytes (whatever bytes: the text of the beacon
  then fits the buffer).\<close>

theorem beacons_are_heard:
  assumes "Start register cfg = Inr an" and "an_beacon an = Some b" and "0 < BroadcastInterval cfg"
    and "in_int64 (srv_Port (cfg_Server cfg))" and "length (cfg_DeviceName cfg) \<le> 226"
    and "\<forall>i \<le> n. in_int64 ((t + int i * BroadcastInterval cfg) div second)"
  shows "listenBeacon None (datagrams (beacon_Run None t n b)) =
    replicate (Suc n) \<lparr>hd_Type = ''beacon'', hd_Name = to_valid_utf8 (cfg_DeviceName cfg),
      hd_Port = srv_Port (cfg_Server cfg), hd_TLS = tls_Enabled (cfg_TLS cfg), hd_Text = []\<rparr>"
proof -
  have b: "b = beacon_of cfg"
    using assms(1,2) by (auto simp: Start_def Let_def split: if_splits option.splits)
  let ?h = "\<lparr>hd_Type = ''beacon'', hd_Name = to_valid_utf8 (cfg_DeviceName cfg),
      hd_Port = srv_Port (cfg_Server cfg), hd_TLS = tls_Enabled (cfg_TLS cfg), hd_Text = []\<rparr>"
  have loop: "beacon_loop (map (\<lambda>i. Datagram (payload (t + int i * BroadcastInterval cfg) b)) is) =
      replicate (length is) ?h" if "\<forall>i \<in> set is. i \<le> n" for "is"
    using that
  proof (induction "is")
    case (Cons i "is")
    then show ?case
      using assms(4-6) payload_heard [of b "t + int i * BroadcastInterval cfg"]
      by (simp add: b beacon_of_def heard_event_def)
  qed simp
  have "listenBeacon None (datagrams (beacon_Run None t n b)) =
      beacon_loop (map (\<lambda>i. Datagram (payload (t + int i * BroadcastInterval cfg) b)) [0..<Suc n])"
    using assms(3) by (simp add: listenBeacon_def beacon_Run_def datagrams_def b beacon_of_def comp_def)
  then show ?thesis
    using loop [of "[0..<Suc n]"] by (simp del: upt_Suc)
qed

theorem beacons_are_heard_witness:
  "map hd_Name (listenBeacon None (datagrams (beacon_Run None 1700000000000000000 2
     (beacon_of (Default sample_env\<lparr>cfg_DeviceName := ''desk''\<rparr>))))) = replicate 3 ''desk''"
proof -
  let ?cfg = "Default sample_env\<lparr>cfg_DeviceName := ''desk''\<rparr>"
  have "to_valid_utf8 ''desk'' = ''desk''"
    by (simp add: valid_utf8_ascii byte_in_def)
  then show ?thesis
    using beacons_are_heard [of "\<lambda>_. None" ?cfg _ "beacon_of ?cfg" 2 1700000000000000000]
    by (simp add: Start_def BroadcastInterval_def second_def in_int64_def Default_def Let_def)
qed

end
