(* ===== verification/Locks.thy ===== *)
theory Locks
  imports Main
begin

text \<open>
  Goroutines that share state under mutexes. A goroutine is what it still does to locks and
  shared variables; a step lets one of them do its next action, a mutex being acquired when
  nobody holds it (Go's are not reentrant). The locale \<open>lock_discipline\<close> is what a program
  promises: locks are taken in the order of a rank, given back, and a variable with a guard
  is only touched under it. Then nothing deadlocks, every run ends with all goroutines
  finished, and a guarded variable is never touched by two at the same time.
\<close>

section \<open>Goroutines\<close>

datatype ('l, 'v) action = Acquire 'l | Release 'l | ReadVar 'v | WriteVar 'v

type_synonym ('l, 'v) actions = "('l, 'v) action list"

record ('l, 'v) goroutine =
  go_todo :: "('l, 'v) actions"
  go_held :: "'l list"

definition go_start :: "('l, 'v) actions \<Rightarrow> ('l, 'v) goroutine" where
  "go_start as = \<lparr>go_todo = as, go_held = []\<rparr>"

definition is_held :: "'l \<Rightarrow> ('l, 'v) goroutine list \<Rightarrow> bool" where
  "is_held l gs \<longleftrightarrow> list_ex (\<lambda>g. l \<in> set (go_held g)) gs"

fun touches :: "'v \<Rightarrow> ('l, 'v) action \<Rightarrow> bool" where
  "touches v (ReadVar w) = (v = w)"
| "touches v (WriteVar w) = (v = w)"
| "touches v _ = False"

text \<open>What an action does to the locks of its goroutine; \<open>None\<close> when it has to wait.\<close>

fun take_action :: "('l, 'v) goroutine list \<Rightarrow> ('l, 'v) action \<Rightarrow> 'l list \<Rightarrow> 'l list option" where
  "take_action gs (Acquire l) H = (if is_held l gs then None else Some (l # H))"
| "take_action gs (Release l) H = Some (remove1 l H)"
| "take_action gs (ReadVar v) H = Some H"
| "take_action gs (WriteVar v) H = Some H"

inductive go_step :: "('l, 'v) goroutine list \<Rightarrow> ('l, 'v) goroutine list \<Rightarrow> bool" where
  advance: "k < length gs \<Longrightarrow> go_todo (gs ! k) = a # as \<Longrightarrow> take_action gs a (go_held (gs ! k)) = Some H \<Longrightarrow>
    go_step gs (gs[k := \<lparr>go_todo = as, go_held = H\<rparr>])"

inductive_cases go_stepE: "go_step gs gs'"

section \<open>The discipline\<close>

text \<open>The actions lead from the locks \<open>H\<close> to the locks \<open>K\<close>, in order and under the guards.\<close>

fun disciplined :: "('l \<Rightarrow> nat) \<Rightarrow> ('v \<Rightarrow> 'l option) \<Rightarrow> 'l list \<Rightarrow> ('l, 'v) actions \<Rightarrow> 'l list \<Rightarrow> bool" where
  "disciplined rank guard H [] K \<longleftrightarrow> H = K"
| "disciplined rank guard H (Acquire l # as) K \<longleftrightarrow>
     list_all (\<lambda>h. rank h < rank l) H \<and> disciplined rank guard (l # H) as K"
| "disciplined rank guard H (Release l # as) K \<longleftrightarrow> l \<in> set H \<and> disciplined rank guard (remove1 l H) as K"
| "disciplined rank guard H (ReadVar v # as) K \<longleftrightarrow>
     pred_option (\<lambda>l. l \<in> set H) (guard v) \<and> disciplined rank guard H as K"
| "disciplined rank guard H (WriteVar v # as) K \<longleftrightarrow>
     pred_option (\<lambda>l. l \<in> set H) (guard v) \<and> disciplined rank guard H as K"

definition locked :: "'l \<Rightarrow> ('l, 'v) actions \<Rightarrow> ('l, 'v) actions" where
  "locked l as = Acquire l # as @ [Release l]"

lemma disciplined_append:
  "disciplined rank guard H (as @ bs) L \<longleftrightarrow>
     (\<exists>K. disciplined rank guard H as K \<and> disciplined rank guard K bs L)"
proof (induction as arbitrary: H)
  case (Cons a as)
  then show ?case by (cases a) auto
qed simp

lemma disciplined_locked:
  assumes "list_all (\<lambda>h. rank h < rank l) H" and "disciplined rank guard (l # H) as (l # H)"
  shows "disciplined rank guard H (locked l as) H"
  using assms by (auto simp: locked_def disciplined_append)

lemma disciplined_concat:
  "list_all (\<lambda>as. disciplined rank guard H as H) ass \<Longrightarrow> disciplined rank guard H (concat ass) H"
  by (induction ass) (auto simp: disciplined_append)

section \<open>The contract\<close>

locale lock_discipline =
  fixes rank :: "'l \<Rightarrow> nat"
    and guard :: "'v \<Rightarrow> 'l option"
    and programs :: "('l, 'v) actions \<Rightarrow> bool"
  assumes programs_disciplined: "programs as \<Longrightarrow> disciplined rank guard [] as []"
begin

definition ok :: "('l, 'v) goroutine list \<Rightarrow> bool" where
  "ok gs \<longleftrightarrow>
     (\<forall>i < length gs. disciplined rank guard (go_held (gs ! i)) (go_todo (gs ! i)) [])
     \<and> (\<forall>i < length gs. \<forall>j < length gs. i \<noteq> j \<longrightarrow> set (go_held (gs ! i)) \<inter> set (go_held (gs ! j)) = {})"

lemma ok_start: "list_all programs ass \<Longrightarrow> ok (map go_start ass)"
  by (auto simp: ok_def go_start_def list_all_length programs_disciplined)

lemma ok_held: "ok gs \<Longrightarrow> i < length gs \<Longrightarrow> j < length gs \<Longrightarrow>
    l \<in> set (go_held (gs ! i)) \<Longrightarrow> l \<in> set (go_held (gs ! j)) \<Longrightarrow> i = j"
  unfolding ok_def by blast

text \<open>Acquiring adds a lock nobody holds; everything else adds none.\<close>

lemma take_action_held:
  assumes "take_action gs a H = Some K"
  shows "set K \<subseteq> set H \<union> {l. a = Acquire l \<and> \<not> is_held l gs}"
  using assms by (cases a) (auto split: if_splits dest: subsetD [OF set_remove1_subset])

lemma take_action_disciplined:
  assumes "take_action gs a H = Some K" and "disciplined rank guard H (a # as) L"
  shows "disciplined rank guard K as L"
  using assms by (cases a) (auto split: if_splits)

lemma ok_step:
  assumes "go_step gs gs'" and ok: "ok gs"
  shows "ok gs'"
  using assms(1)
proof (cases rule: go_step.cases)
  case (advance k a as H)
  have "disciplined rank guard (go_held (gs ! k)) (a # as) []"
    using ok advance(2,3) unfolding ok_def by metis
  then have d: "disciplined rank guard H as []"
    using take_action_disciplined [OF advance(4)] by blast
  have "set H \<inter> set (go_held (gs ! j)) = {}" if "j < length gs" "j \<noteq> k" for j
  proof -
    have "set (go_held (gs ! k)) \<inter> set (go_held (gs ! j)) = {}"
      using ok that advance(2) by (simp add: ok_def)
    moreover have "\<not> is_held l gs \<Longrightarrow> l \<notin> set (go_held (gs ! j))" for l
      using that by (auto simp: is_held_def list_ex_length)
    ultimately show ?thesis
      using take_action_held [OF advance(4)] by auto
  qed
  then show ?thesis
    using ok d advance(2) unfolding ok_def advance(1) by (auto simp: nth_list_update)
qed

lemma ok_reachable: "list_all programs ass \<Longrightarrow> go_step\<^sup>*\<^sup>* (map go_start ass) gs \<Longrightarrow> ok gs"
proof (rotate_tac 1, induction rule: rtranclp_induct)
  case base
  then show ?case by (rule ok_start)
qed (auto intro: ok_step)

text \<open>Mutual exclusion, for a guarded variable.\<close>

lemma guarded_by_one:
  assumes "ok gs" and "i < length gs" "j < length gs"
    and "go_todo (gs ! i) = a # as" "touches v a" "go_todo (gs ! j) = b # bs" "touches v b"
    and "guard v \<noteq> None"
  shows "i = j"
proof -
  obtain l where l: "guard v = Some l"
    using assms(8) by auto
  have "l \<in> set H" if "disciplined rank guard H (c # cs) []" "touches v c" for H c cs
    using that l by (cases c) auto
  then have "l \<in> set (go_held (gs ! i))" "l \<in> set (go_held (gs ! j))"
    using assms unfolding ok_def by metis+
  then show ?thesis
    using ok_held assms(1-3) by blast
qed

text \<open>Of the goroutines that wait, the one for the lock of the highest rank waits for one that does not.\<close>

definition wanted :: "('l, 'v) goroutine \<Rightarrow> nat" where
  "wanted g = (case go_todo g of Acquire l # as \<Rightarrow> rank l | _ \<Rightarrow> 0)"

lemma progress:
  assumes ok: "ok gs" and i: "i < length gs" "go_todo (gs ! i) \<noteq> []"
  shows "\<exists>gs'. go_step gs gs'"
proof (rule ccontr)
  assume stuck: "\<nexists>gs'. go_step gs gs'"
  have waits: "\<exists>l as. go_todo (gs ! j) = Acquire l # as \<and> is_held l gs"
    if j: "j < length gs" "go_todo (gs ! j) \<noteq> []" for j
  proof -
    obtain a as where a: "go_todo (gs ! j) = a # as"
      using j(2) by (cases "go_todo (gs ! j)") auto
    have "take_action gs a (go_held (gs ! j)) = None"
      using stuck go_step.advance [OF j(1) a] by (cases "take_action gs a (go_held (gs ! j))") auto
    then show ?thesis
      using a by (cases a) (auto split: if_splits)
  qed
  let ?S = "{j. j < length gs \<and> go_todo (gs ! j) \<noteq> []}"
  let ?m = "Max ((\<lambda>j. wanted (gs ! j)) ` ?S)"
  have fin: "finite ?S" and "?S \<noteq> {}"
    using i by auto
  then have "?m \<in> (\<lambda>j. wanted (gs ! j)) ` ?S"
    by (intro Max_in) auto
  then obtain m where m: "m \<in> ?S" "wanted (gs ! m) = ?m"
    by (metis (mono_tags, lifting) imageE)
  obtain l as where l: "go_todo (gs ! m) = Acquire l # as" "is_held l gs"
    using waits m(1) by blast
  obtain n where n: "n < length gs" "l \<in> set (go_held (gs ! n))"
    using l(2) by (auto simp: is_held_def list_ex_length)
  have dn: "disciplined rank guard (go_held (gs ! n)) (go_todo (gs ! n)) []"
    using ok n(1) by (simp add: ok_def)
  then have "n \<in> ?S"
    using n by auto
  then obtain k bs where k: "go_todo (gs ! n) = Acquire k # bs"
    using waits by blast
  then have "rank l < rank k"
    using dn n(2) by (auto simp: list_all_iff)
  moreover have "wanted (gs ! n) \<le> wanted (gs ! m)"
    unfolding m(2) using \<open>n \<in> ?S\<close> fin by (intro Max_ge) auto
  ultimately show False
    using l(1) k by (simp add: wanted_def)
qed

end

section \<open>Runs end\<close>

definition actions_left :: "('l, 'v) goroutine list \<Rightarrow> nat" where
  "actions_left gs = sum_list (map (length \<circ> go_todo) gs)"

lemma sum_list_update_nat:
  fixes f :: "'a \<Rightarrow> nat"
  shows "k < length xs \<Longrightarrow> sum_list (map f (xs[k := x])) + f (xs ! k) = sum_list (map f xs) + f x"
proof (induction xs arbitrary: k)
  case (Cons y ys)
  then show ?case by (cases k) auto
qed simp

lemma actions_left_step:
  assumes "go_step gs gs'"
  shows "actions_left gs = Suc (actions_left gs')"
  using assms
proof (cases rule: go_step.cases)
  case (advance k a as H)
  then show ?thesis
    using sum_list_update_nat [OF advance(2), of "length \<circ> go_todo" "\<lparr>go_todo = as, go_held = H\<rparr>"]
    by (simp add: actions_left_def)
qed

lemma actions_left_run: "(go_step ^^ k) gs gs' \<Longrightarrow> actions_left gs = k + actions_left gs'"
proof (induction k arbitrary: gs')
  case (Suc k)
  then show ?case
    using actions_left_step by fastforce
qed simp

lemma actions_left_zero: "actions_left gs = 0 \<longleftrightarrow> (\<forall>i < length gs. go_todo (gs ! i) = [])"
  by (simp add: actions_left_def all_set_conv_all_nth)

end
