(* ===== verification/LockOrder.thy ===== *)
theory LockOrder
  imports Locks
begin

text \<open>
  The locks of the daemon and of the commands: what each function of \<open>websocket\<close> and of
  \<open>clip/watch.go\<close> does to mutexes and shared variables, branch by branch, and what a goroutine
  may call. Writing to a connection and the clipboard tools are left out (they end, by a
  timeout); \<open>cfg\<close>, \<open>version\<close> and \<open>started\<close> are never written. The lemmas: the interpretation of
  \<open>lock_discipline\<close>, with the server's lock before those of clients and peers.
\<close>

section \<open>Locks and variables\<close>

text \<open>Clients and \<open>sync.Once\<close> values and peers are told apart by their number.\<close>

datatype mutex = OnceMu nat | ServerMu | ClientMu string | PeerMu nat | WatchMu | IdMu

datatype shared =
    IdSeq | ClientsMap | PeersMap | MaxClients | ConnectHook | RemoteHook | LastBroadcast
  | LastIn string | Profile string | PeerConn nat | Hashes

type_synonym lock_actions = "(mutex, shared) actions"

fun mutex_rank :: "mutex \<Rightarrow> nat" where
  "mutex_rank (OnceMu n) = 0"
| "mutex_rank ServerMu = 1"
| "mutex_rank _ = 2"

text \<open>
  Which mutex guards a variable: none for the fields that a hello fills in, nor for the remote
  callback, which \<open>handleClipboard\<close> reads without the lock.
\<close>

fun guard_of :: "shared \<Rightarrow> mutex option" where
  "guard_of IdSeq = Some IdMu"
| "guard_of (LastIn i) = Some (ClientMu i)"
| "guard_of (PeerConn p) = Some (PeerMu p)"
| "guard_of Hashes = Some WatchMu"
| "guard_of (Profile i) = None"
| "guard_of RemoteHook = None"
| "guard_of _ = Some ServerMu"

section \<open>client.go, helpers.go, peer.go\<close>

definition newID_locks :: lock_actions where
  "newID_locks = locked IdMu [ReadVar IdSeq, WriteVar IdSeq]"

definition write_locks :: "string \<Rightarrow> lock_actions" where
  "write_locks i = locked (ClientMu i) []"

definition noteIncoming_locks :: "string \<Rightarrow> lock_actions" where
  "noteIncoming_locks i = locked (ClientMu i) [WriteVar (LastIn i)]"

definition recentlySent_locks :: "string \<Rightarrow> lock_actions" where
  "recentlySent_locks i = locked (ClientMu i) [ReadVar (LastIn i)]"

definition Send_locks :: "nat \<Rightarrow> lock_actions" where
  "Send_locks p = locked (PeerMu p) [ReadVar (PeerConn p)]"

text \<open>A dial that succeeds stores the connection, then registers the peer.\<close>

definition peer_open_locks :: "nat \<Rightarrow> lock_actions" where
  "peer_open_locks p = locked (PeerMu p) [WriteVar (PeerConn p)] @ locked ServerMu [WriteVar PeersMap]"

definition peer_close_locks :: "nat \<Rightarrow> bool \<Rightarrow> lock_actions" where
  "peer_close_locks p open =
     locked (PeerMu p) (ReadVar (PeerConn p) # (if open then [WriteVar (PeerConn p)] else []))
     @ locked ServerMu [WriteVar PeersMap]"

section \<open>broadcast.go\<close>

text \<open>An image over the limit goes to nobody, anything else to these clients and peers.\<close>

datatype fanout = TooLarge | Fanout "string list" "nat list"

definition Broadcast_locks :: "fanout \<Rightarrow> lock_actions" where
  "Broadcast_locks f =
     (case f of
        TooLarge \<Rightarrow> []
      | Fanout is ps \<Rightarrow>
          locked ServerMu
            (ReadVar ClientsMap # concat (map write_locks is) @ ReadVar PeersMap # concat (map Send_locks ps)))"

text \<open>Each client is asked whether it sent the content, and written to if it did not.\<close>

definition local_write_locks :: "string \<times> bool \<Rightarrow> lock_actions" where
  "local_write_locks ib = recentlySent_locks (fst ib) @ (if snd ib then [] else write_locks (fst ib))"

definition BroadcastLocal_locks :: "(string \<times> bool) list \<Rightarrow> nat list \<Rightarrow> lock_actions" where
  "BroadcastLocal_locks ibs ps =
     locked ServerMu
       (ReadVar ClientsMap # concat (map local_write_locks ibs) @ ReadVar PeersMap # concat (map Send_locks ps))"

section \<open>watch.go\<close>

datatype checked = CheckFailed | Unchanged | Fires "(string \<times> bool) list" "nat list"

definition check_locks :: "checked \<Rightarrow> lock_actions" where
  "check_locks r =
     (case r of
        CheckFailed \<Rightarrow> locked WatchMu []
      | Unchanged \<Rightarrow> locked WatchMu [ReadVar Hashes, WriteVar Hashes]
      | Fires ibs ps \<Rightarrow> locked WatchMu [ReadVar Hashes, WriteVar Hashes] @ BroadcastLocal_locks ibs ps)"

definition LocalWrite_locks :: "bool \<Rightarrow> lock_actions" where
  "LocalWrite_locks written = locked WatchMu (if written then [WriteVar Hashes] else [])"

section \<open>handlers.go\<close>

text \<open>
  The connect hook: none, or that of a one-shot server, a \<open>sync.Once\<close> whose first caller
  broadcasts while the others wait; and the remote callback: through the watcher, or directly.
\<close>

datatype hook_run = NoHook | OnceFirst nat "(string \<times> bool) list" "nat list" | OnceLater nat

definition hook_locks :: "hook_run \<Rightarrow> lock_actions" where
  "hook_locks h =
     (case h of
        NoHook \<Rightarrow> []
      | OnceFirst n ibs ps \<Rightarrow> locked (OnceMu n) (BroadcastLocal_locks ibs ps)
      | OnceLater n \<Rightarrow> locked (OnceMu n) [])"

datatype remote_run = Directly | Watched bool

definition remote_locks :: "remote_run \<Rightarrow> lock_actions" where
  "remote_locks r = (case r of Directly \<Rightarrow> [] | Watched written \<Rightarrow> LocalWrite_locks written)"

definition handleWS_locks :: "bool \<Rightarrow> lock_actions" where
  "handleWS_locks full =
     newID_locks @ locked ServerMu
       (ReadVar MaxClients # ReadVar ClientsMap # (if full then [] else [WriteVar ClientsMap]))"

definition disconnect_locks :: lock_actions where
  "disconnect_locks = locked ServerMu [WriteVar ClientsMap]"

definition hello_locks :: "string \<Rightarrow> hook_run \<Rightarrow> lock_actions" where
  "hello_locks i h =
     WriteVar (Profile i) # locked ServerMu [ReadVar ConnectHook] @ hook_locks h @ write_locks i"

text \<open>A message is no content, an echo, or news: then the callback runs and it is relayed.\<close>

datatype clipboard_run = NoContent | Echo | News remote_run fanout

definition handleClipboard_locks :: "string \<Rightarrow> clipboard_run \<Rightarrow> lock_actions" where
  "handleClipboard_locks i r =
     (case r of
        NoContent \<Rightarrow> []
      | Echo \<Rightarrow> noteIncoming_locks i @ locked ServerMu [ReadVar LastBroadcast]
      | News cb f \<Rightarrow>
          noteIncoming_locks i @ locked ServerMu [ReadVar LastBroadcast, WriteVar LastBroadcast]
          @ ReadVar RemoteHook # remote_locks cb @ Broadcast_locks f)"

section \<open>server.go\<close>

definition Clients_locks :: "string list \<Rightarrow> lock_actions" where
  "Clients_locks is = locked ServerMu (ReadVar ClientsMap # map (\<lambda>i. ReadVar (Profile i)) is)"

section \<open>What a goroutine calls\<close>

datatype call =
    Call_handleWS bool | Call_disconnect | Call_reply string | Call_hello string hook_run
  | Call_handleClipboard string clipboard_run
  | Call_BroadcastLocal "(string \<times> bool) list" "nat list" | Call_Clients "string list"
  | Call_SetOnRemoteClip | Call_SetConnectHook | Call_SetMaxClients | Call_peer_open nat | Call_peer_close nat bool
  | Call_peer_push remote_run | Call_watch_start | Call_check checked | Call_Track

fun call_locks :: "call \<Rightarrow> lock_actions" where
  "call_locks (Call_handleWS full) = handleWS_locks full"
| "call_locks Call_disconnect = disconnect_locks"
| "call_locks (Call_reply i) = write_locks i"
| "call_locks (Call_hello i h) = hello_locks i h"
| "call_locks (Call_handleClipboard i r) = handleClipboard_locks i r"
| "call_locks (Call_BroadcastLocal ibs ps) = BroadcastLocal_locks ibs ps"
| "call_locks (Call_Clients is) = Clients_locks is"
| "call_locks Call_SetConnectHook = locked ServerMu [WriteVar ConnectHook]"
| "call_locks Call_SetOnRemoteClip = locked ServerMu [WriteVar RemoteHook]"
| "call_locks Call_SetMaxClients = locked ServerMu [WriteVar MaxClients]"
| "call_locks (Call_peer_open p) = peer_open_locks p"
| "call_locks (Call_peer_close p open) = peer_close_locks p open"
| "call_locks (Call_peer_push r) = remote_locks r"
| "call_locks Call_watch_start = locked WatchMu [WriteVar Hashes]"
| "call_locks (Call_check r) = check_locks r"
| "call_locks Call_Track = locked WatchMu [WriteVar Hashes]"

abbreviation program :: "call list \<Rightarrow> lock_actions" where
  "program cs \<equiv> concat (map call_locks cs)"

section \<open>The discipline is kept\<close>

abbreviation keeps :: "mutex list \<Rightarrow> lock_actions \<Rightarrow> bool" where
  "keeps H as \<equiv> disciplined mutex_rank guard_of H as H"

lemma keeps_append: "keeps H as \<Longrightarrow> keeps H bs \<Longrightarrow> keeps H (as @ bs)"
  by (auto simp: disciplined_append)

lemma keeps_concat: "(\<And>x. x \<in> set xs \<Longrightarrow> keeps H (f x)) \<Longrightarrow> keeps H (concat (map f xs))"
  by (rule disciplined_concat) (simp add: list_all_iff)

lemma keeps_leaf:
  "list_all (\<lambda>h. mutex_rank h < 2) H \<Longrightarrow> keeps H (write_locks i)"
  "list_all (\<lambda>h. mutex_rank h < 2) H \<Longrightarrow> keeps H (recentlySent_locks i)"
  "list_all (\<lambda>h. mutex_rank h < 2) H \<Longrightarrow> keeps H (Send_locks p)"
  by (simp_all add: write_locks_def recentlySent_locks_def Send_locks_def disciplined_locked)

lemma keeps_local_write: "list_all (\<lambda>h. mutex_rank h < 2) H \<Longrightarrow> keeps H (local_write_locks ib)"
  unfolding local_write_locks_def by (intro keeps_append) (simp_all add: keeps_leaf)

lemma keeps_Broadcast: "keeps [] (Broadcast_locks f)"
proof -
  have "keeps [ServerMu] (concat (map write_locks is))" "keeps [ServerMu] (concat (map Send_locks ps))" for "is" ps
    by (rule keeps_concat; simp add: keeps_leaf)+
  then show ?thesis
    unfolding Broadcast_locks_def
    by (cases f) (auto simp: disciplined_append intro!: disciplined_locked exI [of _ "[ServerMu]"])
qed

lemma keeps_BroadcastLocal:
  assumes "list_all (\<lambda>h. mutex_rank h < 1) H"
  shows "keeps H (BroadcastLocal_locks ibs ps)"
proof -
  have "list_all (\<lambda>h. mutex_rank h < 2) (ServerMu # H)"
    using assms by (auto simp: list_all_iff)
  then have "keeps (ServerMu # H) (concat (map local_write_locks ibs))"
      "keeps (ServerMu # H) (concat (map Send_locks ps))"
    by (intro keeps_concat; simp add: keeps_local_write keeps_leaf)+
  then show ?thesis
    using assms unfolding BroadcastLocal_locks_def by (intro disciplined_locked) (auto simp: disciplined_append)
qed

lemmas lock_defs = newID_locks_def noteIncoming_locks_def peer_open_locks_def peer_close_locks_def
  check_locks_def LocalWrite_locks_def handleWS_locks_def disconnect_locks_def

lemma keeps_hook: "keeps [] (hook_locks h)"
  by (cases h) (auto simp: hook_locks_def intro!: disciplined_locked keeps_BroadcastLocal)

lemma keeps_remote: "keeps [] (remote_locks r)"
  by (cases r) (auto simp: remote_locks_def lock_defs locked_def)

lemma keeps_handleClipboard: "keeps [] (handleClipboard_locks i r)"
proof -
  have "keeps [] (remote_locks cb @ Broadcast_locks f)" for cb f
    using keeps_remote keeps_Broadcast by (rule keeps_append)
  then show ?thesis
    by (cases r) (simp_all add: handleClipboard_locks_def noteIncoming_locks_def locked_def)
qed

lemma keeps_Clients: "keeps [] (Clients_locks is)"
proof -
  have "keeps [ServerMu] (map (\<lambda>i. ReadVar (Profile i)) is)"
    by (induction "is") simp_all
  then show ?thesis
    unfolding Clients_locks_def by (intro disciplined_locked) simp_all
qed

lemma keeps_call: "keeps [] (call_locks c)"
proof (cases c)
  case (Call_hello i h)
  then show ?thesis
    using keeps_append [OF keeps_hook keeps_leaf(1) [of "[]" i], of h]
    by (simp add: hello_locks_def locked_def)
next
  case (Call_check r)
  then show ?thesis
    using keeps_BroadcastLocal [of "[]"] by (cases r) (simp_all add: check_locks_def locked_def)
qed (simp_all add: keeps_handleClipboard keeps_BroadcastLocal keeps_Clients keeps_remote keeps_leaf lock_defs locked_def)

interpretation clipshare: lock_discipline mutex_rank guard_of "\<lambda>as. \<exists>cs. as = program cs"
  by unfold_locales (auto intro: keeps_concat keeps_call)

section \<open>Goroutines of the program\<close>

definition goroutines :: "call list list \<Rightarrow> (mutex, shared) goroutine list" where
  "goroutines css = map (\<lambda>cs. go_start (program cs)) css"

lemma goroutines_ok: "go_step\<^sup>*\<^sup>* (goroutines css) gs \<Longrightarrow> clipshare.ok gs"
  using clipshare.ok_reachable [of "map program css" gs] by (auto simp: goroutines_def list_all_iff comp_def)

lemma goroutines_actions: "actions_left (goroutines css) = sum_list (map (\<lambda>cs. length (program cs)) css)"
  by (simp add: actions_left_def goroutines_def go_start_def comp_def)


text \<open>A broadcast has the server's lock and waits for a client whose message is being noted.\<close>

definition ex_calls :: "call list list" where
  "ex_calls = [[Call_BroadcastLocal [(''1'', True)] []], [Call_handleClipboard ''1'' Echo]]"


text \<open>C9: Mutual exclusion: whatever the goroutines call and however they interleave, two of them are never
  at the same time about to touch the same part of the shared state: the maps of clients
  and peers, the limit, the connect hook, the last broadcast, what a client sent last, a
  peer's connection, the watcher's hashes, the counter of identifiers. (The fields that a
  hello fills in and the remote callback are not among them.)\<close>

theorem shared_state_one_at_a_time:
  assumes "go_step\<^sup>*\<^sup>* (goroutines css) gs" and "i < length gs" and "j < length gs"
    and "go_todo (gs ! i) = a # as" and "go_todo (gs ! j) = b # bs" and "touches v a" and "touches v b"
    and "v \<noteq> RemoteHook" and "\<forall>n. v \<noteq> Profile n"
  shows "i = j"
proof -
  have "guard_of v \<noteq> None"
    using assms(8,9) by (cases v) auto
  then show ?thesis
    using clipshare.guarded_by_one [OF goroutines_ok [OF assms(1)] assms(2,3,4,6,5,7)] by blast
qed

theorem shared_state_one_at_a_time_witness:
  "go_todo (goroutines [[Call_watch_start]] ! 0) = Acquire WatchMu # [WriteVar Hashes, Release WatchMu]
   \<and> (\<exists>gs. go_step\<^sup>*\<^sup>* (goroutines [[Call_watch_start]]) gs \<and> go_todo (gs ! 0) = [WriteVar Hashes, Release WatchMu]
       \<and> (\<forall>j < length gs. \<forall>b bs. go_todo (gs ! j) = b # bs \<and> touches Hashes b \<longrightarrow> 0 = j))"
proof -
  let ?gs = "goroutines [[Call_watch_start]]"
  let ?g = "\<lparr>go_todo = [WriteVar Hashes, Release WatchMu], go_held = [WatchMu]\<rparr>"
  have t: "go_todo (?gs ! 0) = Acquire WatchMu # [WriteVar Hashes, Release WatchMu]"
    by (simp add: goroutines_def go_start_def locked_def)
  have "go_step ?gs (?gs[0 := ?g])"
    by (rule go_step.advance [OF _ t]) (simp_all add: goroutines_def go_start_def is_held_def)
  then have r: "go_step\<^sup>*\<^sup>* ?gs (?gs[0 := ?g])" ..
  moreover have "go_todo (?gs[0 := ?g] ! 0) = [WriteVar Hashes, Release WatchMu]"
    by (simp add: goroutines_def)
  moreover have "0 = j" if "j < length (?gs[0 := ?g])" "go_todo (?gs[0 := ?g] ! j) = b # bs" "touches Hashes b" for j b bs
    using shared_state_one_at_a_time [OF r _ that(1) _ that(2) _ that(3), of 0 "WriteVar Hashes"]
    by (simp add: goroutines_def)
  ultimately show ?thesis
    using t by blast
qed

text \<open>C39: A data race: a hello fills in the name, the platform and the version of its client without the
  server's lock, although the client has been in the map since \<open>handleWS\<close>. So the program
  gets to a state in which one goroutine is about to write them while another, which lists
  the clients for a status request under the lock, is about to read them.\<close>

theorem profile_race:
  "\<exists>gs as bs. go_step\<^sup>*\<^sup>* (goroutines [[Call_hello n h], [Call_Clients [n]]]) gs
     \<and> go_todo (gs ! 0) = WriteVar (Profile n) # as
     \<and> go_todo (gs ! 1) = ReadVar (Profile n) # bs \<and> ServerMu \<in> set (go_held (gs ! 1))"
proof -
  let ?gs = "goroutines [[Call_hello n h], [Call_Clients [n]]]"
  let ?r = "[ReadVar (Profile n), Release ServerMu] :: lock_actions"
  let ?g = "\<lparr>go_todo = ReadVar ClientsMap # ?r, go_held = [ServerMu]\<rparr>"
  let ?g' = "\<lparr>go_todo = ?r, go_held = [ServerMu]\<rparr>"
  have t: "go_todo (?gs ! 1) = Acquire ServerMu # ReadVar ClientsMap # ?r"
    by (simp add: goroutines_def go_start_def Clients_locks_def locked_def)
  have "go_step ?gs (?gs[1 := ?g])"
    by (rule go_step.advance [OF _ t]) (simp_all add: goroutines_def go_start_def is_held_def)
  moreover have "go_step (?gs[1 := ?g]) (?gs[1 := ?g, 1 := ?g'])"
    by (rule go_step.advance [where a = "ReadVar ClientsMap"]) (simp_all add: goroutines_def)
  ultimately have r: "go_step\<^sup>*\<^sup>* ?gs (?gs[1 := ?g, 1 := ?g'])"
    by (auto intro: converse_rtranclp_into_rtranclp)
  then show ?thesis
    by (intro exI conjI, assumption)
      (simp_all add: goroutines_def go_start_def hello_locks_def)
qed

end
