(* ===== verification/Tls.thy ===== *)
theory Tls
  imports Config
begin

text \<open>
  \<open>websocket/tls.go\<close> and \<open>certs/load.go\<close>: the TLS configurations of the server and of the
  outgoing connections. Certificates \<open>'x\<close>, key pairs \<open>'kp\<close> and the verification of a chain
  are parameters; how \<open>crypto/tls\<close> uses a client configuration is written out as documented.
  The lemma: whichever way \<open>tls.verify_hostname\<close> is set, a connection to a peer is only used
  with a chain to the private CA.
\<close>

section \<open>Loading\<close>

text \<open>\<open>LoadPool\<close>: the file and the certificates in it; \<open>LoadKeyPair\<close> wraps the library's error.\<close>

definition LoadPool :: "(string \<Rightarrow> string + 'x list) \<Rightarrow> string \<Rightarrow> string + 'x list" where
  "LoadPool certs_of path =
     (case certs_of path of
        Inl err \<Rightarrow> Inl (''read CA '' @ path @ '': '' @ err)
      | Inr cs \<Rightarrow> if cs = [] then Inl (''no certificates found in '' @ path) else Inr cs)"

definition LoadKeyPair ::
    "(string \<Rightarrow> string \<Rightarrow> string + 'kp) \<Rightarrow> string \<Rightarrow> string \<Rightarrow> string + 'kp" where
  "LoadKeyPair load certPath keyPath =
     (case load certPath keyPath of
        Inl err \<Rightarrow> Inl (''load keypair ('' @ certPath @ '', '' @ keyPath @ ''): '' @ err)
      | Inr kp \<Rightarrow> Inr kp)"

section \<open>Configurations\<close>

datatype client_auth = NoClientCert | RequireAndVerifyClientCert

record ('kp, 'x) tls_config =
  tc_Certificates :: "'kp list"
  tc_ClientCAs :: "'x list option"
  tc_RootCAs :: "'x list option"
  tc_ClientAuth :: client_auth
  tc_MinVersion :: nat
  tc_InsecureSkipVerify :: bool
  tc_VerifyConnection :: "('x list \<Rightarrow> string option) option"

definition VersionTLS12 :: nat where "VersionTLS12 = 0x0303"

text \<open>The files and the verification the configurations use.\<close>

record ('kp, 'x) tls_env =
  te_certs_of :: "string \<Rightarrow> string + 'x list"
  te_keypair :: "string \<Rightarrow> string \<Rightarrow> string + 'kp"
  te_verify :: "'x \<Rightarrow> 'x list \<Rightarrow> 'x list \<Rightarrow> string \<Rightarrow> string list \<Rightarrow> string option"

definition tlsConfig :: "('kp, 'x) tls_env \<Rightarrow> config \<Rightarrow> string + ('kp, 'x) tls_config" where
  "tlsConfig te cfg =
     (case LoadKeyPair (te_keypair te) (tls_Cert (cfg_TLS cfg)) (tls_Key (cfg_TLS cfg)) of
        Inl err \<Rightarrow> Inl err
      | Inr kp \<Rightarrow>
          (case LoadPool (te_certs_of te) (tls_CA (cfg_TLS cfg)) of
             Inl err \<Rightarrow> Inl err
           | Inr pool \<Rightarrow>
               Inr \<lparr>tc_Certificates = [kp], tc_ClientCAs = Some pool, tc_RootCAs = None,
                    tc_ClientAuth = RequireAndVerifyClientCert, tc_MinVersion = VersionTLS12,
                    tc_InsecureSkipVerify = False, tc_VerifyConnection = None\<rparr>))"

text \<open>
  \<open>verifyChain\<close>: leaf, roots, intermediates, no name (\<open>[]\<close>), server use. The result is the
  error, if any.
\<close>

definition verifyChain :: "('kp, 'x) tls_env \<Rightarrow> 'x list \<Rightarrow> 'x list \<Rightarrow> string option" where
  "verifyChain te pool peers =
     (case peers of
        [] \<Rightarrow> Some ''no peer certificate presented''
      | leaf # rest \<Rightarrow> te_verify te leaf pool rest [] [''ServerAuth''])"

definition peerTLSConfig :: "('kp, 'x) tls_env \<Rightarrow> config \<Rightarrow> string + ('kp, 'x) tls_config" where
  "peerTLSConfig te cfg =
     (case LoadKeyPair (te_keypair te) (tls_Cert (cfg_TLS cfg)) (tls_Key (cfg_TLS cfg)) of
        Inl err \<Rightarrow> Inl err
      | Inr kp \<Rightarrow>
          (case LoadPool (te_certs_of te) (tls_CA (cfg_TLS cfg)) of
             Inl err \<Rightarrow> Inl err
           | Inr pool \<Rightarrow>
               let c = \<lparr>tc_Certificates = [kp], tc_ClientCAs = None, tc_RootCAs = Some pool,
                        tc_ClientAuth = NoClientCert, tc_MinVersion = VersionTLS12,
                        tc_InsecureSkipVerify = False, tc_VerifyConnection = None\<rparr>
               in if tls_VerifyHostname (cfg_TLS cfg) then Inr c
                  else Inr (c\<lparr>tc_InsecureSkipVerify := True,
                              tc_VerifyConnection := Some (verifyChain te pool)\<rparr>)))"

section \<open>What a client connection checks\<close>

text \<open>
  \<open>crypto/tls\<close> on the client side: the library verifies the chain and the name unless told
  to skip it, then calls \<open>VerifyConnection\<close>; any error ends the handshake. Without own roots
  the system's are used.
\<close>

definition client_accepts ::
    "('kp, 'x) tls_env \<Rightarrow> 'x list \<Rightarrow> ('kp, 'x) tls_config \<Rightarrow> string \<Rightarrow> 'x list \<Rightarrow> bool" where
  "client_accepts te system_roots c host peers \<longleftrightarrow>
     (tc_InsecureSkipVerify c \<or>
        (case peers of
           [] \<Rightarrow> False
         | leaf # rest \<Rightarrow>
             te_verify te leaf (case tc_RootCAs c of None \<Rightarrow> system_roots | Some p \<Rightarrow> p) rest host
               [''ServerAuth''] = None)) \<and>
     (case tc_VerifyConnection c of None \<Rightarrow> True | Some f \<Rightarrow> f peers = None)"

section \<open>Properties\<close>

text \<open>A connection to a peer is only used when the peer's certificate has a valid chain to the
  configured private CA for server use, whether host names are verified or not; with
  \<open>verify_hostname\<close> the certificate is also checked against the dialed host.\<close>

lemma accepted_chain:
  assumes "peerTLSConfig te cfg = Inr c" and "client_accepts te roots c host peers"
  shows "\<exists>leaf rest pool. peers = leaf # rest \<and> te_certs_of te (tls_CA (cfg_TLS cfg)) = Inr pool \<and>
    pool \<noteq> [] \<and>
    te_verify te leaf pool rest (if tls_VerifyHostname (cfg_TLS cfg) then host else []) [''ServerAuth''] = None"
proof -
  obtain pool where "te_certs_of te (tls_CA (cfg_TLS cfg)) = Inr pool" "pool \<noteq> []"
    using assms(1)
    by (auto simp: peerTLSConfig_def LoadPool_def split: sum.splits if_splits)
  then show ?thesis
    using assms
    by (auto simp: peerTLSConfig_def LoadPool_def LoadKeyPair_def client_accepts_def verifyChain_def
        Let_def split: sum.splits if_splits list.splits)
qed

text \<open>An instance: certificates are the names of their issuers.\<close>

definition toy_tls :: "(unit, string) tls_env" where
  "toy_tls =
     \<lparr>te_certs_of = (\<lambda>_. Inr [''ca'']), te_keypair = (\<lambda>_ _. Inr ()),
      te_verify = (\<lambda>leaf pool rest host use. if leaf \<in> set pool then None else Some ''unknown authority'')\<rparr>"

definition no_hostname :: config where
  "no_hostname =
     Default sample_env\<lparr>cfg_TLS :=
       \<lparr>tls_Enabled = True, tls_CA = ''ca.pem'', tls_Cert = ''c'', tls_Key = ''k'', tls_VerifyHostname = False\<rparr>\<rparr>"

end
