(* ===== verification/PeerTls.thy ===== *)
theory PeerTls
  imports PeerProps Tls
begin

text \<open>
  The start of a peer's goroutine with TLS (\<open>run\<close> in \<open>websocket/peer.go\<close>) and its dials: a dial
  succeeds when somebody answers whose certificates the TLS configuration accepts. The
  property: who has no certificate of the private CA gets nothing from a peer and gives it
  nothing.
\<close>

section \<open>Starting\<close>

text \<open>
  Without a TLS configuration the goroutine of a daemon with TLS ends before it dials; the
  second component is what it dials with.
\<close>

definition peer_start :: "('kp, 'x) tls_env \<Rightarrow> config \<Rightarrow> nat \<Rightarrow> peer \<times> ('kp, 'x) tls_config option" where
  "peer_start te cfg n =
     (if tls_Enabled (cfg_TLS cfg) then
        (case peerTLSConfig te cfg of
           Inl err \<Rightarrow> ((new_peer cfg n)\<lparr>pr_phase := Stopped\<rparr>, None)
         | Inr c \<Rightarrow> (new_peer cfg n, Some c))
      else (new_peer cfg n, None))"

section \<open>Dialing\<close>

text \<open>The events of a peer, with the certificates that the answering side shows.\<close>

datatype 'x dial_event =
    Answers "'x list" bool
  | NoAnswer
  | Reads read_result
  | Timer
  | Cancels
  | Keepalive nat

fun dialed :: "('kp, 'x) tls_env \<Rightarrow> 'x list \<Rightarrow> ('kp, 'x) tls_config option \<Rightarrow> string \<Rightarrow> 'x dial_event \<Rightarrow> peer_event" where
  "dialed te roots tc host (Answers chain b) =
     (case tc of
        None \<Rightarrow> DialOk b
      | Some c \<Rightarrow> if client_accepts te roots c host chain then DialOk b else DialFails)"
| "dialed te roots tc host NoAnswer = DialFails"
| "dialed te roots tc host (Reads r) = Receives r"
| "dialed te roots tc host Timer = Elapses"
| "dialed te roots tc host Cancels = Cancelled"
| "dialed te roots tc host (Keepalive n) = Ticks n"

definition run_peer ::
    "('kp, 'x) tls_env \<Rightarrow> 'x list \<Rightarrow> config \<Rightarrow> string \<Rightarrow> (content \<Rightarrow> string \<Rightarrow> 'w \<Rightarrow> 'w) option \<Rightarrow> string \<Rightarrow> nat
     \<Rightarrow> 'x dial_event list \<Rightarrow> server \<times> 'w \<Rightarrow> (peer \<times> server) \<times> 'w" where
  "run_peer te roots cfg v cb host n es sw =
     (case peer_start te cfg n of
        (pr, tc) \<Rightarrow> peer_run cfg v cb (map (dialed te roots tc host) es) ((pr, fst sw), snd sw))"

section \<open>Impostors\<close>

text \<open>A chain to the CA, for server use and, when that is asked for, for the host.\<close>

definition ca_certified :: "('kp, 'x) tls_env \<Rightarrow> config \<Rightarrow> string \<Rightarrow> 'x list \<Rightarrow> bool" where
  "ca_certified te cfg host chain =
     (case (chain, te_certs_of te (tls_CA (cfg_TLS cfg))) of
        (leaf # rest, Inr pool) \<Rightarrow>
          te_verify te leaf pool rest (if tls_VerifyHostname (cfg_TLS cfg) then host else []) [''ServerAuth''] = None
      | _ \<Rightarrow> False)"

text \<open>A peer that has never had a connection.\<close>

definition unconnected :: "peer \<Rightarrow> bool" where
  "unconnected pr \<longleftrightarrow>
     pr_phase pr \<noteq> Reading \<and> pr_conn pr = None \<and> pr_dialed pr = 0 \<and> pr_keepalives pr = [] \<and> pr_out pr = []"

lemma unconnected_step:
  assumes "unconnected pr" and "\<And>b. x = DialOk b \<Longrightarrow> pr_phase pr = Stopped"
  shows "\<exists>pr'. peer_step cfg v cb x ((pr, s), w) = ((pr', s), w) \<and> unconnected pr'
    \<and> (pr_phase pr = Stopped \<longrightarrow> pr_phase pr' = Stopped)"
  using assms by (cases x) (auto simp: unconnected_def start_wait_def keepalive_tick_def Let_def)

lemma unconnected_run:
  assumes "unconnected pr" and "\<And>b. DialOk b \<in> set xs \<Longrightarrow> pr_phase pr = Stopped"
  shows "\<exists>pr'. peer_run cfg v cb xs ((pr, s), w) = ((pr', s), w) \<and> unconnected pr'"
  using assms
proof (induction xs arbitrary: pr)
  case (Cons x xs)
  obtain pr' where "peer_step cfg v cb x ((pr, s), w) = ((pr', s), w)" "unconnected pr'"
      "pr_phase pr = Stopped \<longrightarrow> pr_phase pr' = Stopped"
    using unconnected_step [OF Cons.prems(1), of x cfg v cb s w] Cons.prems(2) by auto
  moreover from this have "\<exists>pr''. peer_run cfg v cb xs ((pr', s), w) = ((pr'', s), w) \<and> unconnected pr''"
    using Cons.prems(2) by (intro Cons.IH) auto
  ultimately show ?case
    by (simp add: peer_run_def)
qed (auto simp: peer_run_def)

text \<open>C35: With TLS on, only who has a certificate of the private CA talks to a peer: if nobody who answers
  its dials shows a chain that verifies against the CA (and, with \<open>verify_hostname\<close>, for the
  dialed host), then in any run the daemon opens no connection to it, writes nothing, not
  even its hello, registers no peer and takes no content; so also when the daemon's own
  certificate or CA cannot be loaded.\<close>

theorem impostors_get_nothing:
  assumes "tls_Enabled (cfg_TLS cfg)"
    and "\<forall>chain b. Answers chain b \<in> set es \<longrightarrow> \<not> ca_certified te cfg host chain"
  shows "\<exists>pr. run_peer te roots cfg v cb host n es (s, w) = ((pr, s), w)
    \<and> pr_conn pr = None \<and> pr_dialed pr = 0 \<and> pr_out pr = []"
proof -
  obtain pr tc where st: "peer_start te cfg n = (pr, tc)" by fastforce
  have "unconnected pr"
    using st assms(1) by (auto simp: peer_start_def unconnected_def new_peer_def split: sum.splits)
  moreover have "pr_phase pr = Stopped" if d: "DialOk b \<in> set (map (dialed te roots tc host) es)" for b
  proof (rule ccontr)
    assume "pr_phase pr \<noteq> Stopped"
    then obtain c where c: "peerTLSConfig te cfg = Inr c" "tc = Some c"
      using st assms(1) by (auto simp: peer_start_def split: sum.splits)
    have ev: "dialed te roots tc host x = DialOk b \<Longrightarrow> \<exists>chain. x = Answers chain b \<and> client_accepts te roots c host chain" for x
      using c(2) by (cases x) (auto split: if_splits)
    obtain x where "x \<in> set es" "DialOk b = dialed te roots tc host x"
      using d unfolding set_map by (rule imageE)
    then obtain chain where "Answers chain b \<in> set es" "client_accepts te roots c host chain"
      using ev [of x] by auto
    moreover from this have "ca_certified te cfg host chain"
      using accepted_chain [OF c(1), of roots host chain] by (auto simp: ca_certified_def)
    ultimately show False
      using assms(2) by blast
  qed
  ultimately obtain pr' where "run_peer te roots cfg v cb host n es (s, w) = ((pr', s), w)" "unconnected pr'"
    using unconnected_run [of pr "map (dialed te roots tc host) es" cfg v cb s w] by (auto simp: run_peer_def st)
  then show ?thesis
    by (auto simp: unconnected_def)
qed

theorem impostors_get_nothing_witness:
  "pr_out (fst (fst (run_peer toy_tls [''evil''] no_hostname ''1'' None ''10.0.0.9'' 0
     [Answers [''evil''] True, Timer, Answers [] True] (ex_server, ())))) = []"
proof -
  let ?es = "[Answers [''evil''] True, Timer, Answers [] True]"
  have "tls_Enabled (cfg_TLS no_hostname)"
      "\<forall>chain b. Answers chain b \<in> set ?es \<longrightarrow> \<not> ca_certified toy_tls no_hostname ''10.0.0.9'' chain"
    by (auto simp: no_hostname_def toy_tls_def ca_certified_def)
  then show ?thesis
    using impostors_get_nothing [of no_hostname ?es toy_tls "''10.0.0.9''" "[''evil'']" "''1''" None 0 ex_server "()"]
    by (metis fst_conv)
qed

end
