(* ===== verification/Serve.thy ===== *)
theory Serve
  imports Oneshot Tls App Discover
begin

text \<open>
  Opening the ports: \<open>ListenAndServe\<close> of \<open>websocket/server.go\<close> with \<open>tlsListener\<close> of \<open>tls.go\<close>,
  \<open>Listen\<close> of \<open>api/server.go\<close>, the address of \<open>NewClient\<close> of \<open>api/client.go\<close>, and what the commands
  \<open>send\<close>, \<open>watch\<close> and \<open>daemon\<close> make of a port they cannot open. \<open>net.Listen\<close> and \<open>Serve\<close> are
  parameters. The lemmas: with TLS on nothing is ever served in the clear, a failed start leaves
  no port open, and a one-shot server whose port is taken neither delivers nor fails.
\<close>

section \<open>Listening\<close>

definition host_port :: "string \<Rightarrow> int \<Rightarrow> string" where
  "host_port host port = host @ CHR '':'' # Itoa port"

text \<open>What the system answers: an error of \<open>net.Listen\<close>; the error of \<open>Serve\<close> and whether the
  context was over by then.\<close>

record 't port_calls =
  pc_listen :: "string \<Rightarrow> string option"
  pc_serve :: "'t option \<Rightarrow> string \<times> bool"

text \<open>What was done with a port: opened, closed without serving, served with this TLS configuration.\<close>

datatype 't port_event = Opened string | Given_up string | Served string "'t option"

definition serve_result :: "'t port_calls \<Rightarrow> string \<Rightarrow> 't option \<Rightarrow> string option \<times> 't port_event list" where
  "serve_result pc addr t =
     (case pc_serve pc t of (err, over) \<Rightarrow> (if over then None else Some err, [Opened addr, Served addr t]))"

definition ListenAndServe ::
    "('kp, 'x) tls_config port_calls \<Rightarrow> ('kp, 'x) tls_env \<Rightarrow> config
     \<Rightarrow> string option \<times> ('kp, 'x) tls_config port_event list" where
  "ListenAndServe pc te cfg =
     (let addr = host_port (srv_Bind (cfg_Server cfg)) (srv_Port (cfg_Server cfg)) in
      case pc_listen pc addr of
        Some err \<Rightarrow> (Some err, [])
      | None \<Rightarrow>
          if tls_Enabled (cfg_TLS cfg) then
            (case tlsConfig te cfg of
               Inl err \<Rightarrow> (Some err, [Opened addr, Given_up addr])
             | Inr t \<Rightarrow> serve_result pc addr (Some t))
          else serve_result pc addr None)"

definition api_Listen ::
    "unit port_calls \<Rightarrow> config \<Rightarrow> string option \<times> unit port_event list" where
  "api_Listen pc cfg =
     (let addr = host_port (api_Bind (cfg_API cfg)) (api_Port (cfg_API cfg)) in
      case pc_listen pc addr of
        Some err \<Rightarrow> (Some err, [])
      | None \<Rightarrow> serve_result pc addr None)"

definition NewClient :: "string \<Rightarrow> int \<Rightarrow> string" where
  "NewClient host port = ''http://'' @ host_port host port"

definition serving :: "'t port_event list \<Rightarrow> bool" where
  "serving xs \<longleftrightarrow> list_ex (\<lambda>x. case x of Served _ _ \<Rightarrow> True | _ \<Rightarrow> False) xs"

section \<open>TLS\<close>

lemma tlsConfig_requires:
  assumes "tlsConfig te cfg = Inr t"
  shows "tc_ClientAuth t = RequireAndVerifyClientCert \<and> VersionTLS12 \<le> tc_MinVersion t
    \<and> (\<exists>pool. tc_ClientCAs t = Some pool \<and> pool \<noteq> [] \<and> te_certs_of te (tls_CA (cfg_TLS cfg)) = Inr pool)"
  using assms by (auto simp: tlsConfig_def LoadPool_def split: sum.splits if_splits)

lemma serve_result_simps [simp]:
  "snd (serve_result pc addr t) = [Opened addr, Served addr t]"
  by (simp add: serve_result_def split: prod.split)

lemma serving_simps [simp]:
  "\<not> serving []" "serving (Served a t # xs)" "serving (Opened a # xs) = serving xs"
  "serving (Given_up a # xs) = serving xs"
  by (simp_all add: serving_def)

text \<open>C34: With \<open>tls.enabled\<close> the server never falls back to plain connections: whatever it serves, it
  serves with a configuration that requires a client certificate and verifies it against the
  configured private CA; when that cannot be loaded, or the port not opened, nothing is
  served, the error is returned and an opened port is closed again.\<close>

theorem tls_never_downgraded:
  assumes "tls_Enabled (cfg_TLS cfg)" and "ListenAndServe pc te cfg = (err, calls)"
  shows "(\<forall>addr t. Served addr t \<in> set calls \<longrightarrow>
      (\<exists>tc pool. t = Some tc \<and> tc_ClientAuth tc = RequireAndVerifyClientCert \<and> tc_ClientCAs tc = Some pool
        \<and> pool \<noteq> [] \<and> te_certs_of te (tls_CA (cfg_TLS cfg)) = Inr pool))
    \<and> (\<not> serving calls \<longrightarrow> err \<noteq> None \<and> (\<forall>addr. Opened addr \<in> set calls \<longrightarrow> Given_up addr \<in> set calls))"
proof -
  let ?addr = "host_port (srv_Bind (cfg_Server cfg)) (srv_Port (cfg_Server cfg))"
  consider (closed) e where "pc_listen pc ?addr = Some e"
    | (no_tls) e where "pc_listen pc ?addr = None" "tlsConfig te cfg = Inl e"
    | (tls) t where "pc_listen pc ?addr = None" "tlsConfig te cfg = Inr t"
    by (cases "pc_listen pc ?addr"; cases "tlsConfig te cfg") auto
  then show ?thesis
  proof cases
    case closed
    then have "err = Some e" "calls = []"
      using assms by (simp_all add: ListenAndServe_def Let_def)
    then show ?thesis by simp
  next
    case no_tls
    then have "err = Some e" "calls = [Opened ?addr, Given_up ?addr]"
      using assms by (simp_all add: ListenAndServe_def Let_def)
    then show ?thesis by simp
  next
    case (tls t)
    then have "calls = [Opened ?addr, Served ?addr (Some t)]"
      using assms serve_result_simps [of pc ?addr "Some t"] by (simp add: ListenAndServe_def Let_def)
    then show ?thesis
      using tlsConfig_requires [OF tls(2)] by auto
  qed
qed

text \<open>A port that can be opened, for the examples.\<close>

definition free_port :: "'t port_calls" where
  "free_port = \<lparr>pc_listen = (\<lambda>_. None), pc_serve = (\<lambda>_. (''http: Server closed'', True))\<rparr>"

theorem tls_never_downgraded_witness:
  "\<exists>t addr. snd (ListenAndServe free_port toy_tls no_hostname) = [Opened addr, Served addr t]
     \<and> (\<exists>tc. t = Some tc \<and> tc_ClientAuth tc = RequireAndVerifyClientCert \<and> tc_ClientCAs tc = Some [''ca''])"
proof -
  obtain err calls where l: "ListenAndServe free_port toy_tls no_hostname = (err, calls)"
    by fastforce
  moreover obtain addr t where c: "calls = [Opened addr, Served addr t]"
    using l by (auto simp: ListenAndServe_def free_port_def serve_result_def no_hostname_def tlsConfig_def
        LoadKeyPair_def LoadPool_def toy_tls_def Let_def)
  moreover have "\<exists>tc pool. t = Some tc \<and> tc_ClientAuth tc = RequireAndVerifyClientCert \<and>
      tc_ClientCAs tc = Some pool \<and> te_certs_of toy_tls (tls_CA (cfg_TLS no_hostname)) = Inr pool"
    using tls_never_downgraded [OF _ l] c by (auto simp: no_hostname_def)
  ultimately show ?thesis
    by (auto simp: toy_tls_def)
qed

section \<open>The commands\<close>

text \<open>
  \<open>runOneShot\<close>: its error, the server at the end, and how long it took. Connections only reach a
  server that serves; \<open>es\<close> are their events, and \<open>at\<close> the time of the delivery, if there is one.
\<close>

definition runOneShot ::
    "('kp, 'x) tls_config port_calls \<Rightarrow> ('kp, 'x) tls_env \<Rightarrow> env \<Rightarrow> config \<Rightarrow> string \<Rightarrow> content
     \<Rightarrow> event list \<Rightarrow> duration option \<Rightarrow> duration \<Rightarrow> string option \<times> server \<times> duration" where
  "runOneShot pc te e cfg v c es interrupted at =
     (let sd0 = oneshot_start e cfg v;
          sd = (if serving (snd (ListenAndServe pc te cfg)) then fold (oneshot_step c) es sd0 else sd0)
      in (None, fst sd, oneshot_end (cfg_Timing cfg) interrupted (if snd sd then Some at else None)))"

text \<open>\<open>clipshare send\<close> as a whole: what \<open>send_Run\<close> decides, carried out. The result is the error.\<close>

datatype send_error = Failed string | Refused send_result

definition send_command ::
    "(content \<Rightarrow> string option \<times> server \<times> duration) \<Rightarrow> send_outcome \<Rightarrow> send_error option" where
  "send_command oneshot out =
     (case out of
        SendError err \<Rightarrow> Some (Failed err)
      | OneShot c \<Rightarrow> map_option Failed (fst (oneshot c))
      | Sent_by_daemon \<Rightarrow> None
      | Daemon_refused r \<Rightarrow> Some (Refused r))"

text \<open>
  \<open>run\<close> of \<open>clipshare watch\<close>: the error of opening the clipboard, or the state in the end and
  when that is, at the first of the timeout, an interrupt and the time \<open>at\<close> of a write.
\<close>

definition watch_run ::
    "('kp, 'x) tls_config port_calls \<Rightarrow> ('kp, 'x) tls_env \<Rightarrow> env \<Rightarrow> config \<Rightarrow> string \<Rightarrow> 'w write_fn
     \<Rightarrow> string option \<Rightarrow> 'w \<Rightarrow> duration \<Rightarrow> event list \<Rightarrow> duration option \<Rightarrow> duration
     \<Rightarrow> string + 'w watch_state \<times> duration" where
  "watch_run pc te e cfg v wr opening w t es interrupted at =
     (case opening of
        Some err \<Rightarrow> Inl err
      | None \<Rightarrow>
          (let st0 = (SetMaxClients 1 (New e cfg v), \<lparr>ws_received = False, ws_printed = [], ws_desk = w\<rparr>);
               st = (if serving (snd (ListenAndServe pc te cfg)) then server_run (watch_hooks wr) es st0 else st0);
               end_at = earliest (watch_timeout cfg t) interrupted
           in Inr (snd st, if ws_received (snd st) then min at end_at else end_at)))"

text \<open>A port in use is not an error to the commands: with a daemon running, \<open>clipshare send --oneshot\<close>
  and \<open>clipshare watch\<close> cannot open the same port, and all they do is log it. The one
  delivers nothing, the other receives nothing, whatever happens on the network; both wait
  for their whole timeout and report success.\<close>

lemma port_taken_waits_in_vain:
  assumes "pc_listen pc (host_port (srv_Bind (cfg_Server cfg)) (srv_Port (cfg_Server cfg))) = Some err"
    and "''--oneshot'' \<in> set args" and "send_text clipboard (snd (send_args args)) = Inr t"
  shows "send_command (\<lambda>c. runOneShot pc te e cfg v c es None at) (send_Run clipboard api args) = None
    \<and> runOneShot pc te e cfg v c es None at =
      (None, SetMaxClients 1 (New e cfg v), OneShotTimeout (cfg_Timing cfg))
    \<and> watch_run pc te e cfg v wr None w d es None at =
      Inr (\<lparr>ws_received = False, ws_printed = [], ws_desk = w\<rparr>, watch_timeout cfg d)"
proof -
  have "ListenAndServe pc te cfg = (Some err, [])"
    using assms(1) by (simp add: ListenAndServe_def)
  then show ?thesis
    using assms(2,3)
    by (simp add: runOneShot_def watch_run_def send_command_def send_Run_def send_args_def oneshot_start_def
        oneshot_end_def earliest_def Let_def)
qed

definition taken_port :: "'t port_calls" where
  "taken_port = \<lparr>pc_listen = (\<lambda>_. Some ''address already in use''), pc_serve = (\<lambda>_. ([], True))\<rparr>"

lemma port_taken_waits_in_vain_example:
  "runOneShot taken_port toy_tls ex_env ex_config ''1'' ex_content [Connect [] ''10.0.0.9:5000'' True] None 0 =
     (None, SetMaxClients 1 (New ex_env ex_config ''1''), OneShotTimeout (cfg_Timing ex_config))"
proof (rule port_taken_waits_in_vain [where wr = ex_write and w = "[]" and clipboard = "Inl []" and t = "''hi''"
    and args = "[''--oneshot'', ''hi'']", THEN conjunct2, THEN conjunct1])
  show "send_text (Inl []) (snd (send_args [''--oneshot'', ''hi''])) = Inr ''hi''"
    by code_simp
qed (simp_all add: taken_port_def)

section \<open>The daemon\<close>

text \<open>
  \<open>App.Run\<close> after the watcher: what it logs as errors of the parts it starts. None of them ends
  the daemon, whose own result is never an error.
\<close>

definition error_line :: "string \<Rightarrow> string option \<Rightarrow> string list" where
  "error_line what err = (case err of None \<Rightarrow> [] | Some m \<Rightarrow> [what @ '': '' @ m])"

definition app_services ::
    "('kp, 'x) tls_config port_calls \<Rightarrow> unit port_calls \<Rightarrow> ('kp, 'x) tls_env
     \<Rightarrow> (mdns_service \<Rightarrow> string option) \<Rightarrow> config \<Rightarrow> string option \<times> string list" where
  "app_services pc apc te register cfg =
     (None,
      error_line ''ws server'' (fst (ListenAndServe pc te cfg))
      @ error_line ''discovery'' (case Start register cfg of Inl err \<Rightarrow> Some err | Inr _ \<Rightarrow> None)
      @ error_line ''api server'' (fst (api_Listen apc cfg)))"

end
