(* ===== verification/LocalIPs.thy ===== *)
theory LocalIPs
  imports GoStrings "HOL-Library.List_Lexorder" "HOL-Library.Char_ord" "HOL-Library.Multiset"
begin

text \<open>
  \<open>LocalIPs\<close> of \<open>certs/load.go\<close>: the addresses of the machine that a server certificate is
  issued for when none are given. What the interfaces report is a parameter. The lemma: which
  addresses these are, in which order.
\<close>

section \<open>Addresses\<close>

text \<open>What \<open>net.InterfaceAddrs\<close> lists: networks with an address of 4 or 16 bytes, or something else.\<close>

datatype iface_addr = IPNet "nat list" | OtherAddr

text \<open>\<open>To4\<close>: the four bytes of an IPv4 address, also of one written in 16.\<close>

definition To4 :: "nat list \<Rightarrow> nat list option" where
  "To4 ip =
     (if length ip = 4 then Some ip
      else if length ip = 16 \<and> take 12 ip = replicate 10 0 @ [0xFF, 0xFF] then Some (drop 12 ip)
      else None)"

definition IsLoopback :: "nat list \<Rightarrow> bool" where
  "IsLoopback ip =
     (case To4 ip of Some v4 \<Rightarrow> hd v4 = 127 | None \<Rightarrow> ip = replicate 15 0 @ [1])"

definition dotted :: "nat list \<Rightarrow> string" where
  "dotted ip = Join (map (\<lambda>b. Itoa (int b)) ip) ''.''"

text \<open>The loop of \<open>LocalIPs\<close>, then \<open>sort.Strings\<close>. \<open>None\<close> is the error of \<open>InterfaceAddrs\<close>.\<close>

fun local_v4 :: "iface_addr list \<Rightarrow> string list" where
  "local_v4 [] = []"
| "local_v4 (OtherAddr # xs) = local_v4 xs"
| "local_v4 (IPNet ip # xs) =
     (case To4 ip of
        None \<Rightarrow> local_v4 xs
      | Some v4 \<Rightarrow> if IsLoopback ip then local_v4 xs else dotted v4 # local_v4 xs)"

definition LocalIPs :: "iface_addr list option \<Rightarrow> string list" where
  "LocalIPs addrs = (case addrs of None \<Rightarrow> [] | Some xs \<Rightarrow> sort (local_v4 xs))"

section \<open>Which addresses\<close>

lemma local_v4_filter:
  "local_v4 xs =
     map dotted (filter (\<lambda>v4. hd v4 \<noteq> 127)
       (List.map_filter (\<lambda>x. case x of IPNet ip \<Rightarrow> To4 ip | OtherAddr \<Rightarrow> None) xs))"
  by (induction xs rule: local_v4.induct) (auto simp: IsLoopback_def map_filter_simps split: option.split)

text \<open>Exactly the IPv4 addresses outside 127.0.0.0/8, each as often as it is reported, sorted.\<close>

lemma LocalIPs_sorted:
  "sorted (LocalIPs (Some xs)) \<and>
   mset (LocalIPs (Some xs)) = mset (map dotted (filter (\<lambda>v4. hd v4 \<noteq> 127)
       (List.map_filter (\<lambda>x. case x of IPNet ip \<Rightarrow> To4 ip | OtherAddr \<Rightarrow> None) xs)))"
  by (simp add: LocalIPs_def local_v4_filter)

end
