(* ===== verification/Notify.thy ===== *)
theory Notify
  imports ClipBackends
begin

text \<open>
  Starting the clipboard-change notifications: \<open>clip/notify_linux.go\<close> (Wayland, then X11) and
  \<open>clip/notify_windows.go\<close> (a message-only window). What the operating system answers to each
  call is a parameter; the state is what the notifier holds. The lemmas: on Linux the result
  is a running notifier or \<open>ErrNotifierUnavailable\<close>, and no start that fails keeps anything;
  on Windows every way through the pump gives back what it took, and notifications coalesce.
\<close>

section \<open>A channel with one slot\<close>

text \<open>The non-blocking send of the notifiers: a signal while one is pending is dropped.\<close>

definition signal_chan :: "bool \<Rightarrow> bool" where
  "signal_chan pending = (if pending then pending else True)"

definition receive_chan :: "bool \<Rightarrow> (bool \<times> bool)" where
  "receive_chan pending = (pending, False)"

section \<open>Linux\<close>

datatype notify_error = NotifierUnavailable | NotifyFailed string

text \<open>What the calls of \<open>startWaylandNotifier\<close> give; \<open>wl_exits\<close>: the child ends within 250 ms.\<close>

record wl_calls =
  wl_display :: string
  wl_paste :: bool
  wl_pipe_ok :: bool
  wl_start_ok :: bool
  wl_exits :: bool

text \<open>What those of \<open>startX11Notifier\<close> give.\<close>

record x11_calls =
  x11_conn_ok :: bool
  x11_init_ok :: bool
  x11_version_ok :: bool
  x11_atom :: "nat option"
  x11_select_ok :: bool

text \<open>
  What is held: ends of the pipe, children, X connections. When the child exits at once, the
  scanner sees the end of the pipe and closes it.
\<close>

record held =
  hd_pipes :: nat
  hd_children :: nat
  hd_conns :: nat

definition startWaylandNotifier :: "wl_calls \<Rightarrow> held \<Rightarrow> notify_error option \<times> held" where
  "startWaylandNotifier c h =
     (if wl_display c = [] \<or> \<not> wl_paste c then (Some NotifierUnavailable, h)
      else if \<not> wl_pipe_ok c then (Some (NotifyFailed ''watch pipe''), h)
      else
        let h1 = h\<lparr>hd_pipes := hd_pipes h + 2\<rparr> in
        if \<not> wl_start_ok c then
          (Some (NotifyFailed ''wl-paste watch''), h1\<lparr>hd_pipes := hd_pipes h1 - 2\<rparr>)
        else
          let h2 = h1\<lparr>hd_pipes := hd_pipes h1 - 1, hd_children := hd_children h1 + 1\<rparr> in
          if wl_exits c then
            (Some (NotifyFailed ''wl-paste --watch exited immediately''),
             h2\<lparr>hd_pipes := hd_pipes h2 - 1, hd_children := hd_children h2 - 1\<rparr>)
          else (None, h2))"

definition startX11Notifier :: "x11_calls \<Rightarrow> held \<Rightarrow> notify_error option \<times> held" where
  "startX11Notifier c h =
     (if \<not> x11_conn_ok c then (Some NotifierUnavailable, h)
      else
        let h1 = h\<lparr>hd_conns := hd_conns h + 1\<rparr>; closed = h1\<lparr>hd_conns := hd_conns h1 - 1\<rparr> in
        if \<not> x11_init_ok c then (Some NotifierUnavailable, closed)
        else if \<not> x11_version_ok c then (Some NotifierUnavailable, closed)
        else
          (case x11_atom c of
             None \<Rightarrow> (Some (NotifyFailed ''intern CLIPBOARD atom''), closed)
           | Some a \<Rightarrow>
               if a = 0 then (Some (NotifyFailed ''intern CLIPBOARD atom''), closed)
               else if \<not> x11_select_ok c then (Some (NotifyFailed ''select selection input''), closed)
               else (None, h1)))"

definition startClipboardNotifier ::
    "wl_calls \<Rightarrow> x11_calls \<Rightarrow> held \<Rightarrow> notify_error option \<times> held" where
  "startClipboardNotifier wc xc h =
     (case startWaylandNotifier wc h of
        (None, h1) \<Rightarrow> (None, h1)
      | (Some _, h1) \<Rightarrow>
          (case startX11Notifier xc h1 of
             (None, h2) \<Rightarrow> (None, h2)
           | (Some _, h2) \<Rightarrow> (Some NotifierUnavailable, h2)))"

text \<open>\<open>notify_other.go\<close>, for systems that are neither Linux nor Windows: \<open>App\<close> then polls.\<close>

definition startOtherNotifier :: "held \<Rightarrow> notify_error option \<times> held" where
  "startOtherNotifier h = (Some NotifierUnavailable, h)"

section \<open>Windows\<close>

definition wmClipboardUpdate :: nat where "wmClipboardUpdate = 0x031D"

text \<open>
  What the process holds at the operating system: window classes, windows, registered
  listeners, the package's map from windows to channels, and which channels have a signal.
\<close>

record win_held =
  wh_classes :: "string list"
  wh_windows :: "nat list"
  wh_listeners :: "nat list"
  wh_chans :: "(nat \<times> nat) list"
  wh_pending :: "nat \<Rightarrow> bool"

record win_calls =
  wc_register_ok :: bool
  wc_create :: nat
  wc_add_ok :: bool

definition win_unclass :: "string \<Rightarrow> win_held \<Rightarrow> win_held" where
  "win_unclass name h = h\<lparr>wh_classes := removeAll name (wh_classes h)\<rparr>"

definition win_unmap :: "nat \<Rightarrow> win_held \<Rightarrow> win_held" where
  "win_unmap w h = h\<lparr>wh_chans := alist_del w (wh_chans h)\<rparr>"

definition win_destroy :: "nat \<Rightarrow> win_held \<Rightarrow> win_held" where
  "win_destroy w h = h\<lparr>wh_windows := removeAll w (wh_windows h)\<rparr>"

definition win_unlisten :: "nat \<Rightarrow> win_held \<Rightarrow> win_held" where
  "win_unlisten w h = h\<lparr>wh_listeners := removeAll w (wh_listeners h)\<rparr>"

text \<open>\<open>pump\<close> until \<open>ready\<close>: the error, or the window that is listening.\<close>

definition pump_start :: "win_calls \<Rightarrow> string \<Rightarrow> nat \<Rightarrow> win_held \<Rightarrow> (string + nat) \<times> win_held" where
  "pump_start c name ch h =
     (if \<not> wc_register_ok c then (Inl ''register clipboard listener window class failed'', h)
      else
        let h1 = h\<lparr>wh_classes := name # wh_classes h\<rparr>; w = wc_create c in
        if w = 0 then (Inl ''create clipboard listener window failed'', win_unclass name h1)
        else
          let h2 = h1\<lparr>wh_windows := w # wh_windows h1, wh_chans := alist_put w ch (wh_chans h1)\<rparr> in
          if \<not> wc_add_ok c then
            (Inl ''AddClipboardFormatListener failed'', win_unclass name (win_destroy w (win_unmap w h2)))
          else (Inr w, h2\<lparr>wh_listeners := w # wh_listeners h2\<rparr>))"

text \<open>\<open>clipWndProc\<close>, then the message loop until it gets a value that is not positive.\<close>

definition clipWndProc :: "nat \<Rightarrow> nat \<Rightarrow> win_held \<Rightarrow> win_held" where
  "clipWndProc w message h =
     (if message = wmClipboardUpdate then
        (case map_of (wh_chans h) w of
           None \<Rightarrow> h
         | Some ch \<Rightarrow> h\<lparr>wh_pending := (wh_pending h)(ch := signal_chan (wh_pending h ch))\<rparr>)
      else h)"

fun message_loop :: "(int \<times> nat \<times> nat) list \<Rightarrow> win_held \<Rightarrow> win_held" where
  "message_loop [] h = h"
| "message_loop ((r, w, m) # ms) h = (if r \<le> 0 then h else message_loop ms (clipWndProc w m h))"

definition pump_end :: "string \<Rightarrow> nat \<Rightarrow> win_held \<Rightarrow> win_held" where
  "pump_end name w h = win_unclass name (win_destroy w (win_unmap w (win_unlisten w h)))"

definition pump ::
    "win_calls \<Rightarrow> string \<Rightarrow> nat \<Rightarrow> (int \<times> nat \<times> nat) list \<Rightarrow> win_held \<Rightarrow> string option \<times> win_held" where
  "pump c name ch ms h =
     (case pump_start c name ch h of
        (Inl err, h1) \<Rightarrow> (Some err, h1)
      | (Inr w, h1) \<Rightarrow> (None, pump_end name w (message_loop ms h1)))"

text \<open>
  \<open>startClipboardNotifier\<close> on Windows waits for the pump: with its error, \<open>stop\<close> does nothing,
  else it is \<open>requestStop\<close>, which posts to the pump's thread the message that ends its loop, once
  (\<open>stopOnce\<close>), whether the caller or the end of the context asks for it.
\<close>

definition wmQuit :: nat where "wmQuit = 0x0012"

record win_stop =
  st_once :: bool
  st_posted :: "(nat \<times> nat) list"

definition requestStop :: "nat \<Rightarrow> win_stop \<Rightarrow> win_stop" where
  "requestStop thread s =
     (if st_once s then s else s\<lparr>st_once := True, st_posted := st_posted s @ [(thread, wmQuit)]\<rparr>)"

definition startWindowsNotifier ::
    "win_calls \<Rightarrow> string \<Rightarrow> nat \<Rightarrow> nat \<Rightarrow> win_held \<Rightarrow> string option \<times> (win_stop \<Rightarrow> win_stop) \<times> win_held" where
  "startWindowsNotifier c name ch thread h =
     (case pump_start c name ch h of
        (Inl err, h') \<Rightarrow> (Some err, (\<lambda>s. s), h')
      | (Inr w, h') \<Rightarrow> (None, requestStop thread, h'))"

section \<open>Properties\<close>

lemma wayland_failed:
  "startWaylandNotifier c h = (Some err, h') \<Longrightarrow> h' = h"
  by (auto simp: startWaylandNotifier_def Let_def split: if_splits)

lemma x11_failed: "startX11Notifier c h = (Some err, h') \<Longrightarrow> h' = h"
  by (auto simp: startX11Notifier_def Let_def split: if_splits option.splits)

text \<open>On Linux starting the notifications ends in one of two ways: a notifier runs, holding one
  child and its pipe or one X connection, or the error is \<open>ErrNotifierUnavailable\<close> and nothing
  is held, so the daemon polls; no other error reaches it. Wayland is preferred.\<close>

lemma linux_notifier_outcome:
  "case startClipboardNotifier wc xc h of
     (None, h') \<Rightarrow>
       h' = (if fst (startWaylandNotifier wc h) = None
             then h\<lparr>hd_pipes := hd_pipes h + 1, hd_children := hd_children h + 1\<rparr>
             else h\<lparr>hd_conns := hd_conns h + 1\<rparr>)
   | (Some err, h') \<Rightarrow>
       err = NotifierUnavailable \<and> h' = h \<and> fst (startWaylandNotifier wc h) \<noteq> None \<and>
       fst (startX11Notifier xc h) \<noteq> None"
proof (cases "startWaylandNotifier wc h")
  case (Pair r h1)
  show ?thesis
  proof (cases r)
    case None
    then show ?thesis
      using Pair by (auto simp: startClipboardNotifier_def startWaylandNotifier_def Let_def split: if_splits)
  next
    case (Some err)
    then have h1: "h1 = h"
      using Pair wayland_failed by auto
    show ?thesis
    proof (cases "startX11Notifier xc h")
      case P2: (Pair r2 h2)
      show ?thesis
      proof (cases r2)
        case None
        then show ?thesis
          using Pair Some h1 P2
          by (auto simp: startClipboardNotifier_def startX11Notifier_def Let_def split: if_splits option.splits)
      next
        case S2: (Some err2)
        then have "h2 = h"
          using P2 x11_failed by auto
        then show ?thesis
          using Pair Some h1 P2 S2 by (simp add: startClipboardNotifier_def)
      qed
    qed
  qed
qed

lemma wndproc_resources [simp]:
  "wh_classes (clipWndProc w m h) = wh_classes h" "wh_windows (clipWndProc w m h) = wh_windows h"
  "wh_listeners (clipWndProc w m h) = wh_listeners h" "wh_chans (clipWndProc w m h) = wh_chans h"
  by (simp_all add: clipWndProc_def split: option.split)

lemma loop_resources [simp]:
  "wh_classes (message_loop ms h) = wh_classes h" "wh_windows (message_loop ms h) = wh_windows h"
  "wh_listeners (message_loop ms h) = wh_listeners h" "wh_chans (message_loop ms h) = wh_chans h"
  by (induction ms h rule: message_loop.induct) simp_all

text \<open>What the process holds, without the pending signals.\<close>

definition win_resources :: "win_held \<Rightarrow> string list \<times> nat list \<times> nat list \<times> (nat \<times> nat) list" where
  "win_resources h = (wh_classes h, wh_windows h, wh_listeners h, wh_chans h)"

lemma del_put_fresh: "k \<notin> set (keys m) \<Longrightarrow> alist_del k (alist_put k v m) = m"
  by (simp add: put_new alist_del_def) (induction m, auto)

text \<open>The Windows notifier gives everything back: whichever call fails at the start, and whatever
  messages arrive until the loop ends, after the pump the process has the window classes,
  windows, listeners and channel mappings it had before.\<close>

lemma windows_pump_releases:
  assumes "name \<notin> set (wh_classes h)" and "wc_create c \<notin> set (wh_windows h)"
    and "wc_create c \<notin> set (wh_listeners h)" and "wc_create c \<notin> set (keys (wh_chans h))"
  shows "win_resources (snd (pump c name ch ms h)) = win_resources h"
  using assms del_put_fresh [OF assms(4), of ch]
  by (simp add: pump_def pump_start_def pump_end_def Let_def win_resources_def win_unclass_def
      win_unmap_def win_destroy_def win_unlisten_def)

definition ex_held :: win_held where
  "ex_held = \<lparr>wh_classes = [], wh_windows = [], wh_listeners = [], wh_chans = [], wh_pending = (\<lambda>_. False)\<rparr>"

lemma windows_pump_releases_example:
  "win_resources (snd (pump \<lparr>wc_register_ok = True, wc_create = 7, wc_add_ok = True\<rparr> ''c'' 1
     [(1, 7, wmClipboardUpdate), (0, 0, 0)] ex_held)) = win_resources ex_held"
  by (rule windows_pump_releases) (simp_all add: ex_held_def)

text \<open>A change signals the channel of the window that gets the message, once.\<close>

lemma update_signals:
  "map_of (wh_chans h) w = Some ch \<Longrightarrow>
   wh_pending (clipWndProc w wmClipboardUpdate h) = (wh_pending h)(ch := True)"
  by (auto simp: clipWndProc_def signal_chan_def)

text \<open>However often \<open>stop\<close> is called, at most one message is posted, and only to a pump that runs.\<close>

lemma stop_posts_once:
  assumes "startWindowsNotifier c name ch thread h = (err, stop, h')"
  shows "st_posted ((stop ^^ n) \<lparr>st_once = False, st_posted = []\<rparr>) =
    (if err = None \<and> 0 < n then [(thread, wmQuit)] else [])"
proof (cases "err = None")
  case True
  then have "stop = requestStop thread"
    using assms by (auto simp: startWindowsNotifier_def split: prod.splits sum.splits)
  moreover have posted: "(requestStop thread ^^ Suc k) \<lparr>st_once = False, st_posted = []\<rparr> =
      \<lparr>st_once = True, st_posted = [(thread, wmQuit)]\<rparr>" for k
    by (induction k) (simp_all add: requestStop_def)
  ultimately show ?thesis
    using True by (cases n) (simp, simp only: posted, simp)
next
  case False
  then have "stop = (\<lambda>s. s)"
    using assms by (auto simp: startWindowsNotifier_def split: prod.splits sum.splits)
  moreover have "((\<lambda>s. s) ^^ n) x = x" for x :: win_stop
    by (induction n) simp_all
  ultimately show ?thesis
    using False by simp
qed

end
