(* ===== verification/Spec2Isabelle.thy ===== *)
theory Spec2Isabelle
  imports EndToEnd Program WatchRun Valid Phone Listener Bus LockOrder PeerTls Toml Relay Wire Handshake Network PeerProps App Api Oneshot Serve CertsProps LocalIPs Cli Discover Tls Notify Log
begin

text \<open>
  clipshare: a daemon that keeps the clipboards of a desktop, of its phones and of other
  desktops in step. This development models the Go code under \<open>src/src/internal\<close>.

  The program. A daemon loads a configuration (\<open>config\<close>), watches the desktop's clipboard
  (\<open>clip\<close>), announces itself on the network (\<open>discover\<close>), serves WebSocket clients and
  dials other daemons (\<open>websocket\<close>, messages in \<open>protocol\<close>), and answers the command line
  over a local HTTP interface (\<open>api\<close>). \<open>cli/app\<close> wires these together: what the watcher
  reports is broadcast to clients and peers, what they send is written to the clipboard and
  relayed. \<open>send\<close> and \<open>watch\<close> run small servers of their own for one exchange. \<open>certs\<close> keeps
  the certificates, \<open>log\<close> the log level, \<open>cli\<close> picks the command.

  Theories, in the order of the imports.

  \<^item> \<open>Prelude\<close>: integers at their width, time, bytes and strings, association lists (Go maps
    whose iteration order does not matter), the locale \<open>machine\<close> of a step function with an
    invariant. \<open>GoStrings\<close>, \<open>Utf8\<close>, \<open>Base64\<close>, \<open>Filepath\<close>, \<open>Urls\<close>, \<open>Fnv\<close>, \<open>Json\<close>: what the
    code uses of Go's standard library (\<open>strings\<close>, \<open>unicode/utf8\<close>, \<open>encoding/base64\<close>,
    \<open>path/filepath\<close>, \<open>net/url\<close>, \<open>hash/fnv\<close>, \<open>encoding/json\<close> on parsed values), with the round
    trips the components rest on. \<open>JsonText\<close>: \<open>encoding/json\<close> on texts, what \<open>Marshal\<close> writes
    and the scanner. \<open>JsonNormal\<close>: what is read from any text at all is in a normal form.
  \<^item> \<open>Clip\<close> (\<open>clip/clip.go\<close>, the hash of \<open>clip/watch.go\<close>), \<open>Watcher\<close> (\<open>clip/watch.go\<close>: the
    event loop with its settling delay, and the two hashes that suppress echoes), \<open>WatchRun\<close> (the
    whole of \<open>Run\<close> over time, with its ticker or with notifications),
    \<open>ClipBackends\<close> (\<open>clip/backend_linux.go\<close>, \<open>clip_linux.go\<close>, \<open>clip_windows.go\<close>: the command
    line tools as a record of functions), \<open>Notify\<close> (\<open>clip/notify_*.go\<close>: which system calls are
    made and what is held at the end).
  \<^item> \<open>Protocol\<close> (\<open>protocol\<close>: messages and their JSON, content to message and back), \<open>Config\<close>
    (\<open>config/config.go\<close>: defaults, normalisation, queries), \<open>Quote\<close> (\<open>strconv.Quote\<close> and
    TOML's basic strings), \<open>Disk\<close> (files), \<open>Toml\<close> (\<open>Save\<close> and \<open>writeToml\<close> of \<open>config.go\<close>,
    \<open>cli/commands/configcmd\<close>, and a reader of what is written, after the TOML
    specification).
  \<^item> \<open>Server\<close> (\<open>websocket/server.go\<close>, \<open>handlers.go\<close>, \<open>broadcast.go\<close>, \<open>client.go\<close>,
    \<open>helpers.go\<close>): the record \<open>server\<close> is the Go \<open>Server\<close> with its clients, each handler a
    function on it, and \<open>sv_out\<close> the trace of everything written, closed or refused.
    \<open>ServerProps\<close>: the invariant \<open>server_inv\<close>, kept by every step, and what each operation
    appends to the trace. \<open>Relay\<close>: relaying and echo suppression. \<open>Handshake\<close>: token,
    whitelist, limit, replies. \<open>Interleave\<close>: handlers of several clients at the same time, cut
    where the code's locks cut them. \<open>Network\<close>: several daemons that are each other's peers;
    a step delivers a frame, and a flood with one content ends while two contents may not.
    \<open>Delivery\<close>: what is copied on one desktop gets to all that are linked to it.
  \<^item> \<open>Bus\<close>: what the server promises, as a small machine with members and links, and the proof
    that \<open>server_run\<close> implements it; \<open>Refinement\<close>: the locale \<open>refined_machine\<close> for that.
  \<^item> \<open>Locks\<close>, \<open>LockOrder\<close>: goroutines and mutexes, the locale \<open>lock_discipline\<close>, and what each
    function of \<open>websocket\<close> and \<open>watch.go\<close> does to locks and shared variables. The other theories
    take a function's steps between two of its locks as one; here is why that is allowed.
  \<^item> \<open>Wire\<close>: the frames of \<open>Protocol\<close> as texts, and reading them under the limit that
    \<open>handlers.go\<close> and \<open>peer.go\<close> set; the WebSocket library's read is a parameter. \<open>Valid\<close>: texts
    that nobody vouches for, as clients and peers send them, and what the daemons make of them.
  \<^item> \<open>Peer\<close>, \<open>PeerProps\<close> (\<open>websocket/peer.go\<close>): dialing, backoff, reading; \<open>Tls\<close>
    (\<open>websocket/tls.go\<close>): the TLS configurations and the verification of chains; \<open>PeerTls\<close>: dialing
    with them.
  \<^item> \<open>App\<close> (\<open>cli/app/app.go\<close>): the daemon, its watcher and its server together; \<open>EndToEnd\<close>: a network of them. \<open>Oneshot\<close>
    (\<open>cli/commands/send\<close>, \<open>watch\<close>): the one-shot servers. \<open>Api\<close> (\<open>api\<close>): the local HTTP
    interface, its client and its server; the locale \<open>api_backend\<close> is what it asks of a
    server. \<open>Serve\<close>: opening the ports (\<open>ListenAndServe\<close>, \<open>Listen\<close>) with or without TLS, and the
    commands' runs around it. \<open>LocalIPs\<close> (\<open>certs/load.go\<close>): the addresses of the machine.
  \<^item> \<open>Certs\<close>, \<open>CertsProps\<close> (\<open>certs\<close>): the files of the certificate authority, issuing, the QR
    code segments. \<open>Log\<close> (\<open>log/log.go\<close>), \<open>Discover\<close> (\<open>discover\<close>), \<open>Cli\<close> (\<open>cli\<close>, \<open>commands\<close>:
    dispatch, the flags of \<open>cert\<close>, \<open>status\<close>), \<open>Program\<close> (\<open>cmd/clipshare/main.go\<close>, the usage, and
    the commands behind the loading of the configuration).
  \<^item> \<open>Phone\<close>, \<open>Listener\<close> (\<open>tests/integration/client\<close>, \<open>listener\<close>): the programs that the integration
    tests use as the other side, a phone and a listener for announcements.

  Conventions. Go's \<open>int\<close>, \<open>int64\<close> and durations are HOL \<open>int\<close> with \<open>int64\<close> written where the
  code can overflow; hashes and counters are 64-bit words. Errors are \<open>Inl\<close>. A goroutine is a
  step function of the events it waits for; what a lock protects is one step. Third-party
  code (TOML, WebSocket, mDNS, the clipboard library, X.509) is a parameter, and what is
  assumed of it is a hypothesis or a locale (\<open>clip_interface\<close>, \<open>crypto_laws\<close>) with a concrete
  instance. Every loop of the model is structural or has a measure, and the loops of the code
  that run for ever are step functions folded over a list of events. The one fuel is that of
  the reader of lists in \<open>Toml\<close>: it is the length of the text, and a list has fewer elements.

  What is shown: the configuration that is loaded satisfies its invariants and survives
  being saved; what stays on the clipboard is noticed and none is echoed; the server is a
  bus that sends a message to every other client exactly once, also when handlers
  interleave; one content does not circulate in a network of daemons and reaches all of it,
  two at once may go round for ever; every frame is read back from its text, unless it is
  longer than the limit; the goroutines never deadlock and touch what is shared one at a
  time, but for one race; nobody gets in without the token or past the whitelist, and TLS is
  never given up, to clients or to peers; whatever texts come in, a content is passed on
  without change and the names of the clients are shown as they were announced; nothing is
  written to a closed connection; a peer is retried at bounded intervals and gets the
  broadcasts exactly while it is connected; what is copied on one desktop arrives on all the
  others and is not announced again; the one-shot servers send once; the command line's
  requests arrive; a phone is served and a daemon's beacons are heard; the CA is created
  once, and what is issued reads back; a configuration file that does not load stops every
  command but \<open>cert\<close>.

  Not modelled: accepting connections (the outcome of \<open>net.Listen\<close> and
  \<open>Serve\<close> is a parameter), signal handling, HTTP below methods, paths and
  bodies, the cryptography of \<open>crypto/x509\<close> and PKCS12 (parameters), drawing a
  QR code, the tests and the installers.
\<close>

section \<open>Configuration, discovery and admission together\<close>

text \<open>C40: an unknown connection mode is accepted by \<open>Load\<close> and half of the program treats it as
  the one known mode and half as the other: a daemon whose file has a mode that is neither
  \<open>discover\<close> nor \<open>whitelist\<close> starts, announces nothing, as in whitelist mode, and lets every
  device in whose hello decodes, as in discover mode, whatever the whitelist says.\<close>

theorem unknown_mode_fails_open:
  assumes "decode (Path env) (Default env) = Decoded c ks"
    and "conn_Mode (cfg_Connection c) \<notin> {[], ModeDiscover, ModeWhitelist}"
  shows "\<exists>cfg. Load env decode = Inr cfg \<and>
    Start register cfg = Inr \<lparr>an_mdns = None, an_beacon = None\<rparr> \<and>
    (sv_cfg s = cfg \<and> client_ready i s = Some False \<longrightarrow>
      client_ready i (fst (handleHello e (daemon_hooks cb) i (Frame (Some (hello_frame h))) (s, w))) =
        Some True)"
proof -
  let ?cfg = "normalize ks c"
  have mode: "conn_Mode (cfg_Connection ?cfg) = conn_Mode (cfg_Connection c)"
    using assms(2) by (simp add: normalize_def Let_def)
  have "client_ready i (fst (handleHello e (daemon_hooks cb) i (Frame (Some (hello_frame h))) (s, w))) =
      Some True" if s: "sv_cfg s = ?cfg" and cl: "client_ready i s = Some False"
  proof -
    have "\<exists>h'. hello_accepted s i (Frame (Some (hello_frame h))) h'"
      using s mode assms(2) by (simp add: hello_accepted_def)
    then show ?thesis
      using cl by (auto simp: handleHello_accepted accept_hello_parts client_ready_def
          run_connect_hook_def daemon_hooks_def update_client_def cl_write_append)
  qed
  then show ?thesis
    using assms mode by (auto simp: Load_def Start_def)
qed

definition ex_open :: config where
  "ex_open = Default sample_env
     \<lparr>cfg_Connection := \<lparr>conn_Mode = ''white-list'', conn_Whitelist = [\<lparr>wl_Name = ''phone'', wl_IP = []\<rparr>]\<rparr>\<rparr>"

theorem unknown_mode_fails_open_witness:
  "client_ready ''1'' (fst (handleHello ex_env ex_hooks ''1''
      (Frame (Some (hello_frame \<lparr>h_Name = ''stranger'', h_Platform = [], h_Version = []\<rparr>)))
      (fst (handleWS [] ''10.0.0.9:5000'' True (New ex_env (normalize [] ex_open) ''1'')), []))) = Some True"
proof -
  let ?s = "fst (handleWS [] ''10.0.0.9:5000'' True (New ex_env (normalize [] ex_open) ''1''))"
  have mode: "conn_Mode (cfg_Connection ex_open) \<notin> {[], ModeDiscover, ModeWhitelist}"
    by (simp add: ex_open_def ModeDiscover_def ModeWhitelist_def)
  have "cfg_Token (normalize [] ex_open) = []"
    by (simp add: normalize_keeps ex_open_def)
  then have "sv_cfg ?s = normalize [] ex_open \<and> client_ready ''1'' ?s = Some False"
    by (simp add: handleWS_def newID_def Let_def New_def client_ready_def new_client_def)
  moreover have "Load sample_env (\<lambda>_ _. Decoded ex_open []) = Inr (normalize [] ex_open)"
    by (simp add: Load_def)
  ultimately show ?thesis
    using unknown_mode_fails_open [where decode = "\<lambda>_ _. Decoded ex_open []" and env = sample_env
        and c = ex_open and ks = "[]" and register = "\<lambda>_. None" and s = ?s and i = "''1''"
        and e = ex_env and cb = "\<lambda>c from w. w @ [c]" and w = "[]"
        and h = "\<lparr>h_Name = ''stranger'', h_Platform = [], h_Version = []\<rparr>", OF refl mode]
    by (auto simp: ex_hooks_def)
qed

end
